(* ===== verification/Prelude.thy ===== *)
theory Prelude
  imports Main "HOL-Library.Word"
begin

text \<open>
  Shared vocabulary of the development: the byte and word types, the error values of
  \<^verbatim>\<open>src/src/lib.rs\<close>, the outcome of a Rust call (value, error, panic, no return), the
  byte-string helpers the components use, and the collections their proofs share.
\<close>

named_theorems posts \<open>rules for what holds of every value an outcome can have\<close>
named_theorems res_intros \<open>facts that put an outcome together\<close>
named_theorems reads \<open>reading back what was written\<close>
named_theorems lens \<open>lengths of encodings\<close>

type_synonym u8 = "8 word"
type_synonym u32 = "32 word"
type_synonym bytes = "u8 list"

section \<open>Errors\<close>

text \<open>The variants of \<^verbatim>\<open>thrussh::Error\<close>.\<close>

datatype error =
    E_CouldNotReadKey
  | E_KexInit
  | E_NoCommonKexAlgo
  | E_NoCommonKeyAlgo
  | E_NoCommonCipher
  | E_NoCommonCompression
  | E_Version
  | E_Kex
  | E_PacketAuth
  | E_Inconsistent
  | E_NotAuthenticated
  | E_IndexOutOfBounds
  | E_UnknownKey
  | E_WrongServerSig
  | E_WrongChannel
  | E_Disconnect
  | E_NoHomeDir
  | E_KeyChanged nat
  | E_HUP
  | E_ConnectionTimeout
  | E_NoAuthMethod
  | E_SendError

text \<open>
  What an \<^verbatim>\<open>anyhow::Error\<close> of this crate can hold: an error of the crate, an I/O error of
  the stream, a UTF-8 error of \<^verbatim>\<open>std::str::from_utf8\<close>, the bounds error of the
  \<^verbatim>\<open>thrussh_keys\<close> reader, its key-parsing error, or any other error of a library.
\<close>

datatype any_error =
    Thrussh error
  | Io_Error
  | Utf8_Error
  | Keys_IndexOutOfBounds
  | Keys_CouldNotReadKey
  | Other_Error

section \<open>Outcomes\<close>

text \<open>
  A call returns a value, returns an error, panics (a failed assertion, an index out of
  range, an \<^verbatim>\<open>unwrap\<close> of nothing, an arithmetic overflow in a checked build), or does not
  return at all.
\<close>

datatype 'a res = Ok 'a | Err any_error | Panic | Diverge

primrec rbind :: "'a res \<Rightarrow> ('a \<Rightarrow> 'b res) \<Rightarrow> 'b res" where
  "rbind (Ok x) f = f x"
| "rbind (Err e) f = Err e"
| "rbind Panic f = Panic"
| "rbind Diverge f = Diverge"

definition rmap :: "('a \<Rightarrow> 'b) \<Rightarrow> 'a res \<Rightarrow> 'b res" where
  "rmap f r = rbind r (\<lambda>x. Ok (f x))"

primrec is_ok :: "'a res \<Rightarrow> bool" where
  "is_ok (Ok x) = True"
| "is_ok (Err e) = False"
| "is_ok Panic = False"
| "is_ok Diverge = False"

lemma rmap_simps [simp]:
  "rmap f (Ok x) = Ok (f x)"
  "rmap f (Err e) = Err e"
  "rmap f Panic = Panic"
  "rmap f Diverge = Diverge"
  by (simp_all add: rmap_def)

lemma rbind_eq_Ok: "rbind r f = Ok y \<longleftrightarrow> (\<exists>x. r = Ok x \<and> f x = Ok y)"
  by (cases r) simp_all

lemma rbind_OkE [elim]:
  assumes "rbind r f = Ok y"
  obtains x where "r = Ok x" and "f x = Ok y"
  using assms by (auto simp: rbind_eq_Ok)

lemma rbind_assoc: "rbind (rbind r f) g = rbind r (\<lambda>x. rbind (f x) g)"
  by (cases r) simp_all

lemma rmap_eq_Ok: "rmap f r = Ok y \<longleftrightarrow> (\<exists>x. r = Ok x \<and> y = f x)"
  by (cases r) auto

text \<open>What an evaluated outcome says.\<close>

lemma ok_run:
  assumes "case r of Ok x \<Rightarrow> P x | _ \<Rightarrow> False"
  obtains x where "r = Ok x" and "P x"
  using assms by (cases r) auto

text \<open>
  A postcondition of an outcome, and its rules, which follow the structure of a definition.
\<close>

definition rpost :: "('a \<Rightarrow> bool) \<Rightarrow> 'a res \<Rightarrow> bool" where
  "rpost P r \<longleftrightarrow> (\<forall>x. r = Ok x \<longrightarrow> P x)"

lemma rpost_simps [simp, posts]:
  "P x \<Longrightarrow> rpost P (Ok x)" "rpost P (Err e)" "rpost P Panic" "rpost P Diverge"
  by (simp_all add: rpost_def)

lemma rpostD: "rpost P r \<Longrightarrow> r = Ok x \<Longrightarrow> P x"
  by (simp add: rpost_def)

lemma rpost_bind: "(\<And>x. r = Ok x \<Longrightarrow> rpost P (f x)) \<Longrightarrow> rpost P (rbind r f)"
  by (cases r) simp_all

lemma rpost_bind2 [posts]:
  "(\<And>x y. r = Ok (x, y) \<Longrightarrow> rpost P (f x y)) \<Longrightarrow> rpost P (rbind r (\<lambda>(x, y). f x y))"
  by (rule rpost_bind) auto

lemma rpost_if [posts]:
  "(b \<Longrightarrow> rpost P r) \<Longrightarrow> (\<not> b \<Longrightarrow> rpost P r') \<Longrightarrow> rpost P (if b then r else r')"
  by simp

lemma rpost_option [posts]:
  "(x = None \<Longrightarrow> rpost P r) \<Longrightarrow> (\<And>y. x = Some y \<Longrightarrow> rpost P (f y)) \<Longrightarrow>
   rpost P (case x of None \<Rightarrow> r | Some y \<Rightarrow> f y)"
  by (cases x) auto

lemma rpost_prod [posts]:
  "(\<And>x y. p = (x, y) \<Longrightarrow> rpost P (f x y)) \<Longrightarrow> rpost P (case p of (x, y) \<Rightarrow> f x y)"
  by (cases p) auto

lemma rpost_weaken: "rpost P r \<Longrightarrow> (\<And>x. P x \<Longrightarrow> Q x) \<Longrightarrow> rpost Q r"
  by (simp add: rpost_def)

lemma rpost_rmap: "rpost (\<lambda>x. P (f x)) r \<Longrightarrow> rpost P (rmap f r)"
  by (cases r) (auto simp: rpost_def)

text \<open>\<^verbatim>\<open>assert!\<close>, and \<^verbatim>\<open>Option::unwrap\<close>.\<close>

definition rassert :: "bool \<Rightarrow> 'a res \<Rightarrow> 'a res" where
  "rassert b r = (if b then r else Panic)"

primrec runwrap :: "'a option \<Rightarrow> 'a res" where
  "runwrap None = Panic"
| "runwrap (Some x) = Ok x"

lemma rassert_simps [simp]: "rassert True r = r" "rassert False r = Panic"
  by (simp_all add: rassert_def)

lemma rassert_eq_Ok: "rassert b r = Ok x \<longleftrightarrow> b \<and> r = Ok x"
  by (simp add: rassert_def)

section \<open>Byte strings\<close>

text \<open>
  A Rust byte-string or string literal. Rust's \<^verbatim>\<open>str\<close> is its UTF-8 bytes, so strings are
  byte lists throughout; \<open>ascii\<close> gives the bytes of a literal.
\<close>

definition ascii :: "string \<Rightarrow> bytes" where
  "ascii s = map of_char s"

lemma length_ascii [simp]: "length (ascii s) = length s"
  by (simp add: ascii_def)

lemma ascii_Nil [simp]: "ascii [] = []"
  by (simp add: ascii_def)

lemma ascii_Cons [simp]: "ascii (c # s) = of_char c # ascii s"
  by (simp add: ascii_def)

text \<open>
  Slices. \<open>&v[i..j]\<close> panics unless \<open>i \<le> j \<le> v.len()\<close>; \<open>&v[i..]\<close> panics unless
  \<open>i \<le> v.len()\<close>.
\<close>

definition slice :: "'a list \<Rightarrow> nat \<Rightarrow> nat \<Rightarrow> 'a list res" where
  "slice v i j = (if i \<le> j \<and> j \<le> length v then Ok (take (j - i) (drop i v)) else Panic)"

definition slice_from :: "'a list \<Rightarrow> nat \<Rightarrow> 'a list res" where
  "slice_from v i = (if i \<le> length v then Ok (drop i v) else Panic)"

definition index :: "'a list \<Rightarrow> nat \<Rightarrow> 'a res" where
  "index v i = (if i < length v then Ok (v ! i) else Panic)"

lemma slice_0 [simp]: "slice v 0 j = (if j \<le> length v then Ok (take j v) else Panic)"
  by (simp add: slice_def)

text \<open>Growing fills with zero bytes, shrinking drops the tail.\<close>

definition resize :: "bytes \<Rightarrow> nat \<Rightarrow> bytes" where
  "resize v n = take n v @ replicate (n - length v) 0"

lemma length_resize [simp, lens]: "length (resize v n) = n"
  by (simp add: resize_def)

lemma resize_shrink: "n \<le> length v \<Longrightarrow> resize v n = take n v"
  by (simp add: resize_def)

lemma take_resize: "k \<le> n \<Longrightarrow> k \<le> length v \<Longrightarrow> take k (resize v n) = take k v"
  by (simp add: resize_def min_def)

section \<open>UTF-8\<close>

text \<open>
  \<^verbatim>\<open>std::str::from_utf8\<close>: the well-formed byte sequences of the Unicode standard
  (its table of well-formed UTF-8, which excludes overlong forms and surrogates).
\<close>

definition cont_byte :: "u8 \<Rightarrow> bool" where
  "cont_byte b \<longleftrightarrow> 0x80 \<le> b \<and> b \<le> 0xBF"

fun utf8_valid :: "bytes \<Rightarrow> bool" where
  "utf8_valid [] = True"
| "utf8_valid (a # r) =
    (if a \<le> 0x7F then utf8_valid r
     else if 0xC2 \<le> a \<and> a \<le> 0xDF then
       (case r of b # r' \<Rightarrow> cont_byte b \<and> utf8_valid r' | _ \<Rightarrow> False)
     else if 0xE0 \<le> a \<and> a \<le> 0xEF then
       (case r of b # c # r' \<Rightarrow>
          cont_byte b \<and> cont_byte c \<and>
          (a = 0xE0 \<longrightarrow> 0xA0 \<le> b) \<and> (a = 0xED \<longrightarrow> b \<le> 0x9F) \<and> utf8_valid r'
        | _ \<Rightarrow> False)
     else if 0xF0 \<le> a \<and> a \<le> 0xF4 then
       (case r of b # c # d # r' \<Rightarrow>
          cont_byte b \<and> cont_byte c \<and> cont_byte d \<and>
          (a = 0xF0 \<longrightarrow> 0x90 \<le> b) \<and> (a = 0xF4 \<longrightarrow> b \<le> 0x8F) \<and> utf8_valid r'
        | _ \<Rightarrow> False)
     else False)"

definition from_utf8 :: "bytes \<Rightarrow> bytes res" where
  "from_utf8 s = (if utf8_valid s then Ok s else Err Utf8_Error)"

lemma utf8_valid_ascii: "(\<forall>b \<in> set s. b \<le> 0x7F) \<Longrightarrow> utf8_valid s"
  by (induction s) simp_all

lemma from_utf8_valid [simp]: "utf8_valid s \<Longrightarrow> from_utf8 s = Ok s"
  by (simp add: from_utf8_def)

text \<open>
  \<^verbatim>\<open>String::from_utf8_lossy\<close>: every maximal prefix of a well-formed sequence that breaks off, and
  every other byte that starts none, becomes the replacement character U+FFFD.
\<close>

definition utf8_second :: "u8 \<Rightarrow> u8 \<Rightarrow> bool" where
  "utf8_second a b \<longleftrightarrow> cont_byte b \<and>
     (a = 0xE0 \<longrightarrow> 0xA0 \<le> b) \<and> (a = 0xED \<longrightarrow> b \<le> 0x9F) \<and>
     (a = 0xF0 \<longrightarrow> 0x90 \<le> b) \<and> (a = 0xF4 \<longrightarrow> b \<le> 0x8F)"

definition utf8_replacement :: bytes where
  "utf8_replacement = [0xEF, 0xBF, 0xBD]"

fun utf8_lossy :: "bytes \<Rightarrow> bytes" where
  "utf8_lossy [] = []"
| "utf8_lossy (a # r) =
    (if a \<le> 0x7F then a # utf8_lossy r
     else if 0xC2 \<le> a \<and> a \<le> 0xDF then
       (case r of
          b # r' \<Rightarrow> if cont_byte b then a # b # utf8_lossy r' else utf8_replacement @ utf8_lossy r
        | [] \<Rightarrow> utf8_replacement)
     else if 0xE0 \<le> a \<and> a \<le> 0xEF then
       (case r of
          [] \<Rightarrow> utf8_replacement
        | b # r1 \<Rightarrow>
            if \<not> utf8_second a b then utf8_replacement @ utf8_lossy r
            else (case r1 of
                [] \<Rightarrow> utf8_replacement
              | c # r2 \<Rightarrow> if cont_byte c then a # b # c # utf8_lossy r2
                         else utf8_replacement @ utf8_lossy r1))
     else if 0xF0 \<le> a \<and> a \<le> 0xF4 then
       (case r of
          [] \<Rightarrow> utf8_replacement
        | b # r1 \<Rightarrow>
            if \<not> utf8_second a b then utf8_replacement @ utf8_lossy r
            else (case r1 of
                [] \<Rightarrow> utf8_replacement
              | c # r2 \<Rightarrow>
                  if \<not> cont_byte c then utf8_replacement @ utf8_lossy r1
                  else (case r2 of
                      [] \<Rightarrow> utf8_replacement
                    | d # r3 \<Rightarrow> if cont_byte d then a # b # c # d # utf8_lossy r3
                               else utf8_replacement @ utf8_lossy r2)))
     else utf8_replacement @ utf8_lossy r)"

declare utf8_lossy.simps(2) [simp del]

lemma utf8_lossy_valid: "utf8_valid s \<Longrightarrow> utf8_lossy s = s"
proof (induction s rule: utf8_valid.induct)
  case (2 a r)
  note v = 2(5) [unfolded utf8_valid.simps(2)]
  consider (one) "a \<le> 0x7F" | (two) "\<not> a \<le> 0x7F" "0xC2 \<le> a \<and> a \<le> 0xDF"
    | (three) "\<not> a \<le> 0x7F" "\<not> (0xC2 \<le> a \<and> a \<le> 0xDF)" "0xE0 \<le> a \<and> a \<le> 0xEF"
    | (four) "\<not> a \<le> 0x7F" "\<not> (0xC2 \<le> a \<and> a \<le> 0xDF)" "\<not> (0xE0 \<le> a \<and> a \<le> 0xEF)"
        "0xF0 \<le> a \<and> a \<le> 0xF4"
    using v by argo
  then show ?case
  proof cases
    case one
    with v 2(1) show ?thesis by (simp only: utf8_lossy.simps(2) if_True)
  next
    case two
    with v obtain b r' where "r = b # r'" "cont_byte b" "utf8_valid r'"
      by (simp only: if_False if_True) (cases r, simp_all del: utf8_valid.simps)
    with two 2(2) show ?thesis by (subst utf8_lossy.simps(2)) (auto simp del: utf8_valid.simps)
  next
    case three
    then have "a \<noteq> 0xF0" "a \<noteq> 0xF4" by auto
    with three v obtain b c r' where "r = b # c # r'" "utf8_second a b" "cont_byte c" "utf8_valid r'"
      by (simp only: if_False if_True)
        (force simp: utf8_second_def simp del: utf8_valid.simps split: list.splits)
    with three 2(3) show ?thesis by (subst utf8_lossy.simps(2)) (auto simp del: utf8_valid.simps)
  next
    case four
    then have "a \<noteq> 0xE0" "a \<noteq> 0xED" by auto
    with four v obtain b c d r' where "r = b # c # d # r'" "utf8_second a b" "cont_byte c" "cont_byte d"
        "utf8_valid r'"
      by (simp only: if_False if_True)
        (force simp: utf8_second_def simp del: utf8_valid.simps split: list.splits)
    with four 2(4) show ?thesis by (subst utf8_lossy.simps(2)) (auto simp del: utf8_valid.simps)
  qed
qed simp

section \<open>Casts\<close>

text \<open>\<^verbatim>\<open>x as u32\<close> of a \<^verbatim>\<open>usize\<close> keeps the low 32 bits; \<^verbatim>\<open>x as usize\<close> of a \<^verbatim>\<open>u32\<close> is exact.\<close>

abbreviation as_u32 :: "nat \<Rightarrow> u32" where
  "as_u32 n \<equiv> of_nat n"

abbreviation as_usize :: "u32 \<Rightarrow> nat" where
  "as_usize w \<equiv> unat w"

lemma as_usize_as_u32 [simp]: "n < 2 ^ 32 \<Longrightarrow> as_usize (as_u32 n) = n"
  by (simp add: unat_of_nat)

lemma as_u32_le_word:
  "n < 2 ^ 32 \<Longrightarrow> (as_u32 n \<le> w) = (n \<le> as_usize w)"
  by (simp add: word_le_nat_alt unat_of_nat)

lemma as_u32_less_word:
  "n < 2 ^ 32 \<Longrightarrow> (w < as_u32 n) = (as_usize w < n)"
  by (simp add: word_less_nat_alt unat_of_nat)

lemma unat_less_2p32: "unat (w :: u32) < 2 ^ 32"
  using unsigned_less [of w] by simp

section \<open>Lists\<close>

lemma take_drop_split: "i \<le> j \<Longrightarrow> drop i xs = take (j - i) (drop i xs) @ drop j xs"
  by (metis add.commute append_take_drop_id drop_drop le_add_diff_inverse2)

lemma drop_eq_append_imp:
  "drop p b = x @ r \<Longrightarrow> drop (p + length x) b = r"
  by (metis add.commute append_eq_conv_conj drop_drop)

lemma drop_eq_length: "drop p b = x \<Longrightarrow> p \<le> length b \<Longrightarrow> length b = p + length x"
  by auto

end
