(* ===== verification/Msg.thy ===== *)
theory Msg
  imports Prelude
begin

text \<open>
  The message numbers of \<^verbatim>\<open>src/src/msg.rs\<close>. Their definitions are the lemma bundle
  \<open>msg_defs\<close>; every one is a simplification rule, so that the dispatch of a handler on the
  first byte of a packet is decided by evaluation.
\<close>

definition MSG_DISCONNECT :: u8 where "MSG_DISCONNECT = 1"
definition MSG_IGNORE :: u8 where "MSG_IGNORE = 2"
definition MSG_UNIMPLEMENTED :: u8 where "MSG_UNIMPLEMENTED = 3"
definition MSG_DEBUG :: u8 where "MSG_DEBUG = 4"
definition MSG_SERVICE_REQUEST :: u8 where "MSG_SERVICE_REQUEST = 5"
definition MSG_SERVICE_ACCEPT :: u8 where "MSG_SERVICE_ACCEPT = 6"
definition MSG_KEXINIT :: u8 where "MSG_KEXINIT = 20"
definition MSG_NEWKEYS :: u8 where "MSG_NEWKEYS = 21"
definition MSG_KEX_ECDH_INIT :: u8 where "MSG_KEX_ECDH_INIT = 30"
definition MSG_KEX_ECDH_REPLY :: u8 where "MSG_KEX_ECDH_REPLY = 31"
definition MSG_USERAUTH_REQUEST :: u8 where "MSG_USERAUTH_REQUEST = 50"
definition MSG_USERAUTH_FAILURE :: u8 where "MSG_USERAUTH_FAILURE = 51"
definition MSG_USERAUTH_SUCCESS :: u8 where "MSG_USERAUTH_SUCCESS = 52"
definition MSG_USERAUTH_BANNER :: u8 where "MSG_USERAUTH_BANNER = 53"
definition MSG_USERAUTH_PK_OK :: u8 where "MSG_USERAUTH_PK_OK = 60"
definition MSG_USERAUTH_INFO_REQUEST :: u8 where "MSG_USERAUTH_INFO_REQUEST = 60"
definition MSG_USERAUTH_INFO_RESPONSE :: u8 where "MSG_USERAUTH_INFO_RESPONSE = 61"
definition MSG_GLOBAL_REQUEST :: u8 where "MSG_GLOBAL_REQUEST = 80"
definition MSG_REQUEST_SUCCESS :: u8 where "MSG_REQUEST_SUCCESS = 81"
definition MSG_REQUEST_FAILURE :: u8 where "MSG_REQUEST_FAILURE = 82"
definition MSG_CHANNEL_OPEN :: u8 where "MSG_CHANNEL_OPEN = 90"
definition MSG_CHANNEL_OPEN_CONFIRMATION :: u8 where "MSG_CHANNEL_OPEN_CONFIRMATION = 91"
definition MSG_CHANNEL_OPEN_FAILURE :: u8 where "MSG_CHANNEL_OPEN_FAILURE = 92"
definition MSG_CHANNEL_WINDOW_ADJUST :: u8 where "MSG_CHANNEL_WINDOW_ADJUST = 93"
definition MSG_CHANNEL_DATA :: u8 where "MSG_CHANNEL_DATA = 94"
definition MSG_CHANNEL_EXTENDED_DATA :: u8 where "MSG_CHANNEL_EXTENDED_DATA = 95"
definition MSG_CHANNEL_EOF :: u8 where "MSG_CHANNEL_EOF = 96"
definition MSG_CHANNEL_CLOSE :: u8 where "MSG_CHANNEL_CLOSE = 97"
definition MSG_CHANNEL_REQUEST :: u8 where "MSG_CHANNEL_REQUEST = 98"
definition MSG_CHANNEL_SUCCESS :: u8 where "MSG_CHANNEL_SUCCESS = 99"
definition MSG_CHANNEL_FAILURE :: u8 where "MSG_CHANNEL_FAILURE = 100"

lemmas msg_defs [simp] =
  MSG_DISCONNECT_def MSG_IGNORE_def MSG_UNIMPLEMENTED_def MSG_DEBUG_def
  MSG_SERVICE_REQUEST_def MSG_SERVICE_ACCEPT_def MSG_KEXINIT_def MSG_NEWKEYS_def
  MSG_KEX_ECDH_INIT_def MSG_KEX_ECDH_REPLY_def MSG_USERAUTH_REQUEST_def
  MSG_USERAUTH_FAILURE_def MSG_USERAUTH_SUCCESS_def MSG_USERAUTH_BANNER_def
  MSG_USERAUTH_PK_OK_def MSG_USERAUTH_INFO_REQUEST_def MSG_USERAUTH_INFO_RESPONSE_def
  MSG_GLOBAL_REQUEST_def MSG_REQUEST_SUCCESS_def MSG_REQUEST_FAILURE_def
  MSG_CHANNEL_OPEN_def MSG_CHANNEL_OPEN_CONFIRMATION_def MSG_CHANNEL_OPEN_FAILURE_def
  MSG_CHANNEL_WINDOW_ADJUST_def MSG_CHANNEL_DATA_def MSG_CHANNEL_EXTENDED_DATA_def
  MSG_CHANNEL_EOF_def MSG_CHANNEL_CLOSE_def MSG_CHANNEL_REQUEST_def
  MSG_CHANNEL_SUCCESS_def MSG_CHANNEL_FAILURE_def

end
