(* ===== verification/Codec.thy ===== *)
theory Codec
  imports Prelude
begin

unbundle bit_operations_syntax

text \<open>
  The wire encoding of SSH (RFC 4251, section 5) is implemented by third-party crates:
  \<^verbatim>\<open>byteorder\<close> (\<^verbatim>\<open>BigEndian::write_u32\<close>, \<^verbatim>\<open>read_u32\<close>) and \<^verbatim>\<open>thrussh_keys::encoding\<close> (the
  \<^verbatim>\<open>Encoding\<close> writer on vectors, the \<^verbatim>\<open>Position\<close> reader). They are a parameter of every
  definition that writes or parses a packet: a value of type \<open>codec\<close>. What the code relies on
  is stated once, as the assumptions of the locale \<open>codec_laws\<close>; the encoding of the RFC is
  shown to satisfy them, so they can hold.
\<close>

record codec =
  u32_be :: "u32 \<Rightarrow> bytes"
  be_u32 :: "bytes \<Rightarrow> u32"
  ssh_string :: "bytes \<Rightarrow> bytes"
  name_list :: "bytes list \<Rightarrow> bytes"
  ssh_mpint :: "bytes \<Rightarrow> bytes"
  mpint_len :: "bytes \<Rightarrow> nat"
  read_byte :: "bytes \<Rightarrow> nat \<Rightarrow> (u8 \<times> nat) res"
  read_u32 :: "bytes \<Rightarrow> nat \<Rightarrow> (u32 \<times> nat) res"
  read_string :: "bytes \<Rightarrow> nat \<Rightarrow> (bytes \<times> nat) res"

text \<open>
  Reading: \<open>u32_be\<close> are the bytes of \<^verbatim>\<open>push_u32_be\<close> and of \<^verbatim>\<open>BigEndian::write_u32\<close>;
  \<open>be_u32\<close> is \<^verbatim>\<open>BigEndian::read_u32\<close> on a slice of at least four bytes; \<open>ssh_string\<close>,
  \<open>name_list\<close> and \<open>ssh_mpint\<close> are the bytes appended by \<^verbatim>\<open>extend_ssh_string\<close>,
  \<^verbatim>\<open>extend_list\<close> (and \<^verbatim>\<open>write_empty_list\<close>, on no names) and \<^verbatim>\<open>extend_ssh_mpint\<close>; a reader
  takes the buffer and the position and returns the value and the next position.
\<close>

fun join_names :: "bytes list \<Rightarrow> bytes" where
  "join_names [] = []"
| "join_names [x] = x"
| "join_names (x # y # ys) = x @ [of_char CHR '','']  @ join_names (y # ys)"

locale codec_laws =
  fixes C :: codec
  assumes len_u32_be [simp, lens]: "length (u32_be C w) = 4"
    and be_u32_u32_be [simp]: "be_u32 C (u32_be C w @ r) = w"
    and ssh_string_eq: "ssh_string C s = u32_be C (as_u32 (length s)) @ s"
    and name_list_eq: "name_list C ns = ssh_string C (join_names ns)"
    and read_byte_eq: "read_byte C b p =
          (if p < length b then Ok (b ! p, p + 1) else Err Keys_IndexOutOfBounds)"
    and read_u32_eq: "read_u32 C b p =
          (if p + 4 \<le> length b then Ok (be_u32 C (drop p b), p + 4)
           else Err Keys_IndexOutOfBounds)"
    and read_string_eq: "read_string C b p =
          rbind (read_u32 C b p) (\<lambda>(n, q).
            if q + unat n \<le> length b then Ok (take (unat n) (drop q b), q + unat n)
            else Err Keys_IndexOutOfBounds)"
begin

lemma length_ssh_string [simp, lens]: "length (ssh_string C s) = 4 + length s"
  by (simp add: ssh_string_eq)

text \<open>
  Reading back what was written, in the form parsers use it: the bytes from the position on
  begin with the encoding, and what follows is left for the next read.
\<close>

lemma read_byte_at:
  assumes "drop p b = x # r"
  shows "read_byte C b p = Ok (x, p + 1)" and "drop (p + 1) b = r"
proof -
  have lt: "p < length b"
    using assms by (metis drop_eq_Nil list.distinct(1) not_le)
  with assms have "b ! p = x"
    by (metis hd_drop_conv_nth list.sel(1))
  with lt show "read_byte C b p = Ok (x, p + 1)" by (simp add: read_byte_eq)
  from assms show "drop (p + 1) b = r"
    by (metis add.commute drop_drop drop_0 drop_Suc_Cons One_nat_def)
qed

lemma drop_enough: "drop p b = x @ r \<Longrightarrow> x \<noteq> [] \<Longrightarrow> p + length x \<le> length b"
  by (metis append_is_Nil_conv diff_is_0_eq drop_eq_Nil le_add1 le_add_diff_inverse
      length_append length_drop nat_add_left_cancel_le not_less_eq_eq
      nat_le_linear)

lemma u32_be_nonempty [simp]: "u32_be C w \<noteq> []"
  using len_u32_be [of w] by (metis list.size(3) zero_neq_numeral)

lemma read_u32_at:
  assumes "drop p b = u32_be C w @ r"
  shows "read_u32 C b p = Ok (w, p + 4)" and "drop (p + 4) b = r"
proof -
  from drop_enough [OF assms] have "p + 4 \<le> length b" by simp
  with assms show "read_u32 C b p = Ok (w, p + 4)" by (simp add: read_u32_eq)
  show "drop (p + 4) b = r"
    using drop_eq_append_imp [OF assms] by simp
qed

lemma read_string_at:
  assumes "drop p b = ssh_string C s @ r" and "length s < 2 ^ 32"
  shows "read_string C b p = Ok (s, p + 4 + length s)"
    and "drop (p + 4 + length s) b = r"
proof -
  from assms(1) have d: "drop p b = u32_be C (as_u32 (length s)) @ (s @ r)"
    by (simp add: ssh_string_eq)
  have q: "drop (p + 4) b = s @ r" by (rule read_u32_at(2) [OF d])
  have le: "p + 4 \<le> length b" using drop_enough [OF d] by simp
  have "length (drop (p + 4) b) = length s + length r" by (simp add: q)
  with le have len: "p + 4 + length s \<le> length b" by simp
  show "read_string C b p = Ok (s, p + 4 + length s)"
    using assms(2) len by (simp add: read_string_eq read_u32_at(1) [OF d] q)
  show "drop (p + 4 + length s) b = r"
    using drop_eq_append_imp [OF q] by simp
qed

text \<open>The same, with the next position left open: what a proof about a parser chains.\<close>

lemma read_string_ex:
  assumes "drop p b = ssh_string C s @ r" and "length s < 2 ^ 32"
  obtains q where "read_string C b p = Ok (s, q)" and "drop q b = r"
  using read_string_at [OF assms] by blast

lemma read_u32_ex:
  assumes "drop p b = u32_be C w @ r"
  obtains q where "read_u32 C b p = Ok (w, q)" and "drop q b = r"
  using read_u32_at [OF assms] by blast

lemma read_byte_ex:
  assumes "drop p b = x # r"
  obtains q where "read_byte C b p = Ok (x, q)" and "drop q b = r"
  using read_byte_at [OF assms] by blast

text \<open>A reader never moves backwards, never past the end, and returns bytes of the buffer.\<close>

lemma read_string_Ok:
  assumes "read_string C b p = Ok (s, q)"
  shows "q = p + 4 + length s" and "q \<le> length b" and "s = take (length s) (drop (p + 4) b)"
  using assms
  by (auto simp: read_string_eq read_u32_eq rbind_eq_Ok min_def split: if_splits)

lemma read_u32_Ok:
  assumes "read_u32 C b p = Ok (w, q)"
  shows "q = p + 4" and "q \<le> length b"
  using assms by (auto simp: read_u32_eq split: if_splits)

lemma read_byte_Ok:
  assumes "read_byte C b p = Ok (x, q)"
  shows "q = p + 1" and "q \<le> length b" and "x = b ! p"
  using assms by (auto simp: read_byte_eq split: if_splits)

lemma read_string_not_Panic [simp]:
  "read_string C b p \<noteq> Panic" "read_string C b p \<noteq> Diverge"
  by (auto simp: read_string_eq read_u32_eq)

lemma read_u32_not_Panic [simp]:
  "read_u32 C b p \<noteq> Panic" "read_u32 C b p \<noteq> Diverge"
  by (auto simp: read_u32_eq)

lemma read_byte_not_Panic [simp]:
  "read_byte C b p \<noteq> Panic" "read_byte C b p \<noteq> Diverge"
  by (auto simp: read_byte_eq)

end

text \<open>\<^verbatim>\<open>std::str::from_utf8(r.read_string()?)?\<close>\<close>

definition read_str :: "codec \<Rightarrow> bytes \<Rightarrow> nat \<Rightarrow> (bytes \<times> nat) res" where
  "read_str C buf p = rbind (read_string C buf p) (\<lambda>(a, q). rmap (\<lambda>a. (a, q)) (from_utf8 a))"

text \<open>What fits the length of a string.\<close>

abbreviation short :: "bytes \<Rightarrow> bool" where
  "short s \<equiv> length s < 2 ^ 32"

context codec_laws
begin

lemma read_str_ex:
  assumes "drop p b = ssh_string C s @ r" and "short s" and "utf8_valid s"
  obtains q where "read_str C b p = Ok (s, q)" and "drop q b = r"
  using read_string_at [OF assms(1,2)] assms(3) by (auto simp: read_str_def)

end

section \<open>The encoding of the RFC\<close>

definition rfc_u32_be :: "u32 \<Rightarrow> bytes" where
  "rfc_u32_be w = [ucast (drop_bit 24 w), ucast (drop_bit 16 w), ucast (drop_bit 8 w), ucast w]"

definition rfc_be_u32 :: "bytes \<Rightarrow> u32" where
  "rfc_be_u32 b =
     push_bit 24 (ucast (b ! 0)) OR push_bit 16 (ucast (b ! 1)) OR
     push_bit 8 (ucast (b ! 2)) OR ucast (b ! 3)"

definition rfc_string :: "bytes \<Rightarrow> bytes" where
  "rfc_string s = rfc_u32_be (as_u32 (length s)) @ s"

definition rfc_mpint_body :: "bytes \<Rightarrow> bytes" where
  "rfc_mpint_body s = (case dropWhile (\<lambda>b. b = 0) s of
      [] \<Rightarrow> []
    | b # r \<Rightarrow> if 0x80 \<le> b then 0 # b # r else b # r)"

definition rfc_read_u32 :: "bytes \<Rightarrow> nat \<Rightarrow> (u32 \<times> nat) res" where
  "rfc_read_u32 b p =
     (if p + 4 \<le> length b then Ok (rfc_be_u32 (drop p b), p + 4)
      else Err Keys_IndexOutOfBounds)"

definition rfc_codec :: codec where
  "rfc_codec = \<lparr>
     u32_be = rfc_u32_be,
     be_u32 = rfc_be_u32,
     ssh_string = rfc_string,
     name_list = (\<lambda>ns. rfc_string (join_names ns)),
     ssh_mpint = (\<lambda>s. rfc_string (rfc_mpint_body s)),
     mpint_len = (\<lambda>s. 4 + length (rfc_mpint_body s)),
     read_byte = (\<lambda>b p. if p < length b then Ok (b ! p, p + 1) else Err Keys_IndexOutOfBounds),
     read_u32 = rfc_read_u32,
     read_string = (\<lambda>b p. rbind (rfc_read_u32 b p) (\<lambda>(n, q).
        if q + unat n \<le> length b then Ok (take (unat n) (drop q b), q + unat n)
        else Err Keys_IndexOutOfBounds)) \<rparr>"

lemma rfc_be_u32_inverse: "rfc_be_u32 (rfc_u32_be w @ r) = w"
proof (rule bit_word_eqI)
  fix n assume "n < LENGTH(32)"
  then consider "n < 8" | "8 \<le> n \<and> n < 16" | "16 \<le> n \<and> n < 24" | "24 \<le> n \<and> n < 32"
    by fastforce
  then show "bit (rfc_be_u32 (rfc_u32_be w @ r)) n = bit w n"
    by cases (auto simp: rfc_be_u32_def rfc_u32_be_def bit_simps)
qed

interpretation rfc: codec_laws rfc_codec
  by unfold_locales
    (simp_all add: rfc_codec_def rfc_u32_be_def rfc_string_def rfc_read_u32_def
      rfc_be_u32_inverse [unfolded rfc_u32_be_def, simplified])

end
