(* ===== verification/Lib_Types.thy ===== *)
theory Lib_Types
  imports Codec
begin

text \<open>
  The data of \<^verbatim>\<open>src/src/lib.rs\<close>: rekeying limits, disconnection reasons, signals, reasons for
  a refused channel, the parameters of a channel and the messages exchanged with a channel's
  owner; and the macro \<^verbatim>\<open>push_packet!\<close>, through which every packet is queued.
\<close>

section \<open>Limits\<close>

text \<open>A \<^verbatim>\<open>Duration\<close> and an \<^verbatim>\<open>Instant\<close> are numbers of milliseconds.\<close>

record limits =
  rekey_write_limit :: nat
  rekey_read_limit :: nat
  rekey_time_limit :: nat

definition limits_new :: "nat \<Rightarrow> nat \<Rightarrow> nat \<Rightarrow> limits res" where
  "limits_new write_limit read_limit time_limit =
     rassert (write_limit \<le> 2 ^ 30 \<and> read_limit \<le> 2 ^ 30)
       (Ok \<lparr> rekey_write_limit = write_limit, rekey_read_limit = read_limit,
             rekey_time_limit = time_limit \<rparr>)"

definition limits_default :: limits where
  "limits_default =
     \<lparr> rekey_write_limit = 2 ^ 30, rekey_read_limit = 2 ^ 30, rekey_time_limit = 3600 * 1000 \<rparr>"

section \<open>Disconnection reasons\<close>

datatype disconnect_reason =
    HostNotAllowedToConnect
  | ProtocolError
  | KeyExchangeFailed
  | Reserved
  | MACError
  | CompressionError
  | ServiceNotAvailable
  | ProtocolVersionNotSupported
  | HostKeyNotVerifiable
  | ConnectionLost
  | ByApplication
  | TooManyConnections
  | AuthCancelledByUser
  | NoMoreAuthMethodsAvailable
  | IllegalUserName

text \<open>\<^verbatim>\<open>reason as u32\<close>\<close>

fun disconnect_code :: "disconnect_reason \<Rightarrow> u32" where
  "disconnect_code HostNotAllowedToConnect = 1"
| "disconnect_code ProtocolError = 2"
| "disconnect_code KeyExchangeFailed = 3"
| "disconnect_code Reserved = 4"
| "disconnect_code MACError = 5"
| "disconnect_code CompressionError = 6"
| "disconnect_code ServiceNotAvailable = 7"
| "disconnect_code ProtocolVersionNotSupported = 8"
| "disconnect_code HostKeyNotVerifiable = 9"
| "disconnect_code ConnectionLost = 10"
| "disconnect_code ByApplication = 11"
| "disconnect_code TooManyConnections = 12"
| "disconnect_code AuthCancelledByUser = 13"
| "disconnect_code NoMoreAuthMethodsAvailable = 14"
| "disconnect_code IllegalUserName = 15"

section \<open>Signals\<close>

datatype sig =
    SIG_ABRT | SIG_ALRM | SIG_FPE | SIG_HUP | SIG_ILL | SIG_INT | SIG_KILL | SIG_PIPE
  | SIG_QUIT | SIG_SEGV | SIG_TERM | SIG_USR1 | SIG_Custom bytes

fun sig_name :: "sig \<Rightarrow> bytes" where
  "sig_name SIG_ABRT = ascii ''ABRT''"
| "sig_name SIG_ALRM = ascii ''ALRM''"
| "sig_name SIG_FPE = ascii ''FPE''"
| "sig_name SIG_HUP = ascii ''HUP''"
| "sig_name SIG_ILL = ascii ''ILL''"
| "sig_name SIG_INT = ascii ''INT''"
| "sig_name SIG_KILL = ascii ''KILL''"
| "sig_name SIG_PIPE = ascii ''PIPE''"
| "sig_name SIG_QUIT = ascii ''QUIT''"
| "sig_name SIG_SEGV = ascii ''SEGV''"
| "sig_name SIG_TERM = ascii ''TERM''"
| "sig_name SIG_USR1 = ascii ''USR1''"
| "sig_name (SIG_Custom c) = c"

definition sig_from_name :: "bytes \<Rightarrow> sig res" where
  "sig_from_name name =
     (if name = ascii ''ABRT'' then Ok SIG_ABRT
      else if name = ascii ''ALRM'' then Ok SIG_ALRM
      else if name = ascii ''FPE'' then Ok SIG_FPE
      else if name = ascii ''HUP'' then Ok SIG_HUP
      else if name = ascii ''ILL'' then Ok SIG_ILL
      else if name = ascii ''INT'' then Ok SIG_INT
      else if name = ascii ''KILL'' then Ok SIG_KILL
      else if name = ascii ''PIPE'' then Ok SIG_PIPE
      else if name = ascii ''QUIT'' then Ok SIG_QUIT
      else if name = ascii ''SEGV'' then Ok SIG_SEGV
      else if name = ascii ''TERM'' then Ok SIG_TERM
      else if name = ascii ''USR1'' then Ok SIG_USR1
      else rmap SIG_Custom (from_utf8 name))"

text \<open>A custom signal that is not spelled like a standard one.\<close>

definition sig_proper :: "sig \<Rightarrow> bool" where
  "sig_proper s \<longleftrightarrow> (case s of
      SIG_Custom c \<Rightarrow> utf8_valid c \<and>
        c \<notin> {ascii ''ABRT'', ascii ''ALRM'', ascii ''FPE'', ascii ''HUP'', ascii ''ILL'',
              ascii ''INT'', ascii ''KILL'', ascii ''PIPE'', ascii ''QUIT'', ascii ''SEGV'',
              ascii ''TERM'', ascii ''USR1''}
    | _ \<Rightarrow> True)"

lemma sig_from_name_name: "sig_proper s \<Longrightarrow> sig_from_name (sig_name s) = Ok s"
  by (cases s) (simp_all add: sig_from_name_def sig_proper_def)

lemma sig_from_name_proper: "sig_from_name b = Ok s \<Longrightarrow> sig_proper s \<and> sig_name s = b"
  by (auto simp: sig_from_name_def sig_proper_def from_utf8_def rmap_eq_Ok split: if_splits)

section \<open>Refused channels\<close>

datatype channel_open_failure =
  AdministrativelyProhibited | ConnectFailed | UnknownChannelType | ResourceShortage

fun channel_open_failure_code :: "channel_open_failure \<Rightarrow> u32" where
  "channel_open_failure_code AdministrativelyProhibited = 1"
| "channel_open_failure_code ConnectFailed = 2"
| "channel_open_failure_code UnknownChannelType = 3"
| "channel_open_failure_code ResourceShortage = 4"

definition channel_open_failure_from_u32 :: "u32 \<Rightarrow> channel_open_failure option" where
  "channel_open_failure_from_u32 x =
     (if x = 1 then Some AdministrativelyProhibited
      else if x = 2 then Some ConnectFailed
      else if x = 3 then Some UnknownChannelType
      else if x = 4 then Some ResourceShortage
      else None)"

lemma channel_open_failure_roundtrip:
  "channel_open_failure_from_u32 x = Some r \<longleftrightarrow> x = channel_open_failure_code r"
  by (cases r) (auto simp: channel_open_failure_from_u32_def)

section \<open>Channels\<close>

text \<open>
  A \<^verbatim>\<open>ChannelId\<close> is its number. The entry of a pending write is the whole data, the extended
  stream it goes to, and the offset it is to be sent from.
\<close>

type_synonym channel_id = u32

record channel =
  recipient_channel :: u32
  sender_channel :: channel_id
  recipient_window_size :: u32
  sender_window_size :: u32
  recipient_maximum_packet_size :: u32
  sender_maximum_packet_size :: u32
  confirmed :: bool
  ch_wants_reply :: bool
  pending_data :: "(bytes \<times> u32 option \<times> nat) list"

datatype channel_msg =
    CM_Data bytes
  | CM_ExtendedData bytes u32
  | CM_Eof
  | CM_XonXoff bool
  | CM_ExitStatus u32
  | CM_ExitSignal sig bool bytes bytes
  | CM_WindowAdjusted u32
  | CM_Success

section \<open>Queueing a packet\<close>

text \<open>
  \<^verbatim>\<open>push_packet!\<close> reserves four bytes, runs the code that appends the body, and overwrites the
  four bytes with the length of the body.
\<close>

definition push_packet :: "codec \<Rightarrow> bytes \<Rightarrow> bytes \<Rightarrow> bytes" where
  "push_packet C buffer body =
     (let i0 = length buffer;
          b = (buffer @ [0, 0, 0, 0]) @ body;
          i1 = length b
      in take i0 b @ u32_be C (as_u32 (i1 - i0 - 4)) @ drop (i0 + 4) b)"

text \<open>One queued packet, as the flushing loop finds it.\<close>

definition frame :: "codec \<Rightarrow> bytes \<Rightarrow> bytes" where
  "frame C body = u32_be C (as_u32 (length body)) @ body"

lemma push_packet_eq [simp]: "push_packet C buffer body = buffer @ frame C body"
  by (simp add: push_packet_def frame_def Let_def)

lemma length_frame [simp]: "codec_laws C \<Longrightarrow> length (frame C body) = 4 + length body"
  by (simp add: frame_def codec_laws.len_u32_be)

text \<open>A buffer of queued packets: the frames of a list of bodies, each shorter than 4 GiB.\<close>

definition frames :: "codec \<Rightarrow> bytes list \<Rightarrow> bytes" where
  "frames C ps = concat (map (frame C) ps)"

lemma frames_simps [simp]:
  "frames C [] = []"
  "frames C (p # ps) = frame C p @ frames C ps"
  "frames C (ps @ qs) = frames C ps @ frames C qs"
  by (simp_all add: frames_def)

end
