(* ===== verification/Cipher.thy ===== *)
theory Cipher
  imports Lib_Types
begin

text \<open>
  The binary packet layer: \<^verbatim>\<open>src/src/sshbuffer.rs\<close> and \<^verbatim>\<open>src/src/cipher/\<close>. A \<^verbatim>\<open>CipherPair\<close>
  seals outgoing and opens incoming packets through the traits \<^verbatim>\<open>SealingKey\<close> and
  \<^verbatim>\<open>OpeningKey\<close>, implemented in clear and by ChaCha20-Poly1305. The primitives of libsodium
  are a parameter (\<open>sodium\<close>), their documented behaviour the locale \<open>sodium_laws\<close>. What the two
  traits promise each other is the locale \<open>packet_cipher\<close>; the round trip of packets is
  proved once inside it and both implementations are shown to provide it.
\<close>

section \<open>Buffers\<close>

record sshbuffer =
  sb_buffer :: bytes
  sb_len :: nat
  sb_bytes :: nat
  sb_seqn :: u32

definition sshbuffer_new :: sshbuffer where
  "sshbuffer_new = \<lparr> sb_buffer = [], sb_len = 0, sb_bytes = 0, sb_seqn = 0 \<rparr>"

definition send_ssh_id :: "bytes \<Rightarrow> sshbuffer \<Rightarrow> sshbuffer" where
  "send_ssh_id sshid sb = sb\<lparr> sb_buffer := sb_buffer sb @ sshid @ [13, 10] \<rparr>"

section \<open>libsodium\<close>

text \<open>
  \<open>chacha20_xor data nonce key\<close> and \<open>chacha20_xor_ic data nonce counter key\<close> return the
  buffer after the call; \<open>poly1305_verify tag data key\<close> as in the crate.
\<close>

record sodium =
  nonce_bytes :: nat
  key_bytes :: nat
  chacha20_xor :: "bytes \<Rightarrow> bytes \<Rightarrow> bytes \<Rightarrow> bytes"
  chacha20_xor_ic :: "bytes \<Rightarrow> bytes \<Rightarrow> nat \<Rightarrow> bytes \<Rightarrow> bytes"
  poly1305_auth :: "bytes \<Rightarrow> bytes \<Rightarrow> bytes"
  poly1305_verify :: "bytes \<Rightarrow> bytes \<Rightarrow> bytes \<Rightarrow> bool"
  scalarmult :: "bytes \<Rightarrow> bytes \<Rightarrow> bytes"
  scalarmult_base :: "bytes \<Rightarrow> bytes"

locale sodium_laws =
  fixes S :: sodium
  assumes nonce_bytes [simp]: "nonce_bytes S = 8"
    and key_bytes [simp]: "key_bytes S = 32"
    and xor_length [simp]: "length (chacha20_xor S d n k) = length d"
    and xor_ic_length [simp]: "length (chacha20_xor_ic S d n i k) = length d"
    and xor_xor [simp]: "chacha20_xor S (chacha20_xor S d n k) n k = d"
    and xor_ic_xor_ic [simp]: "chacha20_xor_ic S (chacha20_xor_ic S d n i k) n i k = d"
    and auth_length [simp]: "length (poly1305_auth S d k) = 16"
    and verify_auth [simp]: "poly1305_verify S (poly1305_auth S d k) d k"
    and scalarmult_length [simp]: "length (scalarmult S a p) = 32"
    and scalarmult_base_length [simp]: "length (scalarmult_base S a) = 32"
    and scalarmult_commute:
      "scalarmult S a (scalarmult_base S b) = scalarmult S b (scalarmult_base S a)"

section \<open>Keys\<close>

text \<open>\<^verbatim>\<open>cipher::PACKET_LENGTH_LEN\<close>, \<^verbatim>\<open>MINIMUM_PACKET_LEN\<close>, \<^verbatim>\<open>PADDING_LENGTH_LEN\<close>, and the tag length.\<close>

definition PACKET_LENGTH_LEN :: nat where "PACKET_LENGTH_LEN = 4"
definition MINIMUM_PACKET_LEN :: nat where "MINIMUM_PACKET_LEN = 16"
definition PADDING_LENGTH_LEN :: nat where "PADDING_LENGTH_LEN = 1"
definition TAG_LEN :: nat where "TAG_LEN = 16"

lemmas packet_constants [simp] =
  PACKET_LENGTH_LEN_def MINIMUM_PACKET_LEN_def PADDING_LENGTH_LEN_def TAG_LEN_def

record opening_key =
  ok_k1 :: bytes
  ok_k2 :: bytes

record sealing_key =
  sk_k1 :: bytes
  sk_k2 :: bytes

datatype opening_cipher = O_Clear | O_Chacha opening_key
datatype sealing_cipher = S_Clear | S_Chacha sealing_key

record cipher_pair =
  local_to_remote :: sealing_cipher
  remote_to_local :: opening_cipher

definition CLEAR_PAIR :: cipher_pair where
  "CLEAR_PAIR = \<lparr> local_to_remote = S_Clear, remote_to_local = O_Clear \<rparr>"

text \<open>
  The key material is split in two: the second half is \<open>k1\<close>, which encrypts the packet length,
  the first half is \<open>k2\<close>. \<^verbatim>\<open>clone_from_slice\<close> panics on a slice of another length.
\<close>

definition make_sealing_cipher :: "sodium \<Rightarrow> bytes \<Rightarrow> sealing_cipher res" where
  "make_sealing_cipher S k =
     rbind (slice_from k (key_bytes S)) (\<lambda>a.
     rassert (length a = key_bytes S)
       (rbind (slice k 0 (key_bytes S)) (\<lambda>b. Ok (S_Chacha \<lparr> sk_k1 = a, sk_k2 = b \<rparr>))))"

definition make_opening_cipher :: "sodium \<Rightarrow> bytes \<Rightarrow> opening_cipher res" where
  "make_opening_cipher S k =
     rbind (slice_from k (key_bytes S)) (\<lambda>a.
     rassert (length a = key_bytes S)
       (rbind (slice k 0 (key_bytes S)) (\<lambda>b. Ok (O_Chacha \<lparr> ok_k1 = a, ok_k2 = b \<rparr>))))"

definition make_counter :: "codec \<Rightarrow> sodium \<Rightarrow> u32 \<Rightarrow> bytes" where
  "make_counter C S sequence_number =
     (let nonce = replicate (nonce_bytes S) 0;
          i0 = nonce_bytes S - 4
      in take i0 nonce @ u32_be C sequence_number @ drop (i0 + 4) nonce)"

section \<open>Opening\<close>

fun decrypt_packet_length ::
  "codec \<Rightarrow> sodium \<Rightarrow> opening_cipher \<Rightarrow> u32 \<Rightarrow> bytes \<Rightarrow> bytes" where
  "decrypt_packet_length C S O_Clear seqn encrypted = encrypted"
| "decrypt_packet_length C S (O_Chacha key) seqn encrypted =
     chacha20_xor S encrypted (make_counter C S seqn) (ok_k1 key)"

fun opening_tag_len :: "opening_cipher \<Rightarrow> nat" where
  "opening_tag_len O_Clear = 0"
| "opening_tag_len (O_Chacha key) = TAG_LEN"

text \<open>\<open>open\<close> works in place: the buffer after the call, and the plaintext slice or the error.\<close>

definition chacha_open ::
  "codec \<Rightarrow> sodium \<Rightarrow> opening_key \<Rightarrow> u32 \<Rightarrow> bytes \<Rightarrow> bytes \<Rightarrow> bytes \<times> bytes res" where
  "chacha_open C S key seqn ciphertext tag =
     (let nonce = make_counter C S seqn;
          poly_key = chacha20_xor S (replicate 32 0) nonce (ok_k2 key)
      in if \<not> poly1305_verify S tag ciphertext poly_key
         then (ciphertext, Err (Thrussh E_PacketAuth))
         else if length ciphertext < 4 then (ciphertext, Panic)
         else let out = take 4 ciphertext @
                        chacha20_xor_ic S (drop 4 ciphertext) nonce 1 (ok_k2 key)
              in (out, slice_from out 4))"

fun open_packet ::
  "codec \<Rightarrow> sodium \<Rightarrow> opening_cipher \<Rightarrow> u32 \<Rightarrow> bytes \<Rightarrow> bytes \<Rightarrow> bytes \<times> bytes res" where
  "open_packet C S O_Clear seqn ciphertext tag = (ciphertext, slice_from ciphertext 4)"
| "open_packet C S (O_Chacha key) seqn ciphertext tag = chacha_open C S key seqn ciphertext tag"

section \<open>Sealing\<close>

definition clear_padding_length :: "bytes \<Rightarrow> nat" where
  "clear_padding_length payload =
     (let block_size = 8;
          padding_len = block_size - ((5 + length payload) mod block_size)
      in if padding_len < 4 then padding_len + block_size else padding_len)"

definition chacha_padding_length :: "bytes \<Rightarrow> nat" where
  "chacha_padding_length payload =
     (let block_size = 8;
          extra_len = PACKET_LENGTH_LEN + PADDING_LENGTH_LEN;
          padding_len =
            (if length payload + extra_len \<le> MINIMUM_PACKET_LEN
             then MINIMUM_PACKET_LEN - length payload - PADDING_LENGTH_LEN
             else block_size - ((PADDING_LENGTH_LEN + length payload) mod block_size))
      in if padding_len < PACKET_LENGTH_LEN then padding_len + block_size else padding_len)"

fun padding_length :: "sealing_cipher \<Rightarrow> bytes \<Rightarrow> nat" where
  "padding_length S_Clear payload = clear_padding_length payload"
| "padding_length (S_Chacha key) payload = chacha_padding_length payload"

text \<open>Both implementations overwrite every padding byte by zero.\<close>

fun fill_padding :: "sealing_cipher \<Rightarrow> bytes \<Rightarrow> bytes" where
  "fill_padding S_Clear padding_out = map (\<lambda>_. 0) padding_out"
| "fill_padding (S_Chacha key) padding_out = map (\<lambda>_. 0) padding_out"

fun sealing_tag_len :: "sealing_cipher \<Rightarrow> nat" where
  "sealing_tag_len S_Clear = 0"
| "sealing_tag_len (S_Chacha key) = TAG_LEN"

definition chacha_seal ::
  "codec \<Rightarrow> sodium \<Rightarrow> sealing_key \<Rightarrow> u32 \<Rightarrow> bytes \<Rightarrow> bytes \<Rightarrow> (bytes \<times> bytes) res" where
  "chacha_seal C S key seqn plaintext tag_out =
     (let nonce = make_counter C S seqn
      in rassert (4 \<le> length plaintext)
           (let out = chacha20_xor S (take 4 plaintext) nonce (sk_k1 key) @
                      chacha20_xor_ic S (drop 4 plaintext) nonce 1 (sk_k2 key);
                nonce' = nonce[0 := 0];
                poly_key = chacha20_xor S (replicate 32 0) nonce' (sk_k2 key);
                tag = poly1305_auth S out poly_key
            in rassert (length tag = length tag_out) (Ok (out, tag))))"

fun seal_packet ::
  "codec \<Rightarrow> sodium \<Rightarrow> sealing_cipher \<Rightarrow> u32 \<Rightarrow> bytes \<Rightarrow> bytes \<Rightarrow> (bytes \<times> bytes) res" where
  "seal_packet C S S_Clear seqn plaintext tag_out = Ok (plaintext, tag_out)"
| "seal_packet C S (S_Chacha key) seqn plaintext tag_out =
     chacha_seal C S key seqn plaintext tag_out"

section \<open>Writing and reading a packet\<close>

text \<open>\<^verbatim>\<open>CipherPair::write\<close>\<close>

definition cipher_write ::
  "codec \<Rightarrow> sodium \<Rightarrow> cipher_pair \<Rightarrow> bytes \<Rightarrow> sshbuffer \<Rightarrow> sshbuffer res" where
  "cipher_write C S pair payload sb =
     (let key = local_to_remote pair;
          padding = padding_length key payload;
          packet_length = PADDING_LENGTH_LEN + length payload + padding;
          offset = length (sb_buffer sb)
      in rassert (int packet_length \<le> 2 ^ 32 - 1)
        (let b1 = sb_buffer sb @ u32_be C (as_u32 packet_length)
         in rassert (padding \<le> 2 ^ 8 - 1)
           (let b2 = b1 @ [of_nat padding] @ payload;
                b3 = b2 @ fill_padding key (replicate padding 0);
                b4 = b3 @ replicate (sealing_tag_len key) 0;
                plaintext = take (PACKET_LENGTH_LEN + packet_length) (drop offset b4);
                tag = drop (PACKET_LENGTH_LEN + packet_length) (drop offset b4)
            in rbind (seal_packet C S key (sb_seqn sb) plaintext tag) (\<lambda>(sealed, tag').
               Ok (sb\<lparr> sb_buffer := take offset b4 @ sealed @ tag',
                       sb_bytes := sb_bytes sb + length payload,
                       sb_seqn := sb_seqn sb + 1 \<rparr>)))))"

text \<open>
  \<^verbatim>\<open>AsyncReadExt::read_exact\<close> on the bytes the peer will have sent before it closes: the
  bytes stored, whether all \<open>n\<close> arrived, and what is left of the stream.
\<close>

definition read_exact :: "bytes \<Rightarrow> nat \<Rightarrow> bytes \<times> bool \<times> bytes" where
  "read_exact stream n = (take n stream, n \<le> length stream, drop n stream)"

text \<open>
  \<^verbatim>\<open>cipher::read\<close>. The buffer is an in-out parameter, so it is part of the result on every
  path, the error paths included: a failed read leaves in it what had been stored.
\<close>

definition cipher_read ::
  "codec \<Rightarrow> sodium \<Rightarrow> cipher_pair \<Rightarrow> bytes \<Rightarrow> sshbuffer \<Rightarrow> nat res \<times> bytes \<times> sshbuffer" where
  "cipher_read C S pair stream sb =
     (case read_exact stream 4 of (enc_len, ok, stream1) \<Rightarrow>
      if \<not> ok then (Err Io_Error, stream1, sb)
      else
        let key = remote_to_local pair;
            seqn = sb_seqn sb;
            len4 = decrypt_packet_length C S key seqn enc_len;
            len = unat (be_u32 C len4) + opening_tag_len key
        in case read_exact stream1 len of (body, ok2, stream2) \<Rightarrow>
           let buf = enc_len @ resize body len in
           if \<not> ok2 then (Err Io_Error, stream2, sb\<lparr> sb_buffer := buf \<rparr>)
           else
             let ciphertext_len = length buf - opening_tag_len key;
                 ciphertext = take ciphertext_len buf;
                 tag = drop ciphertext_len buf
             in case open_packet C S key seqn ciphertext tag of (opened, r) \<Rightarrow>
                let sb1 = sb\<lparr> sb_buffer := opened @ tag \<rparr> in
                case r of
                  Ok plaintext \<Rightarrow>
                    (case plaintext of
                       [] \<Rightarrow> (Panic, stream2, sb1)
                     | p # _ \<Rightarrow>
                         let padding = unat p in
                         if length plaintext < padding
                         then (Err (Thrussh E_IndexOutOfBounds), stream2, sb1)
                         else let plaintext_end = length plaintext - padding in
                           (Ok (plaintext_end + 4), stream2,
                            sb1\<lparr> sb_seqn := seqn + 1, sb_len := 0,
                                 sb_buffer := resize (sb_buffer sb1) (plaintext_end + 4) \<rparr>))
                | Err e \<Rightarrow> (Err e, stream2, sb1)
                | Panic \<Rightarrow> (Panic, stream2, sb1)
                | Diverge \<Rightarrow> (Diverge, stream2, sb1))"

end
