(* ===== verification/Packet_Cipher.thy ===== *)
theory Packet_Cipher
  imports Cipher
begin

text \<open>
  The contract between \<^verbatim>\<open>SealingKey\<close> and \<^verbatim>\<open>OpeningKey\<close>, the round trip of the packet layer
  proved under it, and the proof that the cleartext cipher and ChaCha20-Poly1305 provide it.
\<close>

section \<open>Padding\<close>

lemma clear_padding_bounds:
  "4 \<le> clear_padding_length p" "clear_padding_length p \<le> 11"
  by (auto simp: clear_padding_length_def Let_def)

lemma clear_padding_aligned: "(5 + length p + clear_padding_length p) mod 8 = 0"
proof -
  have "(n + (8 - n mod 8)) mod 8 = 0" and "(n + (8 - n mod 8 + 8)) mod 8 = 0" for n :: nat
    by presburger+
  from this [of "5 + length p"] show ?thesis
    by (simp add: clear_padding_length_def Let_def)
qed

lemma chacha_padding_bounds:
  "4 \<le> chacha_padding_length p" "chacha_padding_length p \<le> 15"
  by (auto simp: chacha_padding_length_def Let_def)

lemma chacha_padding_aligned:
  "(1 + length p + chacha_padding_length p) mod 8 = 0"
  "16 \<le> 1 + length p + chacha_padding_length p"
proof -
  have al: "(n + (8 - n mod 8)) mod 8 = 0" "(n + (8 - n mod 8 + 8)) mod 8 = 0" for n :: nat
    by presburger+
  have "chacha_padding_length p = 15 - length p \<and> length p \<le> 11 \<or>
      chacha_padding_length p = 8 - (1 + length p) mod 8 \<or>
      chacha_padding_length p = 8 - (1 + length p) mod 8 + 8"
    by (auto simp: chacha_padding_length_def Let_def)
  then show "(1 + length p + chacha_padding_length p) mod 8 = 0"
    using al [of "1 + length p"] by fastforce
  show "16 \<le> 1 + length p + chacha_padding_length p"
    using chacha_padding_bounds [of p] by (auto simp: chacha_padding_length_def Let_def)
qed

section \<open>Packet streams\<close>

text \<open>
  A sequence of packets written one after the other, and as many packets read: the payloads
  found at offset five of the buffer after each read.
\<close>

fun write_packets ::
  "codec \<Rightarrow> sodium \<Rightarrow> cipher_pair \<Rightarrow> bytes list \<Rightarrow> sshbuffer \<Rightarrow> sshbuffer res" where
  "write_packets C S pair [] sb = Ok sb"
| "write_packets C S pair (p # ps) sb =
     rbind (cipher_write C S pair p sb) (write_packets C S pair ps)"

fun read_packets ::
  "codec \<Rightarrow> sodium \<Rightarrow> cipher_pair \<Rightarrow> nat \<Rightarrow> bytes \<Rightarrow> sshbuffer \<Rightarrow>
   (bytes list \<times> bytes \<times> sshbuffer) res" where
  "read_packets C S pair 0 stream rb = Ok ([], stream, rb)"
| "read_packets C S pair (Suc n) stream rb =
     (case cipher_read C S pair stream rb of (r, stream', rb') \<Rightarrow>
        rbind r (\<lambda>_. rmap (\<lambda>(ps, st, b). (drop 5 (sb_buffer rb') # ps, st, b))
                        (read_packets C S pair n stream' rb')))"

lemma write_packets_append:
  "write_packets C S pair (ps @ qs) =
     (\<lambda>sb. rbind (write_packets C S pair ps sb) (write_packets C S pair qs))"
  by (induction ps) (simp_all add: rbind_assoc)

section \<open>The contract\<close>

locale packet_cipher = codec_laws C for C +
  fixes S :: sodium and sc :: sealing_cipher and oc :: opening_cipher
  assumes tag_len_eq [simp]: "opening_tag_len oc = sealing_tag_len sc"
    and padding_max: "padding_length sc p \<le> 255"
    and fill_length [simp]: "length (fill_padding sc ps) = length ps"
    and seal_Ok: "4 \<le> length pt \<Longrightarrow> length t = sealing_tag_len sc \<Longrightarrow>
          \<exists>ct tag. seal_packet C S sc n pt t = Ok (ct, tag) \<and>
            length ct = length pt \<and> length tag = sealing_tag_len sc"
    and seal_decrypt_length: "4 \<le> length pt \<Longrightarrow> length t = sealing_tag_len sc \<Longrightarrow>
          seal_packet C S sc n pt t = Ok (ct, tag) \<Longrightarrow>
          decrypt_packet_length C S oc n (take 4 ct) = take 4 pt"
    and seal_open: "4 \<le> length pt \<Longrightarrow> length t = sealing_tag_len sc \<Longrightarrow>
          seal_packet C S sc n pt t = Ok (ct, tag) \<Longrightarrow>
          open_packet C S oc n ct tag = (take 4 ct @ drop 4 pt, Ok (drop 4 pt))"
begin

text \<open>The plaintext of a packet: length, padding length, payload, padding.\<close>

lemma write_packet:
  assumes len: "length payload + 256 < 2 ^ 32"
    and pair: "local_to_remote pair = sc"
  obtains pt ct tag where
    "pt = u32_be C (as_u32 (1 + length payload + padding_length sc payload)) @
        of_nat (padding_length sc payload) #
        payload @ fill_padding sc (replicate (padding_length sc payload) 0)"
    and "seal_packet C S sc n pt (replicate (sealing_tag_len sc) 0) = Ok (ct, tag)"
    and "length ct = length pt" and "length tag = sealing_tag_len sc"
    and "\<And>sb. sb_seqn sb = n \<Longrightarrow> cipher_write C S pair payload sb =
      Ok (sb\<lparr> sb_buffer := sb_buffer sb @ ct @ tag,
              sb_bytes := sb_bytes sb + length payload, sb_seqn := n + 1 \<rparr>)"
proof -
  let ?pad = "padding_length sc payload"
  let ?pt = "u32_be C (as_u32 (1 + length payload + ?pad)) @
        of_nat ?pad # payload @ fill_padding sc (replicate ?pad 0)"
  have "4 \<le> length ?pt" by simp
  then obtain ct tag where seal:
      "seal_packet C S sc n ?pt (replicate (sealing_tag_len sc) 0) = Ok (ct, tag)"
      "length ct = length ?pt" "length tag = sealing_tag_len sc"
    using seal_Ok [of ?pt "replicate (sealing_tag_len sc) 0" n] by auto
  have "cipher_write C S pair payload sb =
      Ok (sb\<lparr> sb_buffer := sb_buffer sb @ ct @ tag,
              sb_bytes := sb_bytes sb + length payload, sb_seqn := n + 1 \<rparr>)"
    if "sb_seqn sb = n" for sb
    using that len padding_max [of payload] seal(1) pair
    by (simp add: cipher_write_def Let_def)
  with seal that show thesis by blast
qed

text \<open>
  Whatever the writer seals, the reader opens: the payload starts at offset five of the
  buffer, nothing of the rest of the stream is consumed, and both counters advance.
\<close>

lemma write_read:
  assumes len: "length payload + 256 < 2 ^ 32"
    and pair: "local_to_remote pair = sc" and pair': "remote_to_local pair' = oc"
  obtains pkt where
    "\<And>sb. sb_seqn sb = n \<Longrightarrow> cipher_write C S pair payload sb =
      Ok (sb\<lparr> sb_buffer := sb_buffer sb @ pkt,
              sb_bytes := sb_bytes sb + length payload, sb_seqn := n + 1 \<rparr>)"
    and "\<And>rb rest. sb_seqn rb = n \<Longrightarrow> \<exists>hd5. length hd5 = 5 \<and>
      cipher_read C S pair' (pkt @ rest) rb =
       (Ok (length payload + 5), rest,
        rb\<lparr> sb_buffer := hd5 @ payload, sb_seqn := n + 1, sb_len := 0 \<rparr>)"
proof -
  define pad where "pad = padding_length sc payload"
  define L where "L = 1 + length payload + pad"
  obtain pt ct tag where
    pt: "pt = u32_be C (as_u32 L) @ of_nat pad #
        payload @ fill_padding sc (replicate pad 0)"
    and seal: "seal_packet C S sc n pt (replicate (sealing_tag_len sc) 0) = Ok (ct, tag)"
    and lct: "length ct = length pt" and ltag: "length tag = sealing_tag_len sc"
    and wr: "\<And>sb. sb_seqn sb = n \<Longrightarrow> cipher_write C S pair payload sb =
      Ok (sb\<lparr> sb_buffer := sb_buffer sb @ ct @ tag,
              sb_bytes := sb_bytes sb + length payload, sb_seqn := n + 1 \<rparr>)"
    using write_packet [OF len pair, of n] unfolding L_def pad_def by blast
  have lct4: "length ct = 4 + L" by (simp add: lct pt L_def)
  have four: "4 \<le> length pt" by (simp add: pt)
  have padmax: "pad \<le> 255" unfolding pad_def by (rule padding_max)
  have Lsmall: "unat (as_u32 L) = L"
    using len padmax by (intro as_usize_as_u32) (simp add: L_def)
  have padword: "unat (of_nat pad :: u8) = pad"
    using padmax by (simp add: unat_of_nat)
  have declen: "decrypt_packet_length C S oc n (take 4 ct) = u32_be C (as_u32 L)"
    using seal_decrypt_length [OF four _ seal] by (simp add: pt)
  have opn: "open_packet C S oc n ct tag =
      (take 4 ct @ drop 4 pt, Ok (of_nat pad # payload @ fill_padding sc (replicate pad 0)))"
    using seal_open [OF four _ seal] by (simp add: pt)
  have d4: "drop 4 pt = of_nat pad # payload @ fill_padding sc (replicate pad 0)"
    by (simp add: pt)
  have be: "be_u32 C (u32_be C w) = w" for w
    using be_u32_u32_be [of w "[]"] by simp
  have rd: "cipher_read C S pair' ((ct @ tag) @ rest) rb =
       (Ok (length payload + 5), rest,
        rb\<lparr> sb_buffer := (take 4 ct @ [of_nat pad]) @ payload, sb_seqn := n + 1, sb_len := 0 \<rparr>)"
    if seq: "sb_seqn rb = n" for rb rest
  proof -
    have len4: "take 4 ((ct @ tag) @ rest) = take 4 ct" by (simp add: lct4)
    have body: "take (L + sealing_tag_len sc) (drop 4 ((ct @ tag) @ rest)) = drop 4 ct @ tag"
      and left: "drop (L + sealing_tag_len sc) (drop 4 ((ct @ tag) @ rest)) = rest"
      using ltag by (simp_all add: lct4)
    have enough: "4 \<le> length ((ct @ tag) @ rest)"
      "L + sealing_tag_len sc \<le> length (drop 4 ((ct @ tag) @ rest))"
      using ltag by (simp_all add: lct4)
    have buf: "take 4 ct @ resize (drop 4 ct @ tag) (L + sealing_tag_len sc) = ct @ tag"
      using ltag by (simp add: resize_def lct4)
    have ctl: "length (ct @ tag) - sealing_tag_len sc = length ct"
      using ltag by simp
    show ?thesis
      unfolding cipher_read_def read_exact_def Let_def prod.case pair' seq len4 declen be Lsmall
        tag_len_eq body left buf ctl
      using enough ltag lct4 seq
      by (simp add: opn padword d4 resize_def)
  qed
  show thesis
  proof (rule that)
    show "\<And>sb. sb_seqn sb = n \<Longrightarrow> cipher_write C S pair payload sb =
      Ok (sb\<lparr> sb_buffer := sb_buffer sb @ ct @ tag,
              sb_bytes := sb_bytes sb + length payload, sb_seqn := n + 1 \<rparr>)"
      by (rule wr)
    show "\<exists>hd5. length hd5 = 5 \<and> cipher_read C S pair' ((ct @ tag) @ rest) rb =
       (Ok (length payload + 5), rest,
        rb\<lparr> sb_buffer := hd5 @ payload, sb_seqn := n + 1, sb_len := 0 \<rparr>)"
      if "sb_seqn rb = n" for rb rest
      using rd [OF that, of rest]
      by (intro exI [of _ "take 4 ct @ [of_nat pad]"]) (simp add: lct4)
  qed
qed

text \<open>The same for any sequence of payloads: the stream is read in the order it was written.\<close>

lemma write_read_all:
  assumes "\<forall>p \<in> set ps. length p + 256 < 2 ^ 32"
    and pair: "local_to_remote pair = sc" and pair': "remote_to_local pair' = oc"
    and "sb_seqn wb = sb_seqn rb"
  shows "\<exists>stream wb' rb'.
      write_packets C S pair ps wb = Ok wb' \<and> sb_buffer wb' = sb_buffer wb @ stream \<and>
      read_packets C S pair' (length ps) (stream @ rest) rb = Ok (ps, rest, rb') \<and>
      sb_seqn wb' = sb_seqn rb' \<and> sb_seqn rb' = sb_seqn rb + of_nat (length ps)"
  using assms(1,4)
proof (induction ps arbitrary: wb rb)
  case Nil
  then show ?case by auto
next
  case (Cons p ps)
  let ?n = "sb_seqn rb"
  obtain pkt where
    wr: "\<And>sb. sb_seqn sb = ?n \<Longrightarrow> cipher_write C S pair p sb =
      Ok (sb\<lparr> sb_buffer := sb_buffer sb @ pkt,
              sb_bytes := sb_bytes sb + length p, sb_seqn := ?n + 1 \<rparr>)"
    and rd: "\<And>rb' rest. sb_seqn rb' = ?n \<Longrightarrow> \<exists>hd5. length hd5 = 5 \<and>
      cipher_read C S pair' (pkt @ rest) rb' =
       (Ok (length p + 5), rest,
        rb'\<lparr> sb_buffer := hd5 @ p, sb_seqn := ?n + 1, sb_len := 0 \<rparr>)"
    using write_read [of p, OF _ pair pair', of ?n] Cons.prems(1) by auto
  let ?wb = "wb\<lparr> sb_buffer := sb_buffer wb @ pkt,
                sb_bytes := sb_bytes wb + length p, sb_seqn := ?n + 1 \<rparr>"
  have w1: "cipher_write C S pair p wb = Ok ?wb"
    using wr [of wb] Cons.prems(2) by simp
  obtain stream wb' rb' where IH:
    "write_packets C S pair ps ?wb = Ok wb'" "sb_buffer wb' = sb_buffer ?wb @ stream"
    and IH2: "\<And>hd5. \<exists>rb'. read_packets C S pair' (length ps) (stream @ rest)
        (rb\<lparr> sb_buffer := hd5, sb_seqn := ?n + 1, sb_len := 0 \<rparr>) = Ok (ps, rest, rb') \<and>
        sb_seqn wb' = sb_seqn rb' \<and> sb_seqn rb' = ?n + 1 + of_nat (length ps)"
  proof -
    have ps: "\<forall>p \<in> set ps. length p + 256 < 2 ^ 32" using Cons.prems(1) by simp
    obtain stream0 wb0 where w0: "write_packets C S pair ps ?wb = Ok wb0"
        "sb_buffer wb0 = sb_buffer ?wb @ stream0"
      using Cons.IH [OF ps, of ?wb "rb\<lparr> sb_seqn := ?n + 1 \<rparr>"] by auto
    have "\<exists>rb'. read_packets C S pair' (length ps) (stream0 @ rest)
        (rb\<lparr> sb_buffer := h, sb_seqn := ?n + 1, sb_len := 0 \<rparr>) = Ok (ps, rest, rb') \<and>
        sb_seqn wb0 = sb_seqn rb' \<and> sb_seqn rb' = ?n + 1 + of_nat (length ps)" for h
      using Cons.IH [OF ps, of ?wb "rb\<lparr> sb_buffer := h, sb_seqn := ?n + 1, sb_len := 0 \<rparr>"] w0
      by auto
    with w0 that show thesis by blast
  qed
  obtain hd5 where hd5: "length hd5 = 5" and
    r1: "cipher_read C S pair' (pkt @ (stream @ rest)) rb =
       (Ok (length p + 5), stream @ rest,
        rb\<lparr> sb_buffer := hd5 @ p, sb_seqn := ?n + 1, sb_len := 0 \<rparr>)"
    using rd [of rb "stream @ rest"] by auto
  from IH2 [of "hd5 @ p"] obtain rb'' where
    r2: "read_packets C S pair' (length ps) (stream @ rest)
        (rb\<lparr> sb_buffer := hd5 @ p, sb_seqn := ?n + 1, sb_len := 0 \<rparr>) = Ok (ps, rest, rb'')"
    and s2: "sb_seqn wb' = sb_seqn rb''" "sb_seqn rb'' = ?n + 1 + of_nat (length ps)" by blast
  show ?case
    by (rule exI [of _ "pkt @ stream"], rule exI [of _ wb'], rule exI [of _ rb''])
      (use w1 IH r1 r2 s2 hd5 in \<open>simp add: add.assoc\<close>)
qed

end

section \<open>The two implementations\<close>

locale clear_cipher = codec_laws C for C +
  fixes S :: sodium

sublocale clear_cipher \<subseteq> clear: packet_cipher C S S_Clear O_Clear
proof unfold_locales
  fix p show "padding_length S_Clear p \<le> 255"
    using clear_padding_bounds(2) [of p] by simp
qed (auto simp: slice_from_def)

lemma nonce_first_byte:
  assumes "sodium_laws S" and "codec_laws C"
  shows "(make_counter C S n)[0 := 0] = make_counter C S n"
  using assms
  by (simp add: make_counter_def Let_def sodium_laws.nonce_bytes eval_nat_numeral)

locale chacha_cipher = codec_laws C + sodium_laws S for C S +
  fixes k1 k2 :: bytes

sublocale chacha_cipher \<subseteq>
  chacha: packet_cipher C S "S_Chacha \<lparr> sk_k1 = k1, sk_k2 = k2 \<rparr>" "O_Chacha \<lparr> ok_k1 = k1, ok_k2 = k2 \<rparr>"
proof unfold_locales
  let ?sc = "S_Chacha \<lparr> sk_k1 = k1, sk_k2 = k2 \<rparr>"
  fix p show "padding_length ?sc p \<le> 255"
    using chacha_padding_bounds(2) [of p] by simp
next
  fix pt t :: bytes and n ct tag
  let ?sc = "S_Chacha \<lparr> sk_k1 = k1, sk_k2 = k2 \<rparr>"
    and ?oc = "O_Chacha \<lparr> ok_k1 = k1, ok_k2 = k2 \<rparr>"
  assume pt: "4 \<le> length pt" and t: "length t = sealing_tag_len ?sc"
  note nonce = nonce_first_byte [OF sodium_laws_axioms codec_laws_axioms]
  show "\<exists>ct tag. seal_packet C S ?sc n pt t = Ok (ct, tag) \<and>
            length ct = length pt \<and> length tag = sealing_tag_len ?sc"
    using pt t by (simp add: chacha_seal_def Let_def)
  assume seal: "seal_packet C S ?sc n pt t = Ok (ct, tag)"
  then have ct: "ct = chacha20_xor S (take 4 pt) (make_counter C S n) k1 @
      chacha20_xor_ic S (drop 4 pt) (make_counter C S n) 1 k2"
    and tag: "tag = poly1305_auth S ct
      (chacha20_xor S (replicate 32 0) (make_counter C S n) k2)"
    by (auto simp: chacha_seal_def Let_def rassert_eq_Ok nonce)
  show "decrypt_packet_length C S ?oc n (take 4 ct) = take 4 pt"
    using pt by (simp add: ct)
  have "length ct = length pt" using pt by (simp add: ct)
  with pt show "open_packet C S ?oc n ct tag = (take 4 ct @ drop 4 pt, Ok (drop 4 pt))"
    by (simp add: chacha_open_def Let_def tag slice_from_def)
      (simp add: ct)
qed auto

text \<open>The contract as a fact about the implementations, for use outside the locales.\<close>

context clear_cipher
begin

lemma clear_provides: "packet_cipher C S S_Clear O_Clear"
  by unfold_locales

end

context chacha_cipher
begin

lemma chacha_provides:
  "packet_cipher C S (S_Chacha \<lparr> sk_k1 = k1, sk_k2 = k2 \<rparr>) (O_Chacha \<lparr> ok_k1 = k1, ok_k2 = k2 \<rparr>)"
  by unfold_locales

end

lemma chacha_packet_cipher:
  assumes "codec_laws C" and "sodium_laws S"
  shows "packet_cipher C S (S_Chacha \<lparr> sk_k1 = k1, sk_k2 = k2 \<rparr>)
    (O_Chacha \<lparr> ok_k1 = k1, ok_k2 = k2 \<rparr>)"
  using assms by (intro chacha_cipher.chacha_provides) (simp add: chacha_cipher_def)

lemma clear_packet_cipher: "codec_laws C \<Longrightarrow> packet_cipher C S S_Clear O_Clear"
  by (intro clear_cipher.clear_provides) (simp add: clear_cipher_def)

end
