(* ===== verification/Packet_Props.thy ===== *)
theory Packet_Props
  imports Packet_Cipher
begin

unbundle bit_operations_syntax

text \<open>
  The properties of the packet layer, and an instance of the libsodium parameter under which
  they are exercised: a keystream derived from the key and the nonce, and a checksum as the
  tag. It stands for no real cipher; it shows that the assumed laws can hold together.
\<close>

section \<open>An instance of the primitives\<close>

definition xor_all :: "bytes \<Rightarrow> u8" where
  "xor_all b = fold (XOR) b 0"

definition demo_sodium :: sodium where
  "demo_sodium = \<lparr>
     nonce_bytes = 8,
     key_bytes = 32,
     chacha20_xor = (\<lambda>d n k. map (\<lambda>x. x XOR xor_all (n @ k)) d),
     chacha20_xor_ic = (\<lambda>d n i k. map (\<lambda>x. x XOR xor_all (n @ k @ [of_nat i])) d),
     poly1305_auth = (\<lambda>d k. replicate 16 (xor_all (k @ d))),
     poly1305_verify = (\<lambda>tag d k. tag = replicate 16 (xor_all (k @ d))),
     scalarmult = (\<lambda>a p. map2 (XOR) (resize a 32) (resize p 32)),
     scalarmult_base = (\<lambda>a. resize a 32) \<rparr>"

lemma resize_resize [simp]: "resize (resize v n) n = resize v n"
  by (simp add: resize_def)

lemma zip_xor_commute: "length a = length b \<Longrightarrow> map2 (XOR) a b = map2 (XOR) b (a :: bytes)"
  by (induction a b rule: list_induct2) (simp_all add: xor.commute)

interpretation demo: sodium_laws demo_sodium
  by unfold_locales
    (simp_all add: demo_sodium_def o_def xor.assoc zip_xor_commute)

interpretation rfc_clear: clear_cipher rfc_codec S for S
  by unfold_locales

interpretation demo_chacha: chacha_cipher rfc_codec demo_sodium k1 k2 for k1 k2
  by unfold_locales

section \<open>Round trip of packet streams\<close>

lemma make_cipher_keys:
  assumes "make_sealing_cipher S k = Ok sc" and "make_opening_cipher S k = Ok oc"
  shows "sc = S_Chacha \<lparr> sk_k1 = drop (key_bytes S) k, sk_k2 = take (key_bytes S) k \<rparr> \<and>
    oc = O_Chacha \<lparr> ok_k1 = drop (key_bytes S) k, ok_k2 = take (key_bytes S) k \<rparr>"
  using assms
  by (auto simp: make_sealing_cipher_def make_opening_cipher_def rbind_eq_Ok rassert_eq_Ok
      slice_from_def slice_def split: if_splits)

text \<open>
  C28. The packets sealed by one side with a ChaCha20-Poly1305 key and opened by the other with
  the cipher made from the same key material are read back in order: every payload comes out
  unchanged, whatever follows in the stream is left unread, and the sequence numbers of both
  sides advance together, modulo \<open>2 ^ 32\<close>.
\<close>

theorem chacha_stream_roundtrip:
  assumes "codec_laws C" and "sodium_laws S"
    and "make_sealing_cipher S k = Ok (local_to_remote pair)"
    and "make_opening_cipher S k = Ok (remote_to_local pair')"
    and "\<forall>p \<in> set ps. length p + 256 < 2 ^ 32"
    and "sb_seqn wb = sb_seqn rb"
  shows "\<exists>stream wb' rb'.
      write_packets C S pair ps wb = Ok wb' \<and> sb_buffer wb' = sb_buffer wb @ stream \<and>
      read_packets C S pair' (length ps) (stream @ rest) rb = Ok (ps, rest, rb') \<and>
      sb_seqn wb' = sb_seqn rb' \<and> sb_seqn rb' = sb_seqn rb + of_nat (length ps)"
proof -
  note keys = make_cipher_keys [OF assms(3,4)]
  show ?thesis
    by (rule packet_cipher.write_read_all [OF chacha_packet_cipher [OF assms(1,2)]])
      (use assms(5,6) keys in auto)
qed

theorem chacha_stream_roundtrip_witness:
  "\<exists>stream wb' rb'.
      write_packets rfc_codec demo_sodium
        \<lparr> local_to_remote = S_Chacha \<lparr> sk_k1 = replicate 32 7, sk_k2 = replicate 32 5 \<rparr>,
          remote_to_local = O_Clear \<rparr> [[5, 1, 2], [94]] sshbuffer_new = Ok wb' \<and>
      sb_buffer wb' = sb_buffer sshbuffer_new @ stream \<and>
      read_packets rfc_codec demo_sodium
        \<lparr> local_to_remote = S_Clear,
          remote_to_local = O_Chacha \<lparr> ok_k1 = replicate 32 7, ok_k2 = replicate 32 5 \<rparr> \<rparr>
        (length [[5, 1, 2], [94 :: u8]]) (stream @ [9, 9]) sshbuffer_new =
          Ok ([[5, 1, 2], [94]], [9, 9], rb') \<and>
      sb_seqn wb' = sb_seqn rb' \<and>
      sb_seqn rb' = sb_seqn sshbuffer_new + of_nat (length [[5, 1, 2], [94 :: u8]])"
  by (rule chacha_stream_roundtrip
      [where k = "replicate 32 5 @ replicate 32 7", OF rfc.codec_laws_axioms demo.sodium_laws_axioms])
    (simp_all add: make_sealing_cipher_def make_opening_cipher_def slice_from_def demo_sodium_def)

section \<open>Padding\<close>

text \<open>
  C30. Padding is at least four and at most fifteen bytes, so the one-byte padding length never
  overflows and the assertions of \<^verbatim>\<open>CipherPair::write\<close> on it hold for every payload; in clear
  the whole packet, under ChaCha20-Poly1305 the packet without its length field, is a multiple
  of the block size of eight, and an encrypted packet is never shorter than the minimum.
\<close>

theorem packet_padding:
  "4 \<le> padding_length sc payload \<and> padding_length sc payload \<le> 15 \<and>
   (case sc of
      S_Clear \<Rightarrow>
        (PACKET_LENGTH_LEN + PADDING_LENGTH_LEN + length payload + padding_length sc payload) mod 8 = 0
    | S_Chacha k \<Rightarrow>
        (PADDING_LENGTH_LEN + length payload + padding_length sc payload) mod 8 = 0 \<and>
        MINIMUM_PACKET_LEN \<le> PADDING_LENGTH_LEN + length payload + padding_length sc payload)"
proof (cases sc)
  case S_Clear
  then show ?thesis
    using clear_padding_bounds [of payload] clear_padding_aligned [of payload]
    by (simp add: add.commute)
next
  case (S_Chacha k)
  then show ?thesis
    using chacha_padding_bounds [of payload] chacha_padding_aligned [of payload] by simp
qed

section \<open>Integrity\<close>

text \<open>Reading a packet whose code does not verify leaves the packet, as received, in the buffer.\<close>

lemma cipher_read_refuses:
  assumes "remote_to_local pair = O_Chacha key" and "length enc_len = 4"
    and "length body = unat (be_u32 C (decrypt_packet_length C S (O_Chacha key) (sb_seqn rb) enc_len))"
    and "length tag = TAG_LEN"
    and "\<not> poly1305_verify S tag (enc_len @ body)
           (chacha20_xor S (replicate 32 0) (make_counter C S (sb_seqn rb)) (ok_k2 key))"
  shows "cipher_read C S pair (enc_len @ body @ tag @ rest) rb =
    (Err (Thrussh E_PacketAuth), rest, rb\<lparr> sb_buffer := enc_len @ body @ tag \<rparr>)"
  using assms
  by (simp add: cipher_read_def read_exact_def Let_def chacha_open_def resize_def)

text \<open>
  C29. A packet whose authentication code does not verify is refused: \<^verbatim>\<open>cipher::read\<close> returns
  \<open>PacketAuth\<close>, the sequence number does not advance, and no byte of the packet has been
  decrypted. The bytes received are still in the buffer.
\<close>

theorem chacha_forgery_refused:
  assumes "remote_to_local pair = O_Chacha key" and "length enc_len = 4"
    and "length body = unat (be_u32 C (decrypt_packet_length C S (O_Chacha key) (sb_seqn rb) enc_len))"
    and "length tag = TAG_LEN"
    and "\<not> poly1305_verify S tag (enc_len @ body)
           (chacha20_xor S (replicate 32 0) (make_counter C S (sb_seqn rb)) (ok_k2 key))"
  shows "cipher_read C S pair (enc_len @ body @ tag @ rest) rb =
    (Err (Thrussh E_PacketAuth), rest, rb\<lparr> sb_buffer := enc_len @ body @ tag \<rparr>)"
  by (rule cipher_read_refuses [OF assms])

theorem chacha_forgery_refused_witness:
  "cipher_read rfc_codec demo_sodium
     \<lparr> local_to_remote = S_Clear, remote_to_local = O_Chacha \<lparr> ok_k1 = [], ok_k2 = [] \<rparr> \<rparr>
     ([0, 0, 0, 2] @ [4, 1] @ replicate 16 9 @ [7]) sshbuffer_new =
   (Err (Thrussh E_PacketAuth), [7],
    sshbuffer_new\<lparr> sb_buffer := [0, 0, 0, 2] @ [4, 1] @ replicate 16 9 \<rparr>)"
  by (rule chacha_forgery_refused [where key = "\<lparr> ok_k1 = [], ok_k2 = [] \<rparr>"])
    (simp, simp, code_simp, simp, code_simp)

end
