(* ===== verification/Ssh_Read.thy ===== *)
theory Ssh_Read
  imports Lib_Types
begin

text \<open>
  \<^verbatim>\<open>src/src/ssh_read.rs\<close>: reading the identification line of the peer, and the stream that
  first replays what was read beyond that line.
\<close>

section \<open>The stream\<close>

text \<open>
  The transport delivers bytes in pieces of its own choosing: a list of chunks. One
  \<^verbatim>\<open>read\<close> into a buffer of \<open>cap\<close> bytes returns the next chunk, or as much of it as fits; at the
  end of the stream it returns nothing.
\<close>

fun async_read :: "bytes list \<Rightarrow> nat \<Rightarrow> bytes \<times> bytes list" where
  "async_read [] cap = ([], [])"
| "async_read (c # cs) cap =
     (if length c \<le> cap then (c, cs) else (take cap c, drop cap c # cs))"

abbreviation chunk_size :: "bytes list \<Rightarrow> nat" where
  "chunk_size cs \<equiv> sum_list (map length cs)"

lemma async_read_concat: "async_read cs cap = (d, cs') \<Longrightarrow> d @ concat cs' = concat cs"
  by (cases cs) (auto split: if_splits)

lemma async_read_length: "async_read cs cap = (d, cs') \<Longrightarrow> length d \<le> cap"
  by (cases cs) (auto split: if_splits)

lemma async_read_size:
  "async_read cs cap = (d, cs') \<Longrightarrow> chunk_size cs = length d + chunk_size cs'"
  by (cases cs) (auto split: if_splits)

lemma async_read_nonempty:
  assumes "async_read cs cap = (d, cs')" and "\<forall>c \<in> set cs. c \<noteq> []" and "0 < cap"
  shows "\<forall>c \<in> set cs'. c \<noteq> []" and "cs \<noteq> [] \<Longrightarrow> d \<noteq> []"
  using assms by (cases cs; auto split: if_splits)+

section \<open>The identification line\<close>

record read_ssh_id_buffer =
  rb_buf :: bytes
  rb_total :: nat
  rb_bytes_read :: nat
  rb_sshid_len :: nat

definition read_ssh_id_buffer_new :: read_ssh_id_buffer where
  "read_ssh_id_buffer_new =
     \<lparr> rb_buf = resize [] 256, rb_total = 0, rb_bytes_read = 0, rb_sshid_len = 0 \<rparr>"

definition read_ssh_id_buffer_id :: "read_ssh_id_buffer \<Rightarrow> bytes res" where
  "read_ssh_id_buffer_id b = slice (rb_buf b) 0 (rb_sshid_len b)"

text \<open>
  The inner loop: from position \<open>i\<close>, look for the first line feed after it. The result is
  the loop variable at the exit and the new \<open>bytes_read\<close> (unchanged if there was none).
\<close>

function scan_line :: "bytes \<Rightarrow> nat \<Rightarrow> nat \<Rightarrow> nat \<Rightarrow> nat \<times> nat" where
  "scan_line buf tot i bytes_read =
     (if tot - 1 \<le> i then (i, bytes_read)
      else if buf ! i = 13 \<and> buf ! (i + 1) = 10 then (i, i + 2)
      else if buf ! (i + 1) = 10 then (i + 1, i + 2)
      else scan_line buf tot (i + 1) bytes_read)"
  by pat_completeness auto
termination
  by (relation "measure (\<lambda>(buf, tot, i, r). tot - i)") auto

declare scan_line.simps [simp del]

text \<open>
  The outer loop, one read of the transport per round. The arguments are the buffer and the
  chunks still to come; the result also carries both, since the rest of the buffer is
  replayed to the packet layer.
\<close>

function read_ssh_id ::
  "read_ssh_id_buffer \<Rightarrow> bytes list \<Rightarrow> bytes res \<times> read_ssh_id_buffer \<times> bytes list" where
  "read_ssh_id ssh_id cs =
     (case async_read cs (length (rb_buf ssh_id) - rb_total ssh_id) of (d, cs') \<Rightarrow>
      let n = length d;
          buf = take (rb_total ssh_id) (rb_buf ssh_id) @ d @
                drop (rb_total ssh_id + n) (rb_buf ssh_id);
          tot = rb_total ssh_id + n;
          ssh_id1 = ssh_id\<lparr> rb_buf := buf, rb_total := tot \<rparr>
      in if n = 0 then (Err (Thrussh E_Disconnect), ssh_id1, cs')
         else case scan_line buf tot 0 (rb_bytes_read ssh_id) of (i, bytes_read) \<Rightarrow>
           if 0 < bytes_read then
             (if 8 \<le> i \<and> take 8 buf = ascii ''SSH-2.0-''
              then (slice buf 0 i, ssh_id1\<lparr> rb_bytes_read := bytes_read, rb_sshid_len := i \<rparr>, cs')
              else read_ssh_id (ssh_id1\<lparr> rb_total := 0, rb_bytes_read := 0 \<rparr>) cs')
           else read_ssh_id (ssh_id1\<lparr> rb_bytes_read := bytes_read \<rparr>) cs')"
  by pat_completeness auto
termination
  by (relation "measure (\<lambda>(ssh_id, cs). chunk_size cs)")
    (auto dest!: async_read_size [OF sym])

declare read_ssh_id.simps [simp del]

section \<open>The stream after the line\<close>

record ssh_read =
  sr_id :: "read_ssh_id_buffer option"
  sr_r :: "bytes list"

definition ssh_read_new :: "bytes list \<Rightarrow> ssh_read" where
  "ssh_read_new r = \<lparr> sr_id = Some read_ssh_id_buffer_new, sr_r = r \<rparr>"

text \<open>
  \<^verbatim>\<open>poll_read\<close> into a buffer with room for \<open>cap\<close> bytes. \<^verbatim>\<open>ReadBuf::put_slice\<close> of tokio panics
  when the slice is longer than the room that is left.
\<close>

definition ssh_poll_read :: "ssh_read \<Rightarrow> nat \<Rightarrow> (bytes \<times> ssh_read) res" where
  "ssh_poll_read s cap =
     (let inner = (case async_read (sr_r s) cap of (d, cs') \<Rightarrow>
                     Ok (d, s\<lparr> sr_id := None, sr_r := cs' \<rparr>))
      in case sr_id s of
           Some sid \<Rightarrow>
             (if rb_bytes_read sid < rb_total sid then
                rbind (slice (rb_buf sid) (rb_bytes_read sid) (rb_total sid)) (\<lambda>sl.
                rassert (length sl \<le> cap)
                  (Ok (sl, s\<lparr> sr_id := Some (sid\<lparr> rb_bytes_read :=
                     rb_bytes_read sid + (rb_total sid - rb_bytes_read sid) \<rparr>) \<rparr>)))
              else inner)
         | None \<Rightarrow> inner)"

section \<open>The scanner finds the first line\<close>

text \<open>No line feed after the first byte: nothing is found.\<close>

lemma scan_line_none:
  assumes "\<forall>k. i < k \<and> k < tot \<longrightarrow> buf ! k \<noteq> 10"
  shows "snd (scan_line buf tot i r) = r"
  using assms
proof (induction buf tot i r rule: scan_line.induct)
  case (1 buf tot i r)
  show ?case
  proof (cases "tot - 1 \<le> i")
    case True
    then show ?thesis by (subst scan_line.simps) simp
  next
    case False
    with "1.prems" have "buf ! (i + 1) \<noteq> 10" by auto
    with False "1.IH" "1.prems" show ?thesis by (subst scan_line.simps) simp
  qed
qed

text \<open>The first line feed is at \<open>j\<close>: the line ends there, or one byte earlier after a return.\<close>

lemma scan_line_found:
  assumes "i < j" and "j < tot" and "buf ! j = 10" and "\<forall>k. i < k \<and> k < j \<longrightarrow> buf ! k \<noteq> 10"
  shows "scan_line buf tot i r = (if buf ! (j - 1) = 13 then j - 1 else j, j + 1)"
  using assms
proof (induction buf tot i r rule: scan_line.induct)
  case (1 buf tot i r)
  show ?case
  proof (cases "i + 1 = j")
    case True
    with "1.prems" show ?thesis by (subst scan_line.simps) auto
  next
    case False
    with "1.prems" have ne: "buf ! (i + 1) \<noteq> 10" "i + 1 < j" by auto
    with "1.prems" have "scan_line buf tot (i + 1) r =
        (if buf ! (j - 1) = 13 then j - 1 else j, j + 1)"
      by (intro "1.IH") auto
    with ne "1.prems"(2) show ?thesis by (subst scan_line.simps) auto
  qed
qed

text \<open>What the scanner found is the first line, in range.\<close>

lemma scan_line_result:
  assumes "scan_line buf tot i 0 = (i', r)" and "0 < r"
  shows "r \<le> tot" and "i < r - 1" and "buf ! (r - 1) = 10"
    and "\<forall>k. i < k \<and> k < r - 1 \<longrightarrow> buf ! k \<noteq> 10"
    and "i' = (if buf ! (r - 2) = 13 then r - 2 else r - 1)"
proof -
  have ex: "\<exists>j. i < j \<and> j < tot \<and> buf ! j = 10"
    using assms scan_line_none [of i tot buf 0] by fastforce
  then obtain j where j: "i < j" "j < tot" "buf ! j = 10"
    and min: "\<forall>k < j. \<not> (i < k \<and> k < tot \<and> buf ! k = 10)"
    using exists_least_iff [of "\<lambda>j. i < j \<and> j < tot \<and> buf ! j = 10"] by blast
  have least: "\<forall>k. i < k \<and> k < j \<longrightarrow> buf ! k \<noteq> 10"
    using min j(2) by (meson less_trans)
  have eq: "scan_line buf tot i 0 = (if buf ! (j - 1) = 13 then j - 1 else j, j + 1)"
    by (rule scan_line_found [OF j least])
  then have r: "r = j + 1" and i': "i' = (if buf ! (j - 1) = 13 then j - 1 else j)"
    using assms(1) by simp_all
  have r1: "r - 1 = j" and r2: "r - 2 = j - 1" by (simp_all add: r)
  show "r \<le> tot" using j(2) by (simp add: r)
  show "i < r - 1" unfolding r1 by (rule j(1))
  show "buf ! (r - 1) = 10" unfolding r1 by (rule j(3))
  show "\<forall>k. i < k \<and> k < r - 1 \<longrightarrow> buf ! k \<noteq> 10" unfolding r1 by (rule least)
  show "i' = (if buf ! (r - 2) = 13 then r - 2 else r - 1)" unfolding r1 r2 by (rule i')
qed

end
