(* ===== verification/Ssh_Read_Props.thy ===== *)
theory Ssh_Read_Props
  imports Ssh_Read
begin

text \<open>
  Properties of the identification exchange: what \<^verbatim>\<open>read_ssh_id\<close> returns is a version line, and
  it does not depend on how the transport cuts the stream; and two places where the code
  loses or mishandles bytes that arrive together with the line.
\<close>

section \<open>One round of the loop\<close>

definition refill :: "read_ssh_id_buffer \<Rightarrow> bytes \<Rightarrow> read_ssh_id_buffer" where
  "refill b d = b\<lparr>
     rb_buf := take (rb_total b) (rb_buf b) @ d @ drop (rb_total b + length d) (rb_buf b),
     rb_total := rb_total b + length d \<rparr>"

lemma refill_fields [simp]:
  "rb_total (refill b d) = rb_total b + length d"
  "rb_bytes_read (refill b d) = rb_bytes_read b"
  by (simp_all add: refill_def)

lemma refill_buf:
  assumes "rb_total b + length d \<le> length (rb_buf b)"
  shows "length (rb_buf (refill b d)) = length (rb_buf b)"
    and "take (rb_total b + length d) (rb_buf (refill b d)) = take (rb_total b) (rb_buf b) @ d"
  using assms by (auto simp: refill_def)

lemma read_ssh_id_step:
  assumes "async_read cs (length (rb_buf b) - rb_total b) = (d, cs')"
  shows "read_ssh_id b cs =
     (if d = [] then (Err (Thrussh E_Disconnect), refill b d, cs')
      else case scan_line (rb_buf (refill b d)) (rb_total b + length d) 0 (rb_bytes_read b) of
        (i, r) \<Rightarrow>
          if 0 < r then
            (if 8 \<le> i \<and> take 8 (rb_buf (refill b d)) = ascii ''SSH-2.0-''
             then (slice (rb_buf (refill b d)) 0 i,
                   (refill b d)\<lparr> rb_bytes_read := r, rb_sshid_len := i \<rparr>, cs')
             else read_ssh_id ((refill b d)\<lparr> rb_total := 0, rb_bytes_read := 0 \<rparr>) cs')
          else read_ssh_id ((refill b d)\<lparr> rb_bytes_read := r \<rparr>) cs')"
proof (cases "scan_line (rb_buf (refill b d)) (rb_total b + length d) 0 (rb_bytes_read b)")
  case (Pair i r)
  then show ?thesis
    by (subst read_ssh_id.simps, unfold assms prod.case Let_def) (simp add: refill_def)
qed

section \<open>The result does not depend on the chunks\<close>

text \<open>The end of the identification in a line whose last byte is the line feed.\<close>

definition id_end :: "bytes \<Rightarrow> nat" where
  "id_end line = (if line ! (length line - 2) = 13 then length line - 2 else length line - 1)"

lemma read_ssh_id_line:
  assumes "length (rb_buf b) = 256" and "rb_total b < length line" and "rb_bytes_read b = 0"
    and "take (rb_total b) (rb_buf b) @ concat cs = line @ rest"
    and "\<forall>c \<in> set cs. c \<noteq> []" and "length line \<le> 256"
    and "line ! (length line - 1) = 10"
    and "\<forall>k. 0 < k \<and> k < length line - 1 \<longrightarrow> line ! k \<noteq> 10"
    and "8 \<le> id_end line" and "take 8 line = ascii ''SSH-2.0-''"
  shows "\<exists>b' cs'. read_ssh_id b cs = (Ok (take (id_end line) line), b', cs') \<and>
    rb_bytes_read b' = length line \<and> rb_bytes_read b' \<le> rb_total b' \<and>
    rb_total b' \<le> length (rb_buf b') \<and>
    drop (rb_bytes_read b') (take (rb_total b') (rb_buf b')) @ concat cs' = rest"
  using assms(1-5)
proof (induction "chunk_size cs" arbitrary: b cs rule: less_induct)
  case less
  obtain d cs' where ar: "async_read cs (length (rb_buf b) - rb_total b) = (d, cs')"
    by fastforce
  define tot where "tot = rb_total b + length d"
  define buf where "buf = rb_buf (refill b d)"
  have ne: "cs \<noteq> []"
    using less.prems(1,2,4) by (auto dest!: arg_cong [where f = length])
  have cap: "0 < length (rb_buf b) - rb_total b"
    using less.prems(1,2) assms(6) by simp
  have d: "d \<noteq> []" and ne': "\<forall>c \<in> set cs'. c \<noteq> []"
    using async_read_nonempty [OF ar less.prems(5) cap] ne by auto
  have le: "tot \<le> 256"
    using async_read_length [OF ar] less.prems(1,2) assms(6) by (simp add: tot_def)
  have lenb: "length buf = 256" and tk: "take tot buf = take (rb_total b) (rb_buf b) @ d"
    using refill_buf [of b d] le less.prems(1) by (simp_all add: buf_def tot_def)
  have cat: "take tot buf @ concat cs' = line @ rest"
    using async_read_concat [OF ar] less.prems(4) by (simp add: tk)
  have nth: "buf ! k = line ! k" if "k < tot" "k < length line" for k
  proof -
    have "(take tot buf @ concat cs') ! k = (line @ rest) ! k" by (simp add: cat)
    with that lenb le show ?thesis by (simp add: nth_append)
  qed
  show ?case
  proof (cases "tot < length line")
    case True
    have "snd (scan_line buf tot 0 0) = 0"
      by (rule scan_line_none) (use True nth assms(8) in auto)
    then obtain i where scan: "scan_line buf tot 0 0 = (i, 0)" by (cases "scan_line buf tot 0 0") auto
    have "chunk_size cs' < chunk_size cs"
      using async_read_size [OF ar] d by simp
    from less.hyps [OF this, of "(refill b d)\<lparr> rb_bytes_read := 0 \<rparr>"]
    obtain b' cs'' where
      IH: "read_ssh_id ((refill b d)\<lparr> rb_bytes_read := 0 \<rparr>) cs' =
           (Ok (take (id_end line) line), b', cs'') \<and>
        rb_bytes_read b' = length line \<and> rb_bytes_read b' \<le> rb_total b' \<and>
        rb_total b' \<le> length (rb_buf b') \<and>
        drop (rb_bytes_read b') (take (rb_total b') (rb_buf b')) @ concat cs'' = rest"
      using True lenb cat ne' unfolding buf_def tot_def by (auto simp: refill_def)
    have "read_ssh_id b cs = read_ssh_id ((refill b d)\<lparr> rb_bytes_read := 0 \<rparr>) cs'"
      using d scan by (simp add: read_ssh_id_step [OF ar] less.prems(3) buf_def tot_def)
    with IH show ?thesis by auto
  next
    case False
    let ?j = "length line - 1"
    have j: "0 < ?j" "?j < tot" using False assms(9) by (auto simp: id_end_def split: if_splits)
    have "scan_line buf tot 0 0 = (if buf ! (?j - 1) = 13 then ?j - 1 else ?j, ?j + 1)"
      by (rule scan_line_found [OF j]) (use nth j assms(7,8) in auto)
    then have scan: "scan_line buf tot 0 0 = (id_end line, length line)"
      using j nth [of "?j - 1"] by (auto simp: id_end_def numeral_2_eq_2)
    have tl: "take k buf = take k line" if "k \<le> length line" for k
    proof -
      have "take k (take tot buf @ concat cs') = take k (line @ rest)" by (simp add: cat)
      with that False lenb le show ?thesis by simp
    qed
    have len8: "8 \<le> length line" and ie: "id_end line \<le> length line"
      using assms(9) by (auto simp: id_end_def split: if_splits)
    have res: "read_ssh_id b cs = (Ok (take (id_end line) line),
        (refill b d)\<lparr> rb_bytes_read := length line, rb_sshid_len := id_end line \<rparr>, cs')"
      using d scan assms(7,9,10) j(1) tl [OF len8] tl [OF ie] lenb ie assms(6) len8
      by (cases "line = []") (simp_all add: read_ssh_id_step [OF ar] less.prems(3) buf_def tot_def)
    have "drop (length line) (take tot buf) @ concat cs' = rest"
      using cat False by (metis append_eq_conv_conj drop_append length_take lenb le min.absorb2
          diff_is_0_eq drop_0 not_less)
    with res False le lenb show ?thesis by (simp add: buf_def tot_def)
  qed
qed

lemma version_line_read:
  assumes "length (rb_buf b) = 256" and "rb_total b = 0" and "rb_bytes_read b = 0"
    and "concat cs = L @ T @ rest" and "\<forall>c \<in> set cs. c \<noteq> []"
    and "T = [13, 10] \<or> T = [10] \<and> last L \<noteq> 13"
    and "10 \<notin> set L" and "take 8 L = ascii ''SSH-2.0-''" and "length (L @ T) \<le> 256"
  shows "\<exists>b' cs'. read_ssh_id b cs = (Ok L, b', cs') \<and>
    rb_bytes_read b' \<le> rb_total b' \<and> rb_total b' \<le> length (rb_buf b') \<and>
    drop (rb_bytes_read b') (take (rb_total b') (rb_buf b')) @ concat cs' = rest"
proof -
  have "length (take 8 L) = 8" by (simp add: assms(8))
  then have len: "8 \<le> length L" and ne: "L \<noteq> []" by auto
  have ie: "id_end (L @ T) = length L"
    using assms(6) len by (auto simp: id_end_def nth_append last_conv_nth [OF ne])
  have lastlf: "(L @ T) ! (length (L @ T) - 1) = 10"
    using assms(6) by (auto simp: nth_append)
  have nolf: "\<forall>k. 0 < k \<and> k < length (L @ T) - 1 \<longrightarrow> (L @ T) ! k \<noteq> 10"
    using assms(6,7) by (auto simp: nth_append less_Suc_eq dest: nth_mem)
  have "\<exists>b' cs'. read_ssh_id b cs = (Ok (take (id_end (L @ T)) (L @ T)), b', cs') \<and>
    rb_bytes_read b' = length (L @ T) \<and> rb_bytes_read b' \<le> rb_total b' \<and>
    rb_total b' \<le> length (rb_buf b') \<and>
    drop (rb_bytes_read b') (take (rb_total b') (rb_buf b')) @ concat cs' = rest"
    by (rule read_ssh_id_line) (use assms len ie lastlf nolf in auto)
  with ie show ?thesis by auto
qed



section \<open>What is returned is a version line\<close>

lemma read_ssh_id_safe:
  assumes "length (rb_buf b) = 256" and "rb_total b \<le> 256" and "rb_bytes_read b = 0"
    and "read_ssh_id b cs = (r, b', cs')"
  shows "r = Err (Thrussh E_Disconnect) \<or>
    (\<exists>s. r = Ok s \<and> take 8 s = ascii ''SSH-2.0-'' \<and> 10 \<notin> set s \<and> length s < 256 \<and>
         read_ssh_id_buffer_id b' = Ok s)"
  using assms
proof (induction "chunk_size cs" arbitrary: b cs rule: less_induct)
  case less
  obtain d cs1 where ar: "async_read cs (length (rb_buf b) - rb_total b) = (d, cs1)"
    by fastforce
  define tot where "tot = rb_total b + length d"
  define buf where "buf = rb_buf (refill b d)"
  have le: "tot \<le> 256"
    using async_read_length [OF ar] less.prems(1,2) by (simp add: tot_def)
  have lenb: "length buf = 256"
    using refill_buf(1) [of b d] le less.prems(1) by (simp add: buf_def tot_def)
  obtain i q where scan: "scan_line buf tot 0 0 = (i, q)" by fastforce
  note step = read_ssh_id_step [OF ar, folded buf_def tot_def, unfolded less.prems(3) scan prod.case]
  show ?case
  proof (cases "d = []")
    case True
    with step less.prems(4) show ?thesis by simp
  next
    case ne: False
    have small: "chunk_size cs1 < chunk_size cs" using async_read_size [OF ar] ne by simp
    show ?thesis
    proof (cases "0 < q \<and> 8 \<le> i \<and> take 8 buf = ascii ''SSH-2.0-''")
      case True
      have "\<forall>k. 0 < k \<and> k < q - 1 \<longrightarrow> buf ! k \<noteq> 10" and qi: "q \<le> tot" "i < q"
        using scan_line_result [OF scan] True by (auto split: if_splits)
      moreover have "i \<le> q - 1" using qi by simp
      ultimately have nolf: "\<forall>k. 0 < k \<and> k < i \<longrightarrow> buf ! k \<noteq> 10" by auto
      have b0: "buf ! 0 = 83"
        using True lenb nth_take [of 0 8 buf] by simp
      have "10 \<notin> set (take i buf)"
      proof
        assume "10 \<in> set (take i buf)"
        then obtain k where "k < i" "buf ! k = 10" by (auto simp: in_set_conv_nth)
        with nolf b0 show False by (cases "k = 0") auto
      qed
      with True step ne less.prems(4) qi le lenb show ?thesis
        by (auto simp: read_ssh_id_buffer_id_def buf_def min_def)
    next
      case False
      show ?thesis
      proof (cases "0 < q")
        case True
        with False step ne less.prems(4)
        have "read_ssh_id ((refill b d)\<lparr> rb_total := 0, rb_bytes_read := 0 \<rparr>) cs1 = (r, b', cs')"
          by auto
        from less.hyps [OF small _ _ _ this] lenb show ?thesis by (simp add: buf_def)
      next
        case zero: False
        with step ne less.prems(4)
        have "read_ssh_id ((refill b d)\<lparr> rb_bytes_read := 0 \<rparr>) cs1 = (r, b', cs')" by auto
        from less.hyps [OF small _ _ _ this] lenb le show ?thesis
          by (simp add: buf_def tot_def)
      qed
    qed
  qed
qed

text \<open>
  On any stream \<^verbatim>\<open>read_ssh_id\<close> terminates without a panic: it reports a disconnection, or
  returns a string that starts with \<^verbatim>\<open>SSH-2.0-\<close>, contains no line feed and is shorter than the
  256-byte buffer, which is also what the buffer reports as its identification afterwards.
\<close>

lemma read_ssh_id_result:
  "case read_ssh_id read_ssh_id_buffer_new cs of (r, b, cs') \<Rightarrow>
     r = Err (Thrussh E_Disconnect) \<or>
     (\<exists>s. r = Ok s \<and> take 8 s = ascii ''SSH-2.0-'' \<and> 10 \<notin> set s \<and> length s < 256 \<and>
          read_ssh_id_buffer_id b = Ok s)"
proof (cases "read_ssh_id read_ssh_id_buffer_new cs")
  case (fields r b cs')
  then show ?thesis
    using read_ssh_id_safe [of read_ssh_id_buffer_new cs r b cs']
    by (simp add: read_ssh_id_buffer_new_def)
qed

section \<open>Bytes that arrive together with the line\<close>

text \<open>A line that is not a version line is discarded together with all that was read after it.\<close>

lemma first_chunk:
  assumes "P \<noteq> []" and "10 \<notin> set P" and "d = P @ [13, 10] @ X" and "length d \<le> 256"
  shows "async_read (d # cs) (length (rb_buf read_ssh_id_buffer_new) - rb_total read_ssh_id_buffer_new)
      = (d, cs)"
    and "length (rb_buf (refill read_ssh_id_buffer_new d)) = 256"
    and "take (length d) (rb_buf (refill read_ssh_id_buffer_new d)) = d"
    and "scan_line (rb_buf (refill read_ssh_id_buffer_new d)) (length d) 0 0 =
      (length P, length P + 2)"
proof -
  let ?b = read_ssh_id_buffer_new
  let ?buf = "rb_buf (refill ?b d)"
  show "async_read (d # cs) (length (rb_buf ?b) - rb_total ?b) = (d, cs)"
    using assms(4) by (simp add: read_ssh_id_buffer_new_def)
  have buf: "?buf = d @ drop (length d) (resize [] 256)"
    by (simp add: refill_def read_ssh_id_buffer_new_def)
  show "length ?buf = 256" using assms(4) by (simp add: buf)
  show "take (length d) ?buf = d" by (simp add: buf)
  have nth: "?buf ! k = d ! k" if "k < length d" for k
    using that by (simp add: buf nth_append)
  have len: "length P + 1 < length d" by (simp add: assms(3))
  have cr: "?buf ! (length P + 1 - 1) = 13" and lf: "?buf ! (length P + 1) = 10"
    using nth [of "length P"] nth [of "length P + 1"] len by (simp_all add: assms(3) nth_append)
  have "?buf ! k \<noteq> 10" if "k < length P" for k
  proof -
    have "P ! k \<noteq> 10" using nth_mem [OF that] assms(2) by auto
    then show ?thesis using that nth [of k] len by (simp add: assms(3) nth_append)
  qed
  with cr have "\<forall>k. 0 < k \<and> k < length P + 1 \<longrightarrow> ?buf ! k \<noteq> 10"
    by (auto simp: less_Suc_eq)
  from scan_line_found [OF _ len lf this] cr assms(1)
  show "scan_line ?buf (length d) 0 0 = (length P, length P + 2)" by simp
qed

lemma preliminary_line:
  assumes "P \<noteq> []" and "10 \<notin> set P" and "d = P @ [13, 10] @ X" and "length d \<le> 256"
    and "\<not> (8 \<le> length P \<and> take 8 d = ascii ''SSH-2.0-'')"
  shows "\<exists>b. length (rb_buf b) = 256 \<and> rb_total b = 0 \<and> rb_bytes_read b = 0 \<and>
    read_ssh_id read_ssh_id_buffer_new (d # cs) = read_ssh_id b cs"
proof -
  let ?b = read_ssh_id_buffer_new
  note fc = first_chunk [OF assms(1-4)]
  have z: "rb_total ?b = 0" "rb_bytes_read ?b = 0"
    by (simp_all add: read_ssh_id_buffer_new_def)
  have no: "\<not> (8 \<le> length P \<and> take 8 (rb_buf (refill ?b d)) = ascii ''SSH-2.0-'')"
  proof
    assume a: "8 \<le> length P \<and> take 8 (rb_buf (refill ?b d)) = ascii ''SSH-2.0-''"
    then have "take 8 (take (length d) (rb_buf (refill ?b d))) = ascii ''SSH-2.0-''"
      by (simp add: assms(3) min_def)
    with a assms(5) show False by (simp add: fc(3))
  qed
  have "read_ssh_id ?b (d # cs) =
      read_ssh_id ((refill ?b d)\<lparr> rb_total := 0, rb_bytes_read := 0 \<rparr>) cs"
  proof -
    have "d \<noteq> []" by (simp add: assms(3))
    with fc(4) no show ?thesis by (auto simp: read_ssh_id_step [OF fc(1)] z)
  qed
  with fc(2) show ?thesis
    by (intro exI [of _ "(refill ?b d)\<lparr> rb_total := 0, rb_bytes_read := 0 \<rparr>"]) simp
qed

text \<open>
  C40. A preliminary line that the protocol allows before the version line makes the exchange
  fail when the transport delivers it in one piece with the version line, since everything
  read after a discarded line is dropped with it; delivered in two pieces, the same stream
  is accepted.
\<close>

theorem ssh_id_lost_after_preliminary_line:
  assumes "P \<noteq> []" and "10 \<notin> set P" and "take 8 P \<noteq> ascii ''SSH-2.0-''"
    and "10 \<notin> set L" and "take 8 L = ascii ''SSH-2.0-''"
    and "length (P @ [13, 10] @ L @ [13, 10] @ rest) \<le> 256"
  shows "fst (read_ssh_id read_ssh_id_buffer_new [P @ [13, 10] @ L @ [13, 10] @ rest]) =
           Err (Thrussh E_Disconnect) \<and>
    fst (read_ssh_id read_ssh_id_buffer_new [P @ [13, 10], L @ [13, 10] @ rest]) = Ok L"
proof
  have t: "\<not> (8 \<le> length P \<and> take 8 (P @ Y) = ascii ''SSH-2.0-'')" for Y
    using assms(3) by simp
  obtain b where "length (rb_buf b) = 256" and
    "read_ssh_id read_ssh_id_buffer_new [P @ [13, 10] @ (L @ [13, 10] @ rest)] = read_ssh_id b []"
    using preliminary_line [OF assms(1,2) refl, of "L @ [13, 10] @ rest" "[]"] assms(6) t by auto
  then show "fst (read_ssh_id read_ssh_id_buffer_new [P @ [13, 10] @ L @ [13, 10] @ rest]) =
      Err (Thrussh E_Disconnect)"
    using read_ssh_id_step [of "[]" b "[]" "[]"] by simp
  obtain b2 where b2: "length (rb_buf b2) = 256" "rb_total b2 = 0" "rb_bytes_read b2 = 0" and
    eq: "read_ssh_id read_ssh_id_buffer_new [P @ [13, 10], L @ [13, 10] @ rest] =
      read_ssh_id b2 [L @ [13, 10] @ rest]"
    using preliminary_line [OF assms(1,2) refl, of "[]" "[L @ [13, 10] @ rest]"] assms(6) t by auto
  obtain b' cs' where "read_ssh_id b2 [L @ [13, 10] @ rest] = (Ok L, b', cs')"
    using version_line_read [OF b2, of "[L @ [13, 10] @ rest]" L "[13, 10]" rest] assms(4-6)
    by auto
  with eq show "fst (read_ssh_id read_ssh_id_buffer_new [P @ [13, 10], L @ [13, 10] @ rest]) = Ok L"
    by simp
qed

theorem ssh_id_lost_after_preliminary_line_witness:
  "fst (read_ssh_id read_ssh_id_buffer_new
     [ascii ''Welcome'' @ [13, 10] @ ascii ''SSH-2.0-x'' @ [13, 10] @ []]) =
        Err (Thrussh E_Disconnect) \<and>
   fst (read_ssh_id read_ssh_id_buffer_new
     [ascii ''Welcome'' @ [13, 10], ascii ''SSH-2.0-x'' @ [13, 10] @ []]) = Ok (ascii ''SSH-2.0-x'')"
  by (rule ssh_id_lost_after_preliminary_line) simp_all

text \<open>The version line in the first chunk, with what follows it there.\<close>

lemma line_in_first_chunk:
  assumes "10 \<notin> set L" and "take 8 L = ascii ''SSH-2.0-''" and "length (L @ [13, 10] @ rest) \<le> 256"
  obtains b where "read_ssh_id read_ssh_id_buffer_new ((L @ [13, 10] @ rest) # cs) = (Ok L, b, cs)"
    and "rb_bytes_read b = length L + 2" and "rb_total b = length L + 2 + length rest"
    and "slice (rb_buf b) (length L + 2) (length L + 2 + length rest) = Ok rest"
proof -
  let ?b = read_ssh_id_buffer_new
  define d where "d = L @ [13, 10] @ rest"
  have "length (take 8 L) = 8" by (simp add: assms(2))
  then have len: "8 \<le> length L" and ne: "L \<noteq> []" by auto
  have le: "length d \<le> 256" using assms(3) by (simp add: d_def)
  note fc = first_chunk [OF ne assms(1) d_def le]
  let ?buf = "rb_buf (refill ?b d)"
  have z: "rb_total ?b = 0" "rb_bytes_read ?b = 0"
    by (simp_all add: read_ssh_id_buffer_new_def)
  have tk: "take k ?buf = take k d" if "k \<le> length d" for k
    using fc(3) that by (metis min.absorb1 take_take)
  have i8: "take 8 ?buf = ascii ''SSH-2.0-''"
    using tk [of 8] len assms(2) by (simp add: d_def)
  have il: "take (length L) ?buf = L"
    using tk [of "length L"] by (simp add: d_def)
  let ?b1 = "(refill ?b d)\<lparr> rb_bytes_read := length L + 2, rb_sshid_len := length L \<rparr>"
  have dne: "d \<noteq> []" and d_len: "length L \<le> length d" by (simp_all add: d_def)
  have res: "read_ssh_id ?b (d # cs) = (Ok L, ?b1, cs)"
    unfolding read_ssh_id_step [OF fc(1)] z
    using fc(2,4) dne len i8 il le d_len by simp
  have "slice ?buf (length L + 2) (length d) = Ok rest"
    using fc(2,3) le by (simp add: slice_def flip: drop_take) (simp add: d_def)
  moreover have dl: "length d = length L + 2 + length rest" by (simp add: d_def)
  ultimately have sl: "slice ?buf (length L + 2) (length L + 2 + length rest) = Ok rest" by simp
  show thesis
    by (rule that [OF res [unfolded d_def]]) (use sl in \<open>simp_all add: z d_def\<close>)
qed

text \<open>
  When more than four bytes follow the version line in the same piece, the first read of
  the packet layer, which asks for the four bytes of a packet length, panics: the replay
  puts everything it holds into the caller's buffer at once. A caller with enough room
  gets exactly the bytes that followed the line.
\<close>

lemma ssh_id_replay:
  assumes "10 \<notin> set L" and "take 8 L = ascii ''SSH-2.0-''"
    and "length (L @ [13, 10] @ rest) \<le> 256" and "4 < length rest"
  shows "\<exists>b. read_ssh_id read_ssh_id_buffer_new [L @ [13, 10] @ rest] = (Ok L, b, []) \<and>
    ssh_poll_read \<lparr> sr_id = Some b, sr_r = [] \<rparr> 4 = Panic \<and>
    rmap fst (ssh_poll_read \<lparr> sr_id = Some b, sr_r = [] \<rparr> (length rest)) = Ok rest"
proof -
  obtain b where b: "read_ssh_id read_ssh_id_buffer_new [L @ [13, 10] @ rest] = (Ok L, b, [])"
    "rb_bytes_read b = length L + 2" "rb_total b = length L + 2 + length rest"
    "slice (rb_buf b) (length L + 2) (length L + 2 + length rest) = Ok rest"
    by (rule line_in_first_chunk [OF assms(1-3)])
  with assms(4) show ?thesis by (intro exI [of _ b]) (auto simp: ssh_poll_read_def)
qed

end
