(* ===== verification/Keys_Lib.thy ===== *)
theory Keys_Lib
  imports Codec
begin

text \<open>
  What the crate uses of \<^verbatim>\<open>thrussh_keys::key\<close>: the shapes of public keys and key pairs it
  matches on (an Ed25519 key as its bytes; an RSA key as its exponent and modulus, with the name
  of the signature hash of a pair), and a parameter \<open>keys_lib\<close> with the names, parsers and
  signature functions of the library. And \<^verbatim>\<open>src/src/key.rs\<close>, the encoding of a public key.
\<close>

datatype public_key = PK_Ed25519 bytes | PK_RSA bytes bytes

datatype key_pair = KP_Ed25519 bytes | KP_RSA bytes bytes bytes

record keys_lib =
  ED25519 :: bytes
  SSH_RSA :: bytes
  RSA_SHA2_256 :: bytes
  RSA_SHA2_512 :: bytes
  parse_key :: "bytes \<Rightarrow> bytes \<Rightarrow> public_key res"
  parse_public_key :: "bytes \<Rightarrow> public_key res"
  verify_client_auth :: "public_key \<Rightarrow> bytes \<Rightarrow> bytes \<Rightarrow> bool"
  verify_server_auth :: "public_key \<Rightarrow> bytes \<Rightarrow> bytes \<Rightarrow> bool"
  add_signature :: "key_pair \<Rightarrow> bytes \<Rightarrow> bytes \<Rightarrow> bytes res"
  add_self_signature :: "key_pair \<Rightarrow> bytes \<Rightarrow> bytes res"

text \<open>
  \<open>parse_key algo blob\<close> is \<^verbatim>\<open>PublicKey::parse\<close>; \<open>add_signature key buffer hash\<close> and
  \<open>add_self_signature key buffer\<close> return the buffer with the signature appended.
\<close>

text \<open>\<^verbatim>\<open>impl PubKey for PublicKey\<close>, \<^verbatim>\<open>impl PubKey for KeyPair\<close>: the bytes \<^verbatim>\<open>push_to\<close> appends.\<close>

fun push_public_key :: "codec \<Rightarrow> keys_lib \<Rightarrow> public_key \<Rightarrow> bytes \<Rightarrow> bytes res" where
  "push_public_key C K (PK_Ed25519 key) buffer =
     Ok (buffer @ u32_be C (as_u32 (length (ED25519 K) + length key + 8)) @
         ssh_string C (ED25519 K) @ ssh_string C key)"
| "push_public_key C K (PK_RSA e n) buffer =
     Ok (buffer @ u32_be C (as_u32 (4 + length (SSH_RSA K) + mpint_len C n + mpint_len C e)) @
         ssh_string C (SSH_RSA K) @ ssh_mpint C e @ ssh_mpint C n)"

fun push_key_pair :: "codec \<Rightarrow> keys_lib \<Rightarrow> key_pair \<Rightarrow> bytes \<Rightarrow> bytes res" where
  "push_key_pair C K (KP_Ed25519 key) buffer =
     rbind (slice_from key 32) (\<lambda>pub.
       Ok (buffer @ u32_be C (as_u32 (length (ED25519 K) + length pub + 8)) @
           ssh_string C (ED25519 K) @ ssh_string C pub))"
| "push_key_pair C K (KP_RSA e n h) buffer =
     Ok (buffer @ u32_be C (as_u32 (4 + length (SSH_RSA K) + mpint_len C n + mpint_len C e)) @
         ssh_string C (SSH_RSA K) @ ssh_mpint C e @ ssh_mpint C n)"

text \<open>\<^verbatim>\<open>impl Named\<close> (\<^verbatim>\<open>src/src/negotiation.rs\<close>): the algorithm name of a key.\<close>

fun public_key_name :: "keys_lib \<Rightarrow> public_key \<Rightarrow> bytes" where
  "public_key_name K (PK_Ed25519 key) = ED25519 K"
| "public_key_name K (PK_RSA e n) = SSH_RSA K"

fun key_pair_name :: "keys_lib \<Rightarrow> key_pair \<Rightarrow> bytes" where
  "key_pair_name K (KP_Ed25519 key) = ED25519 K"
| "key_pair_name K (KP_RSA e n h) = h"

text \<open>The public half of a key pair, as its owner publishes it.\<close>

fun public_of :: "key_pair \<Rightarrow> public_key" where
  "public_of (KP_Ed25519 key) = PK_Ed25519 (drop 32 key)"
| "public_of (KP_RSA e n h) = PK_RSA e n"

lemma push_key_pair_public:
  "push_key_pair C K kp buffer = Ok b \<Longrightarrow> push_public_key C K (public_of kp) buffer = Ok b"
  by (cases kp) (auto simp: slice_from_def split: if_splits)

lemma push_public_key_append:
  "\<exists>x. \<forall>buffer. push_public_key C K pk buffer = Ok (buffer @ x)"
  by (cases pk) auto

text \<open>What a pushed key is: one SSH string, under the documented lengths of the encoding.\<close>

lemma push_ed25519_string:
  assumes "codec_laws C"
  shows "push_public_key C K (PK_Ed25519 key) buffer =
    Ok (buffer @ ssh_string C (ssh_string C (ED25519 K) @ ssh_string C key))"
proof -
  have l: "length (ssh_string C (ED25519 K) @ ssh_string C key) = length (ED25519 K) + length key + 8"
    using assms by (simp add: codec_laws.length_ssh_string)
  show ?thesis
    unfolding codec_laws.ssh_string_eq [OF assms, of "ssh_string C (ED25519 K) @ ssh_string C key"] l
    by simp
qed

end
