(* ===== verification/Negotiation.thy ===== *)
theory Negotiation
  imports Lib_Types Msg Keys_Lib
begin

text \<open>
  \<^verbatim>\<open>src/src/negotiation.rs\<close>: the KEXINIT packet, written from the local preferences and read
  against them; and the names of \<^verbatim>\<open>src/src/compression.rs\<close> it chooses between.
\<close>

section \<open>Preferences\<close>

datatype compression = Compression_None | Compression_Zlib

definition compression_from_string :: "bytes \<Rightarrow> compression" where
  "compression_from_string s =
     (if s = ascii ''zlib'' \<or> s = ascii ''zlib@openssh.com'' then Compression_Zlib
      else Compression_None)"

record names =
  nm_kex :: bytes
  nm_key :: bytes
  nm_cipher :: bytes
  nm_mac :: "bytes option"
  nm_server_compression :: compression
  nm_client_compression :: compression
  ignore_guessed :: bool

record preferred =
  pf_kex :: "bytes list"
  pf_key :: "bytes list"
  pf_cipher :: "bytes list"
  pf_mac :: "bytes list"
  pf_compression :: "bytes list"

definition CURVE25519 :: bytes where
  "CURVE25519 = ascii ''curve25519-sha256@libssh.org''"

definition CHACHA20POLY1305 :: bytes where
  "CHACHA20POLY1305 = ascii ''chacha20-poly1305@openssh.com''"

definition preferred_DEFAULT :: "keys_lib \<Rightarrow> preferred" where
  "preferred_DEFAULT K = \<lparr>
     pf_kex = [CURVE25519],
     pf_key = [ED25519 K, RSA_SHA2_256 K, RSA_SHA2_512 K],
     pf_cipher = [CHACHA20POLY1305],
     pf_mac = [ascii ''none''],
     pf_compression = [ascii ''none'', ascii ''zlib'', ascii ''zlib@openssh.com''] \<rparr>"

definition preferred_COMPRESSED :: "keys_lib \<Rightarrow> preferred" where
  "preferred_COMPRESSED K = \<lparr>
     pf_kex = [CURVE25519],
     pf_key = [ED25519 K, RSA_SHA2_256 K, RSA_SHA2_512 K],
     pf_cipher = [CHACHA20POLY1305],
     pf_mac = [ascii ''none''],
     pf_compression = [ascii ''zlib'', ascii ''zlib@openssh.com'', ascii ''none''] \<rparr>"

section \<open>Selection\<close>

text \<open>\<^verbatim>\<open>slice::split\<close> at every comma: always at least one piece.\<close>

abbreviation comma :: u8 where "comma \<equiv> of_char CHR '',''"

fun split_commas :: "bytes \<Rightarrow> bytes list" where
  "split_commas [] = [[]]"
| "split_commas (x # xs) =
     (if x = comma then [] # split_commas xs
      else case split_commas xs of [] \<Rightarrow> [[x]] | y # ys \<Rightarrow> (x # y) # ys)"

text \<open>
  \<^verbatim>\<open>impl Select for Server\<close>: for every name of the client, in its order, for every own name.
  The inner loop ends with the flag, or returns the flag and the name.
\<close>

fun server_select_inner :: "bytes \<Rightarrow> bytes list \<Rightarrow> bool \<Rightarrow> bool + (bool \<times> bytes)" where
  "server_select_inner c [] both_first = Inl both_first"
| "server_select_inner c (s # ss) both_first =
     (if c = s then Inr (both_first, s) else server_select_inner c ss False)"

fun server_select_loop :: "bytes list \<Rightarrow> bytes list \<Rightarrow> bool \<Rightarrow> (bool \<times> bytes) option" where
  "server_select_loop [] server_list both_first = None"
| "server_select_loop (c # cs) server_list both_first =
     (case server_select_inner c server_list both_first of
        Inr r \<Rightarrow> Some r
      | Inl both_first' \<Rightarrow> server_select_loop cs server_list both_first')"

definition server_select :: "bytes list \<Rightarrow> bytes \<Rightarrow> (bool \<times> bytes) option" where
  "server_select server_list client_list =
     server_select_loop (split_commas client_list) server_list True"

text \<open>\<^verbatim>\<open>impl Select for Client\<close>: for every own name, for every name of the server.\<close>

fun client_select_inner :: "bytes \<Rightarrow> bytes list \<Rightarrow> bool \<Rightarrow> bool + (bool \<times> bytes)" where
  "client_select_inner c [] both_first = Inl both_first"
| "client_select_inner c (s # ss) both_first =
     (if s = c then Inr (both_first, c) else client_select_inner c ss False)"

fun client_select_loop :: "bytes list \<Rightarrow> bytes list \<Rightarrow> bool \<Rightarrow> (bool \<times> bytes) option" where
  "client_select_loop [] server_list both_first = None"
| "client_select_loop (c # cs) server_list both_first =
     (case client_select_inner c server_list both_first of
        Inr r \<Rightarrow> Some r
      | Inl both_first' \<Rightarrow> client_select_loop cs server_list both_first')"

definition client_select :: "bytes list \<Rightarrow> bytes \<Rightarrow> (bool \<times> bytes) option" where
  "client_select client_list server_list =
     client_select_loop client_list (split_commas server_list) True"

section \<open>The KEXINIT packet\<close>

text \<open>\<^verbatim>\<open>Select::read_kex\<close>, over the selection of the implementing type.\<close>

definition read_kex ::
  "codec \<Rightarrow> (bytes list \<Rightarrow> bytes \<Rightarrow> (bool \<times> bytes) option) \<Rightarrow> bytes \<Rightarrow> preferred \<Rightarrow> names res" where
  "read_kex C select buffer pref =
     rbind (read_string C buffer 17) (\<lambda>(kex_string, p).
     case select (pf_kex pref) kex_string of
       None \<Rightarrow> Err (Thrussh E_NoCommonKexAlgo)
     | Some (kex_both_first, kex_algorithm) \<Rightarrow>
     rbind (read_string C buffer p) (\<lambda>(key_string, p).
     case select (pf_key pref) key_string of
       None \<Rightarrow> Err (Thrussh E_NoCommonKeyAlgo)
     | Some (key_both_first, key_algorithm) \<Rightarrow>
     rbind (read_string C buffer p) (\<lambda>(cipher_string, p).
     case select (pf_cipher pref) cipher_string of
       None \<Rightarrow> Err (Thrussh E_NoCommonCipher)
     | Some (_, cipher) \<Rightarrow>
     rbind (read_string C buffer p) (\<lambda>(_, p).
     rbind (read_string C buffer p) (\<lambda>(mac_string, p).
     let mac = map_option snd (select (pf_mac pref) mac_string) in
     rbind (read_string C buffer p) (\<lambda>(_, p).
     rbind (read_string C buffer p) (\<lambda>(cc_string, p).
     case select (pf_compression pref) cc_string of
       None \<Rightarrow> Err (Thrussh E_NoCommonCompression)
     | Some (_, cc) \<Rightarrow>
     rbind (read_string C buffer p) (\<lambda>(sc_string, p).
     case select (pf_compression pref) sc_string of
       None \<Rightarrow> Err (Thrussh E_NoCommonCompression)
     | Some (_, sc) \<Rightarrow>
     rbind (read_string C buffer p) (\<lambda>(_, p).
     rbind (read_string C buffer p) (\<lambda>(_, p).
     rbind (read_byte C buffer p) (\<lambda>(follows, p).
     let fol = (follows \<noteq> 0) in
       Ok \<lparr> nm_kex = kex_algorithm,
            nm_key = key_algorithm,
            nm_cipher = cipher,
            nm_mac = mac,
            nm_server_compression = compression_from_string sc,
            nm_client_compression = compression_from_string cc,
            ignore_guessed = (fol \<and> \<not> (kex_both_first \<and> key_both_first)) \<rparr>)))))))))))"

text \<open>
  \<^verbatim>\<open>write_kex\<close>. The sixteen random bytes come from openssl, whose \<^verbatim>\<open>rand_bytes\<close> may fail:
  they are an argument.
\<close>

definition write_kex :: "codec \<Rightarrow> preferred \<Rightarrow> bytes res \<Rightarrow> bytes \<Rightarrow> bytes res" where
  "write_kex C prefs rand buf =
     rbind rand (\<lambda>cookie.
       Ok (buf @ [MSG_KEXINIT] @ cookie @
           name_list C (pf_kex prefs) @
           name_list C (pf_key prefs) @
           name_list C (pf_cipher prefs) @
           name_list C (pf_cipher prefs) @
           name_list C (pf_mac prefs) @
           name_list C (pf_mac prefs) @
           name_list C (pf_compression prefs) @
           name_list C (pf_compression prefs) @
           name_list C [] @
           name_list C [] @
           [0] @ [0, 0, 0, 0]))"

end
