(* ===== verification/Negotiation_Props.thy ===== *)
theory Negotiation_Props
  imports Negotiation
begin

text \<open>
  What the negotiation promises. The trait \<^verbatim>\<open>Select\<close> is the locale \<open>selection\<close>: its clients
  rely on a selected name being offered by both sides, on a refusal meaning that there is no
  common name, and on the flag; the server's and the client's implementations provide it, and
  they agree with each other.
\<close>

section \<open>The trait\<close>

locale selection =
  fixes select :: "bytes list \<Rightarrow> bytes \<Rightarrow> (bool \<times> bytes) option"
  assumes sel_sound: "select own peer = Some (f, s) \<Longrightarrow>
        s \<in> set own \<and> s \<in> set (split_commas peer)"
    and sel_none: "select own peer = None \<Longrightarrow> set own \<inter> set (split_commas peer) = {}"
    and sel_flag: "select own peer = Some (f, s) \<Longrightarrow>
        f \<longleftrightarrow> hd own = hd (split_commas peer)"
begin

lemma sel_iff: "select own peer = None \<longleftrightarrow> set own \<inter> set (split_commas peer) = {}"
proof (cases "select own peer")
  case None
  then show ?thesis using sel_none by simp
next
  case (Some r)
  then show ?thesis using sel_sound [of own peer "fst r" "snd r"] by auto
qed

lemma sel_own: "select own peer = Some (f, s) \<Longrightarrow> s \<in> set own"
  using sel_sound by blast

text \<open>Every algorithm of a successful negotiation is one of the reader's own preferences.\<close>

lemma read_kex_own:
  assumes "read_kex C select buffer pref = Ok n"
  shows "nm_kex n \<in> set (pf_kex pref)" and "nm_key n \<in> set (pf_key pref)"
    and "nm_cipher n \<in> set (pf_cipher pref)"
    and "\<forall>m. nm_mac n = Some m \<longrightarrow> m \<in> set (pf_mac pref)"
  using assms unfolding read_kex_def Let_def
  by (auto elim!: rbind_OkE split: option.split_asm prod.split_asm dest!: sel_own)

end

section \<open>The two implementations\<close>

lemma server_select_inner_eq:
  "server_select_inner c ss b =
     (if c \<in> set ss then Inr (b \<and> hd ss = c, c) else Inl (b \<and> ss = []))"
  by (induction ss arbitrary: b) auto

lemma client_select_inner_eq: "client_select_inner c ss b = server_select_inner c ss b"
  by (induction ss arbitrary: b) auto

lemma server_select_loop_eq:
  "server_select_loop cs ss b =
     map_option (\<lambda>c. (b \<and> hd cs = hd ss, c)) (find (\<lambda>c. c \<in> set ss) cs)"
proof (induction cs arbitrary: b)
  case Nil
  then show ?case by simp
next
  case (Cons c cs)
  show ?case
  proof (cases "c \<in> set ss")
    case True
    then show ?thesis by (auto simp: server_select_inner_eq)
  next
    case False
    show ?thesis
    proof (cases ss)
      case Nil
      then have "find (\<lambda>c. c \<in> set ss) cs = None" by (simp add: find_None_iff)
      with Cons.IH False show ?thesis by (simp add: server_select_inner_eq)
    next
      case (Cons s rest)
      with False Cons.IH show ?thesis
        by (cases "find (\<lambda>c. c \<in> set ss) cs") (auto simp: server_select_inner_eq)
    qed
  qed
qed

lemma client_select_loop_eq: "client_select_loop cs ss b = server_select_loop cs ss b"
  by (induction cs arbitrary: b) (auto simp: client_select_inner_eq split: sum.split)

lemma split_commas_nonempty [simp]: "split_commas xs \<noteq> []"
  by (induction xs) (auto split: list.split)

lemma find_SomeD: "find P xs = Some x \<Longrightarrow> x \<in> set xs \<and> P x"
  by (induction xs) (auto split: if_splits)

interpretation server: selection server_select
  by unfold_locales
    (auto simp: server_select_def server_select_loop_eq find_None_iff dest!: find_SomeD)

interpretation client: selection client_select
  by unfold_locales
    (auto simp: client_select_def client_select_loop_eq server_select_loop_eq find_None_iff
      dest!: find_SomeD)

section \<open>Name lists\<close>

text \<open>A name as the protocol allows it: not empty and without a comma.\<close>

definition good_names :: "bytes list \<Rightarrow> bool" where
  "good_names ns \<longleftrightarrow> (\<forall>n \<in> set ns. n \<noteq> [] \<and> comma \<notin> set n)"

lemma split_commas_name:
  "comma \<notin> set n \<Longrightarrow> split_commas n = [n]"
  by (induction n) auto

lemma split_commas_append:
  "comma \<notin> set n \<Longrightarrow> split_commas (n @ comma # xs) = n # split_commas xs"
  by (induction n) auto

lemma split_join: "good_names ns \<Longrightarrow> ns \<noteq> [] \<Longrightarrow> split_commas (join_names ns) = ns"
  by (induction ns rule: join_names.induct)
    (auto simp: good_names_def split_commas_name [simplified] split_commas_append [simplified])

lemma split_join_set:
  "good_names ns \<Longrightarrow> set (split_commas (join_names ns)) = (if ns = [] then {[]} else set ns)"
  by (cases "ns = []") (simp_all add: split_join)

text \<open>
  The choice: the first name of the client that the server has, and the flag says whether both
  sides put the same name first.
\<close>

lemma server_select_names:
  assumes "good_names cl" and "good_names sl"
  shows "server_select sl (join_names cl) =
    map_option (\<lambda>c. (hd cl = hd sl, c)) (find (\<lambda>c. c \<in> set sl) cl)"
proof (cases "cl = []")
  case True
  have "[] \<notin> set sl" using assms(2) by (auto simp: good_names_def)
  with True show ?thesis by (simp add: server_select_def server_select_loop_eq)
next
  case False
  with assms(1) show ?thesis by (simp add: server_select_def split_join server_select_loop_eq)
qed

lemma client_select_names:
  assumes "good_names cl" and "good_names sl"
  shows "client_select cl (join_names sl) =
    map_option (\<lambda>c. (hd cl = hd sl, c)) (find (\<lambda>c. c \<in> set sl) cl)"
proof (cases "sl = []")
  case True
  have "find (\<lambda>c. c = []) cl = None" "find (\<lambda>c. False) cl = None"
    using assms(1) by (auto simp: good_names_def find_None_iff)
  with True show ?thesis by (simp add: client_select_def client_select_loop_eq server_select_loop_eq)
next
  case False
  with assms(2) show ?thesis
    by (simp add: client_select_def client_select_loop_eq split_join server_select_loop_eq)
qed

lemma select_agree:
  "good_names cl \<Longrightarrow> good_names sl \<Longrightarrow>
   server_select sl (join_names cl) = client_select cl (join_names sl)"
  by (simp add: server_select_names client_select_names)

section \<open>Reading a written KEXINIT\<close>

definition good_pref :: "preferred \<Rightarrow> bool" where
  "good_pref P \<longleftrightarrow>
     (\<forall>ns \<in> {pf_kex P, pf_key P, pf_cipher P, pf_mac P, pf_compression P}.
        good_names ns \<and> length (join_names ns) < 2 ^ 32)"

text \<open>The outcome of a negotiation, as a function of both preferences.\<close>

definition negotiated ::
  "(bytes list \<Rightarrow> bytes \<Rightarrow> (bool \<times> bytes) option) \<Rightarrow> preferred \<Rightarrow> preferred \<Rightarrow> names res" where
  "negotiated select own peer =
     (case select (pf_kex own) (join_names (pf_kex peer)) of
        None \<Rightarrow> Err (Thrussh E_NoCommonKexAlgo)
      | Some (_, kex) \<Rightarrow>
      case select (pf_key own) (join_names (pf_key peer)) of
        None \<Rightarrow> Err (Thrussh E_NoCommonKeyAlgo)
      | Some (_, key) \<Rightarrow>
      case select (pf_cipher own) (join_names (pf_cipher peer)) of
        None \<Rightarrow> Err (Thrussh E_NoCommonCipher)
      | Some (_, cipher) \<Rightarrow>
      case select (pf_compression own) (join_names (pf_compression peer)) of
        None \<Rightarrow> Err (Thrussh E_NoCommonCompression)
      | Some (_, cmp) \<Rightarrow>
        Ok \<lparr> nm_kex = kex, nm_key = key, nm_cipher = cipher,
             nm_mac = map_option snd (select (pf_mac own) (join_names (pf_mac peer))),
             nm_server_compression = compression_from_string cmp,
             nm_client_compression = compression_from_string cmp,
             ignore_guessed = False \<rparr>)"

context codec_laws
begin

lemma read_kex_written:
  assumes "write_kex C peer (Ok cookie) [] = Ok buffer" and "length cookie = 16"
    and "good_pref peer"
  shows "read_kex C select buffer own = negotiated select own peer"
proof -
  let ?k = "join_names (pf_kex peer)" and ?y = "join_names (pf_key peer)"
    and ?c = "join_names (pf_cipher peer)" and ?m = "join_names (pf_mac peer)"
    and ?z = "join_names (pf_compression peer)"
  have len: "length ?k < 2 ^ 32" "length ?y < 2 ^ 32" "length ?c < 2 ^ 32"
    "length ?m < 2 ^ 32" "length ?z < 2 ^ 32" "length ([] :: bytes) < 2 ^ 32"
    using assms(3) by (auto simp: good_pref_def)
  have buf: "buffer = (MSG_KEXINIT # cookie) @ ssh_string C ?k @ ssh_string C ?y @
      ssh_string C ?c @ ssh_string C ?c @ ssh_string C ?m @ ssh_string C ?m @
      ssh_string C ?z @ ssh_string C ?z @ ssh_string C [] @ ssh_string C [] @ 0 # [0, 0, 0, 0]"
    using assms(1) by (simp add: write_kex_def name_list_eq)
  have d0: "drop 17 buffer = ssh_string C ?k @ ssh_string C ?y @
      ssh_string C ?c @ ssh_string C ?c @ ssh_string C ?m @ ssh_string C ?m @
      ssh_string C ?z @ ssh_string C ?z @ ssh_string C [] @ ssh_string C [] @ 0 # [0, 0, 0, 0]"
    unfolding buf using assms(2) by simp
  obtain p1 where r1: "read_string C buffer 17 = Ok (?k, p1)" and d1: "drop p1 buffer = ssh_string C ?y @
      ssh_string C ?c @ ssh_string C ?c @ ssh_string C ?m @ ssh_string C ?m @
      ssh_string C ?z @ ssh_string C ?z @ ssh_string C [] @ ssh_string C [] @ 0 # [0, 0, 0, 0]"
    by (rule read_string_ex [OF d0 len(1)])
  note ex = read_string_ex
  obtain p2 where r2: "read_string C buffer p1 = Ok (?y, p2)" and d2: "drop p2 buffer =
      ssh_string C ?c @ ssh_string C ?c @ ssh_string C ?m @ ssh_string C ?m @
      ssh_string C ?z @ ssh_string C ?z @ ssh_string C [] @ ssh_string C [] @ 0 # [0, 0, 0, 0]"
    by (rule ex [OF d1 len(2)])
  obtain p3 where r3: "read_string C buffer p2 = Ok (?c, p3)" and d3: "drop p3 buffer =
      ssh_string C ?c @ ssh_string C ?m @ ssh_string C ?m @
      ssh_string C ?z @ ssh_string C ?z @ ssh_string C [] @ ssh_string C [] @ 0 # [0, 0, 0, 0]"
    by (rule ex [OF d2 len(3)])
  obtain p4 where r4: "read_string C buffer p3 = Ok (?c, p4)" and d4: "drop p4 buffer =
      ssh_string C ?m @ ssh_string C ?m @
      ssh_string C ?z @ ssh_string C ?z @ ssh_string C [] @ ssh_string C [] @ 0 # [0, 0, 0, 0]"
    by (rule ex [OF d3 len(3)])
  obtain p5 where r5: "read_string C buffer p4 = Ok (?m, p5)" and d5: "drop p5 buffer =
      ssh_string C ?m @ ssh_string C ?z @ ssh_string C ?z @ ssh_string C [] @
      ssh_string C [] @ 0 # [0, 0, 0, 0]"
    by (rule ex [OF d4 len(4)])
  obtain p6 where r6: "read_string C buffer p5 = Ok (?m, p6)" and d6: "drop p6 buffer =
      ssh_string C ?z @ ssh_string C ?z @ ssh_string C [] @ ssh_string C [] @ 0 # [0, 0, 0, 0]"
    by (rule ex [OF d5 len(4)])
  obtain p7 where r7: "read_string C buffer p6 = Ok (?z, p7)" and d7: "drop p7 buffer =
      ssh_string C ?z @ ssh_string C [] @ ssh_string C [] @ 0 # [0, 0, 0, 0]"
    by (rule ex [OF d6 len(5)])
  obtain p8 where r8: "read_string C buffer p7 = Ok (?z, p8)" and d8: "drop p8 buffer =
      ssh_string C [] @ ssh_string C [] @ 0 # [0, 0, 0, 0]"
    by (rule ex [OF d7 len(5)])
  obtain p9 where r9: "read_string C buffer p8 = Ok ([], p9)" and d9: "drop p9 buffer =
      ssh_string C [] @ 0 # [0, 0, 0, 0]"
    by (rule ex [OF d8 len(6)])
  obtain p10 where r10: "read_string C buffer p9 = Ok ([], p10)" and
    d10: "drop p10 buffer = 0 # [0, 0, 0, 0]"
    by (rule ex [OF d9 len(6)])
  obtain p11 where r11: "read_byte C buffer p10 = Ok (0, p11)"
    by (rule read_byte_ex [OF d10])
  show ?thesis
    unfolding read_kex_def negotiated_def
    by (simp add: r1 r2 r3 r4 r5 r6 r7 r8 r9 r10 r11 Let_def split: option.split)
qed

end

lemma negotiated_agree:
  assumes "good_pref P" and "good_pref Q"
  shows "negotiated server_select Q P = negotiated client_select P Q"
proof -
  note good = assms [unfolded good_pref_def]
  have "server_select (pf_kex Q) (join_names (pf_kex P)) =
      client_select (pf_kex P) (join_names (pf_kex Q))"
    using good by (intro select_agree) auto
  moreover have "server_select (pf_key Q) (join_names (pf_key P)) =
      client_select (pf_key P) (join_names (pf_key Q))"
    using good by (intro select_agree) auto
  moreover have "server_select (pf_cipher Q) (join_names (pf_cipher P)) =
      client_select (pf_cipher P) (join_names (pf_cipher Q))"
    using good by (intro select_agree) auto
  moreover have "server_select (pf_mac Q) (join_names (pf_mac P)) =
      client_select (pf_mac P) (join_names (pf_mac Q))"
    using good by (intro select_agree) auto
  moreover have "server_select (pf_compression Q) (join_names (pf_compression P)) =
      client_select (pf_compression P) (join_names (pf_compression Q))"
    using good by (intro select_agree) auto
  ultimately show ?thesis by (simp add: negotiated_def split: option.split)
qed

text \<open>
  C27. The two sides of a connection agree on the algorithms: when each reads the KEXINIT the
  other wrote, the client with its own and the server with its own preferences, both get the
  same result, either the same algorithms and compression for each direction, or the same
  error.
\<close>

theorem negotiation_agrees:
  assumes "codec_laws C"
    and "write_kex C P (Ok client_cookie) [] = Ok client_kex_init" and "length client_cookie = 16"
    and "write_kex C Q (Ok server_cookie) [] = Ok server_kex_init" and "length server_cookie = 16"
    and "good_pref P" and "good_pref Q"
  shows "read_kex C server_select client_kex_init Q = read_kex C client_select server_kex_init P"
  using codec_laws.read_kex_written [OF assms(1,2,3,6), of server_select Q]
    codec_laws.read_kex_written [OF assms(1,4,5,7), of client_select P]
    negotiated_agree [OF assms(6,7)]
  by simp

definition demo_pref :: preferred where
  "demo_pref = \<lparr> pf_kex = [[97]], pf_key = [[98], [99]], pf_cipher = [[100]],
     pf_mac = [], pf_compression = [ascii ''none''] \<rparr>"

definition demo_pref2 :: preferred where
  "demo_pref2 = \<lparr> pf_kex = [[97]], pf_key = [[99], [98]], pf_cipher = [[100]],
     pf_mac = [[101]], pf_compression = [ascii ''zlib'', ascii ''none''] \<rparr>"

lemma demo_pref_good: "good_pref demo_pref" "good_pref demo_pref2"
  by (simp_all add: good_pref_def demo_pref_def demo_pref2_def good_names_def)

theorem negotiation_agrees_witness:
  "case (write_kex rfc_codec demo_pref (Ok (replicate 16 1)) [],
         write_kex rfc_codec demo_pref2 (Ok (replicate 16 2)) []) of
     (Ok c, Ok s) \<Rightarrow>
       read_kex rfc_codec server_select c demo_pref2 = read_kex rfc_codec client_select s demo_pref
   | _ \<Rightarrow> False"
  using negotiation_agrees [OF rfc.codec_laws_axioms _ _ _ _ demo_pref_good]
  by (simp add: write_kex_def)

text \<open>
  The algorithm chosen is the first one of the client's list that the server offers too, on
  either side; and the flag that decides whether a guessed key exchange packet is kept is set
  exactly when both sides put the same name first.
\<close>

lemma selection_is_first_common:
  assumes "good_names cl" and "good_names sl"
  shows "server_select sl (join_names cl) =
      map_option (\<lambda>c. (hd cl = hd sl, c)) (find (\<lambda>c. c \<in> set sl) cl) \<and>
    client_select cl (join_names sl) =
      map_option (\<lambda>c. (hd cl = hd sl, c)) (find (\<lambda>c. c \<in> set sl) cl)"
  using server_select_names [OF assms] client_select_names [OF assms] by simp

text \<open>
  Whatever bytes the peer sends as its KEXINIT, an accepted negotiation only ever yields
  algorithms of the own preference lists, for the server and for the client.
\<close>

lemma negotiated_algorithms_are_own:
  assumes "read_kex C select buffer pref = Ok n"
    and "select = server_select \<or> select = client_select"
  shows "nm_kex n \<in> set (pf_kex pref) \<and> nm_key n \<in> set (pf_key pref) \<and>
    nm_cipher n \<in> set (pf_cipher pref) \<and>
    (\<forall>m. nm_mac n = Some m \<longrightarrow> m \<in> set (pf_mac pref))"
  using assms server.read_kex_own client.read_kex_own by metis

end
