(* ===== verification/Compression.thy ===== *)
theory Compression
  imports Negotiation
begin

text \<open>
  \<^verbatim>\<open>src/src/compression.rs\<close> with the feature \<^verbatim>\<open>flate2\<close>, which is the default. The library
  \<^verbatim>\<open>flate2\<close> is a parameter: its (de)compressor objects are states of the library, encoded as
  numbers, and one call of \<^verbatim>\<open>compress\<close> or \<^verbatim>\<open>decompress\<close> on an input and an output slice of a
  given size returns its status, how many bytes it consumed, what it wrote and the next state.
\<close>

datatype zstatus = Z_Ok | Z_BufError | Z_StreamEnd

record zresult =
  z_status :: "zstatus res"
  z_consumed :: nat
  z_written :: bytes
  z_state :: nat

record flate =
  deflate_new :: nat
  deflate_reset :: "nat \<Rightarrow> nat"
  deflate :: "nat \<Rightarrow> bytes \<Rightarrow> nat \<Rightarrow> zresult"
  inflate_new :: nat
  inflate_reset :: "nat \<Rightarrow> nat"
  inflate :: "nat \<Rightarrow> bytes \<Rightarrow> nat \<Rightarrow> zresult"

datatype compress = C_None | C_Zlib nat
datatype decompress = D_None | D_Zlib nat

fun init_compress :: "flate \<Rightarrow> compression \<Rightarrow> compress \<Rightarrow> compress" where
  "init_compress Z Compression_Zlib (C_Zlib c) = C_Zlib (deflate_reset Z c)"
| "init_compress Z Compression_Zlib C_None = C_Zlib (deflate_new Z)"
| "init_compress Z Compression_None c = C_None"

fun init_decompress :: "flate \<Rightarrow> compression \<Rightarrow> decompress \<Rightarrow> decompress" where
  "init_decompress Z Compression_Zlib (D_Zlib c) = D_Zlib (inflate_reset Z c)"
| "init_decompress Z Compression_Zlib D_None = D_Zlib (inflate_new Z)"
| "init_decompress Z Compression_None d = D_None"

section \<open>The loops\<close>

text \<open>
  The loop of \<^verbatim>\<open>Compress::compress\<close>: the state, the bytes consumed so far (\<^verbatim>\<open>n_in_\<close>), the bytes
  written so far (the first \<^verbatim>\<open>n_out_\<close> of the output) and the size of the output, which doubles
  whenever the library reports that it ran out of room. Nothing bounds the number of rounds:
  not returning is \<open>None\<close>.
\<close>

partial_function (option) compress_loop ::
  "flate \<Rightarrow> bytes \<Rightarrow> nat \<Rightarrow> nat \<Rightarrow> bytes \<Rightarrow> nat \<Rightarrow> (bytes res \<times> nat) option" where
  "compress_loop Z input st n_in out sz =
     (if length input < n_in \<or> sz < length out then Some (Panic, st)
      else let r = deflate Z st (drop n_in input) (sz - length out);
               n_in' = n_in + z_consumed r;
               out' = out @ z_written r
           in case z_status r of
                Ok Z_BufError \<Rightarrow> compress_loop Z input (z_state r) n_in' out' (sz * 2)
              | Ok _ \<Rightarrow> Some (if length out' \<le> sz then Ok out' else Panic, z_state r)
              | Err e \<Rightarrow> Some (Err e, z_state r)
              | Panic \<Rightarrow> Some (Panic, z_state r)
              | Diverge \<Rightarrow> Some (Diverge, z_state r))"

declare compress_loop.simps [code]

definition compress_packet :: "flate \<Rightarrow> compress \<Rightarrow> bytes \<Rightarrow> bytes res \<times> compress" where
  "compress_packet Z c input =
     (case c of
        C_None \<Rightarrow> (Ok input, C_None)
      | C_Zlib st \<Rightarrow>
          (case compress_loop Z input st 0 [] (length input + 10) of
             None \<Rightarrow> (Diverge, c)
           | Some (r, st') \<Rightarrow> (r, C_Zlib st')))"

text \<open>
  The loop of \<^verbatim>\<open>Decompress::decompress\<close>: it continues, with a doubled output, as long as the
  library reports \<^verbatim>\<open>Status::Ok\<close>.
\<close>

partial_function (option) decompress_loop ::
  "flate \<Rightarrow> bytes \<Rightarrow> nat \<Rightarrow> nat \<Rightarrow> bytes \<Rightarrow> nat \<Rightarrow> (bytes res \<times> nat) option" where
  "decompress_loop Z input st n_in out sz =
     (if length input < n_in \<or> sz < length out then Some (Panic, st)
      else let r = inflate Z st (drop n_in input) (sz - length out);
               n_in' = n_in + z_consumed r;
               out' = out @ z_written r
           in case z_status r of
                Ok Z_Ok \<Rightarrow> decompress_loop Z input (z_state r) n_in' out' (sz * 2)
              | Ok _ \<Rightarrow> Some (if length out' \<le> sz then Ok out' else Panic, z_state r)
              | Err e \<Rightarrow> Some (Err e, z_state r)
              | Panic \<Rightarrow> Some (Panic, z_state r)
              | Diverge \<Rightarrow> Some (Diverge, z_state r))"

declare decompress_loop.simps [code]

definition decompress_packet :: "flate \<Rightarrow> decompress \<Rightarrow> bytes \<Rightarrow> bytes res \<times> decompress" where
  "decompress_packet Z d input =
     (case d of
        D_None \<Rightarrow> (Ok input, D_None)
      | D_Zlib st \<Rightarrow>
          (case decompress_loop Z input st 0 [] (length input) of
             None \<Rightarrow> (Diverge, d)
           | Some (r, st') \<Rightarrow> (r, D_Zlib st')))"

section \<open>The loops return\<close>

text \<open>
  What the documentation of the library says of a call: it consumes no more than the input and
  writes no more than the output; it neither panics nor runs forever.
\<close>

definition z_sane :: "(nat \<Rightarrow> bytes \<Rightarrow> nat \<Rightarrow> zresult) \<Rightarrow> bool" where
  "z_sane f \<longleftrightarrow> (\<forall>st inp n.
     z_consumed (f st inp n) \<le> length inp \<and> length (z_written (f st inp n)) \<le> n \<and>
     z_status (f st inp n) \<noteq> Panic \<and> z_status (f st inp n) \<noteq> Diverge)"

text \<open>
  A compressor asks for room only when it does not have it: with at least \<open>room\<close> bytes of
  output it never reports a lack of room, and while it reports one the bytes it has written
  stay below \<open>room\<close>.
\<close>

definition deflate_bounded :: "flate \<Rightarrow> nat \<Rightarrow> bool" where
  "deflate_bounded Z room \<longleftrightarrow> (\<forall>st inp n.
     z_status (deflate Z st inp n) = Ok Z_BufError \<longrightarrow> n < room)"

text \<open>
  A decompressor reports \<^verbatim>\<open>Status::Ok\<close> only when it made progress, and what it can still
  produce from its state and the rest of the input is finite: \<open>pot\<close> bounds the number of such
  calls.
\<close>

definition inflate_progress :: "flate \<Rightarrow> (nat \<Rightarrow> bytes \<Rightarrow> nat) \<Rightarrow> bool" where
  "inflate_progress Z pot \<longleftrightarrow> (\<forall>st inp n.
     z_status (inflate Z st inp n) = Ok Z_Ok \<longrightarrow>
     pot (z_state (inflate Z st inp n)) (drop (z_consumed (inflate Z st inp n)) inp) < pot st inp)"

lemma zstatus_cases:
  assumes "s \<noteq> Panic" and "s \<noteq> Diverge"
  obtains "s = Ok Z_Ok" | "s = Ok Z_BufError" | "s = Ok Z_StreamEnd" | e where "s = Err e"
proof (cases s)
  case (Ok x)
  with that show thesis by (cases x) auto
qed (use assms that in auto)

lemma z_sane_call:
  assumes "z_sane f" and "n_in \<le> length input" and "length out \<le> sz"
    and r: "r = f st (drop n_in input) (sz - length out)"
  shows "n_in + z_consumed r \<le> length input" and "length (out @ z_written r) \<le> sz"
    and "z_status r \<noteq> Panic" and "z_status r \<noteq> Diverge"
proof -
  have "z_consumed r \<le> length (drop n_in input)" "length (z_written r) \<le> sz - length out"
    and np: "z_status r \<noteq> Panic" "z_status r \<noteq> Diverge"
    using assms(1) unfolding z_sane_def r by blast+
  with assms(2,3) show "n_in + z_consumed r \<le> length input" and "length (out @ z_written r) \<le> sz"
    by auto
  show "z_status r \<noteq> Panic" and "z_status r \<noteq> Diverge" by (fact np)+
qed

lemma decompress_loop_returns:
  assumes "z_sane (inflate Z)" and "inflate_progress Z pot"
    and "n_in \<le> length input" and "length out \<le> sz"
  shows "\<exists>r st'. decompress_loop Z input st n_in out sz = Some (r, st') \<and>
    r \<noteq> Panic \<and> r \<noteq> Diverge"
  using assms(3,4)
proof (induction "pot st (drop n_in input)" arbitrary: st n_in out sz rule: less_induct)
  case less
  let ?r = "inflate Z st (drop n_in input) (sz - length out)"
  have c: "n_in + z_consumed ?r \<le> length input"
    and w: "length (out @ z_written ?r) \<le> sz"
    and np: "z_status ?r \<noteq> Panic" "z_status ?r \<noteq> Diverge"
    by (rule z_sane_call [OF assms(1) less.prems(1,2) refl])+
  show ?case
  proof (cases "z_status ?r = Ok Z_Ok")
    case True
    then have "pot (z_state ?r) (drop (z_consumed ?r) (drop n_in input)) < pot st (drop n_in input)"
      using assms(2) unfolding inflate_progress_def by blast
    then have "pot (z_state ?r) (drop (n_in + z_consumed ?r) input) < pot st (drop n_in input)"
      by (simp add: add.commute)
    from less.hyps [OF this c, of "out @ z_written ?r" "sz * 2"] w True less.prems
    show ?thesis by (subst decompress_loop.simps) (simp add: Let_def)
  next
    case False
    then show ?thesis
      using less.prems w False
      by (cases rule: zstatus_cases [OF np]) (simp_all add: decompress_loop.simps [of Z input st n_in out sz] Let_def)
  qed
qed

lemma compress_loop_returns:
  assumes "z_sane (deflate Z)" and "deflate_bounded Z room"
    and "n_in \<le> length input" and "length out \<le> sz" and "0 < sz"
  shows "\<exists>r st'. compress_loop Z input st n_in out sz = Some (r, st') \<and>
    r \<noteq> Panic \<and> r \<noteq> Diverge"
  using assms(3-)
proof (induction "2 * (room - (sz - length out)) + (if out = [] then 1 else 0)" arbitrary: st n_in out sz rule: less_induct)
  case less
  let ?r = "deflate Z st (drop n_in input) (sz - length out)"
  have c: "n_in + z_consumed ?r \<le> length input"
    and w: "length (out @ z_written ?r) \<le> sz"
    and np: "z_status ?r \<noteq> Panic" "z_status ?r \<noteq> Diverge"
    by (rule z_sane_call [OF assms(1) less.prems(1,2) refl])+
  show ?case
  proof (cases "z_status ?r = Ok Z_BufError")
    case True
    then have r: "sz - length out < room"
      using assms(2) unfolding deflate_bounded_def by blast
    define o' where "o' = out @ z_written ?r"
    have o': "length o' \<le> sz" "o' = [] \<Longrightarrow> out = []" using w by (simp_all add: o'_def)
    have "2 * (room - (sz * 2 - length o')) + (if o' = [] then 1 else 0) <
        2 * (room - (sz - length out)) + (if out = [] then 1 else 0)"
      using less.prems(3) r o' by (cases out; cases "o' = []"; simp)
    then have "2 * (room - (sz * 2 - length (out @ z_written ?r))) +
        (if out @ z_written ?r = [] then 1 else 0) <
        2 * (room - (sz - length out)) + (if out = [] then 1 else 0)"
      unfolding o'_def .
    from less.hyps [OF this c, of "z_state ?r"]
    have "\<exists>r st'. compress_loop Z input (z_state ?r) (n_in + z_consumed ?r)
        (out @ z_written ?r) (sz * 2) = Some (r, st') \<and> r \<noteq> Panic \<and> r \<noteq> Diverge"
      using le_trans [OF w, of "sz * 2"] less.prems(3) by simp
    moreover have "compress_loop Z input st n_in out sz =
        compress_loop Z input (z_state ?r) (n_in + z_consumed ?r) (out @ z_written ?r) (sz * 2)"
      using less.prems(1,2) True
      by (simp add: compress_loop.simps [of Z input st n_in out sz] Let_def)
    ultimately show ?thesis by simp
  next
    case False
    then show ?thesis
      using less.prems w False
      by (cases rule: zstatus_cases [OF np]) (simp_all add: compress_loop.simps [of Z input st n_in out sz] Let_def)
  qed
qed

end
