(* ===== verification/Kex.thy ===== *)
theory Kex
  imports Cipher Msg Compression
begin

text \<open>
  \<^verbatim>\<open>src/src/kex.rs\<close>: the Curve25519 key exchange, the exchange hash, and the derivation of
  the cipher keys. The libraries a session uses are collected in the record \<open>deps\<close>; what
  a single step takes from outside, the random bytes and the time, in the record \<open>world\<close>: a
  step draws at most one cookie of sixteen bytes and one secret of thirty-two, so \<open>w_rand n\<close> is
  what \<^verbatim>\<open>openssl::rand::rand_bytes\<close> puts into a buffer of \<open>n\<close> bytes during the step.
\<close>

record deps =
  d_codec :: codec
  d_sodium :: sodium
  d_keys :: keys_lib
  d_sha256 :: "bytes \<Rightarrow> bytes res"
  d_flate :: flate

record world =
  w_rand :: "nat \<Rightarrow> bytes res"
  w_now :: nat

section \<open>The exchange\<close>

record exchange =
  client_id :: bytes
  server_id :: bytes
  client_kex_init :: bytes
  server_kex_init :: bytes
  client_ephemeral :: bytes
  server_ephemeral :: bytes

definition exchange_new :: exchange where
  "exchange_new = \<lparr> client_id = [], server_id = [], client_kex_init = [], server_kex_init = [],
     client_ephemeral = [], server_ephemeral = [] \<rparr>"

record algorithm =
  local_secret :: "bytes option"
  shared_secret :: "bytes option"

section \<open>Diffie-Hellman\<close>

definition server_dh ::
  "deps \<Rightarrow> world \<Rightarrow> exchange \<Rightarrow> bytes \<Rightarrow> (algorithm \<times> exchange) res" where
  "server_dh D W ex payload =
     rbind (index payload 0) (\<lambda>b0.
     rassert (b0 = MSG_KEX_ECDH_INIT)
       (rbind (slice_from payload 1) (\<lambda>p1.
        rassert (4 \<le> length p1)
          (let pubkey_len = as_usize (be_u32 (d_codec D) p1) in
           rbind (slice payload 5 (5 + pubkey_len)) (\<lambda>client_pubkey.
           rassert (length client_pubkey = 32)
             (rbind (w_rand W 32) (\<lambda>server_secret.
                let server_pubkey = scalarmult_base (d_sodium D) server_secret;
                    ex' = ex\<lparr> server_ephemeral := server_pubkey \<rparr>;
                    shared = scalarmult (d_sodium D) server_secret client_pubkey
                in Ok (\<lparr> local_secret = None, shared_secret = Some shared \<rparr>, ex'))))))))"

text \<open>The result: the algorithm, the new \<^verbatim>\<open>client_ephemeral\<close> and the new \<^verbatim>\<open>buf\<close>.\<close>

definition client_dh :: "deps \<Rightarrow> world \<Rightarrow> bytes \<Rightarrow> (algorithm \<times> bytes \<times> bytes) res" where
  "client_dh D W buf =
     rbind (w_rand W 32) (\<lambda>client_secret.
       let client_pubkey = scalarmult_base (d_sodium D) client_secret
       in Ok (\<lparr> local_secret = Some client_secret, shared_secret = None \<rparr>,
              client_pubkey,
              buf @ [MSG_KEX_ECDH_INIT] @ ssh_string (d_codec D) client_pubkey))"

definition compute_shared_secret :: "deps \<Rightarrow> algorithm \<Rightarrow> bytes \<Rightarrow> algorithm res" where
  "compute_shared_secret D a remote_pubkey =
     rbind (runwrap (local_secret a)) (\<lambda>secret.
     rassert (length remote_pubkey = 32)
       (Ok \<lparr> local_secret = None,
             shared_secret = Some (scalarmult (d_sodium D) secret remote_pubkey) \<rparr>))"

section \<open>The exchange hash\<close>

definition shared_mpint :: "deps \<Rightarrow> algorithm \<Rightarrow> bytes" where
  "shared_mpint D a =
     (case shared_secret a of None \<Rightarrow> [] | Some s \<Rightarrow> ssh_mpint (d_codec D) s)"

text \<open>\<open>push\<close> is the key's \<^verbatim>\<open>push_to\<close>: the buffer with the encoded key appended.\<close>

definition compute_exchange_hash ::
  "deps \<Rightarrow> algorithm \<Rightarrow> (bytes \<Rightarrow> bytes res) \<Rightarrow> exchange \<Rightarrow> bytes res" where
  "compute_exchange_hash D a push ex =
     (let C = d_codec D in
      rbind (push (ssh_string C (client_id ex) @
                   ssh_string C (server_id ex) @
                   ssh_string C (client_kex_init ex) @
                   ssh_string C (server_kex_init ex))) (\<lambda>buffer.
      d_sha256 D (buffer @
                  ssh_string C (client_ephemeral ex) @
                  ssh_string C (server_ephemeral ex) @
                  shared_mpint D a)))"

section \<open>Deriving the keys\<close>

text \<open>
  The loop that extends the key until it has \<open>len\<close> bytes. It ends when the hash function returns
  something; if it returned nothing, it would not, so not returning is \<open>None\<close>.
\<close>

partial_function (option) extend_key ::
  "deps \<Rightarrow> bytes \<Rightarrow> nat \<Rightarrow> bytes \<Rightarrow> bytes res option" where
  "extend_key D prefix len key =
     (if length key < len
      then case d_sha256 D (prefix @ key) of
             Ok h \<Rightarrow> extend_key D prefix len (key @ h)
           | Err e \<Rightarrow> Some (Err e)
           | Panic \<Rightarrow> Some Panic
           | Diverge \<Rightarrow> Some Diverge
      else Some (Ok key))"

declare extend_key.simps [code]

definition compute_key ::
  "deps \<Rightarrow> algorithm \<Rightarrow> bytes \<Rightarrow> bytes \<Rightarrow> u8 \<Rightarrow> nat \<Rightarrow> bytes res" where
  "compute_key D a session_id exchange_hash c len =
     rbind (d_sha256 D (shared_mpint D a @ exchange_hash @ [c] @ session_id)) (\<lambda>key.
       case extend_key D (shared_mpint D a @ exchange_hash) len key of
         None \<Rightarrow> Diverge
       | Some r \<Rightarrow> r)"

text \<open>\<^verbatim>\<open>chacha20poly1305::CIPHER.key_len\<close>\<close>

definition CHACHA_KEY_LEN :: nat where "CHACHA_KEY_LEN = 64"

definition compute_keys ::
  "deps \<Rightarrow> algorithm \<Rightarrow> bytes \<Rightarrow> bytes \<Rightarrow> bytes \<Rightarrow> bool \<Rightarrow> cipher_pair res" where
  "compute_keys D a session_id exchange_hash cipher is_server =
     (if cipher \<noteq> CHACHA20POLY1305 then Panic
      else let (l2r, r2l) = (if is_server then (of_char CHR ''D'', of_char CHR ''C'')
                             else (of_char CHR ''C'', of_char CHR ''D''))
           in rbind (compute_key D a session_id exchange_hash l2r CHACHA_KEY_LEN) (\<lambda>k1.
              rbind (make_sealing_cipher (d_sodium D) k1) (\<lambda>sc.
              rbind (compute_key D a session_id exchange_hash r2l CHACHA_KEY_LEN) (\<lambda>k2.
              rbind (make_opening_cipher (d_sodium D) k2) (\<lambda>oc.
              Ok \<lparr> local_to_remote = sc, remote_to_local = oc \<rparr>)))))"

end
