(* ===== verification/Auth.thy ===== *)
theory Auth
  imports Codec Keys_Lib
begin

unbundle bit_operations_syntax

text \<open>
  \<^verbatim>\<open>src/src/auth.rs\<close>: the set of authentication methods as bit flags, its iterator and its
  wire names, and the state of an authentication dialogue.
\<close>

section \<open>Sets of methods\<close>

text \<open>
  A \<^verbatim>\<open>MethodSet\<close> is its bits. \<open>ms_contains\<close>, \<open>ms_remove\<close>, \<open>ms_minus\<close> and \<open>ms_all\<close> are the
  operations the macro \<^verbatim>\<open>bitflags!\<close> generates.
\<close>

type_synonym method_set = u32

definition MS_NONE :: method_set where "MS_NONE = 1"
definition MS_PASSWORD :: method_set where "MS_PASSWORD = 2"
definition MS_PUBLICKEY :: method_set where "MS_PUBLICKEY = 4"
definition MS_HOSTBASED :: method_set where "MS_HOSTBASED = 8"
definition MS_KEYBOARD_INTERACTIVE :: method_set where "MS_KEYBOARD_INTERACTIVE = 16"

lemmas method_flags = MS_NONE_def MS_PASSWORD_def MS_PUBLICKEY_def MS_HOSTBASED_def
  MS_KEYBOARD_INTERACTIVE_def

definition ms_all :: method_set where
  "ms_all = MS_NONE OR MS_PASSWORD OR MS_PUBLICKEY OR MS_HOSTBASED OR MS_KEYBOARD_INTERACTIVE"

definition ms_contains :: "method_set \<Rightarrow> method_set \<Rightarrow> bool" where
  "ms_contains y x \<longleftrightarrow> y AND x = x"

definition ms_minus :: "method_set \<Rightarrow> method_set \<Rightarrow> method_set" where
  "ms_minus y x = y AND NOT x"

definition ms_insert :: "method_set \<Rightarrow> method_set \<Rightarrow> method_set" where
  "ms_insert y x = y OR x"

text \<open>\<^verbatim>\<open>Iterator::next\<close>: the method returned and the set that remains.\<close>

definition ms_next :: "method_set \<Rightarrow> method_set option \<times> method_set" where
  "ms_next y =
     (if ms_contains y MS_NONE then (Some MS_NONE, ms_minus y MS_NONE)
      else if ms_contains y MS_PASSWORD then (Some MS_PASSWORD, ms_minus y MS_PASSWORD)
      else if ms_contains y MS_PUBLICKEY then (Some MS_PUBLICKEY, ms_minus y MS_PUBLICKEY)
      else if ms_contains y MS_HOSTBASED then (Some MS_HOSTBASED, ms_minus y MS_HOSTBASED)
      else if ms_contains y MS_KEYBOARD_INTERACTIVE
        then (Some MS_KEYBOARD_INTERACTIVE, ms_minus y MS_KEYBOARD_INTERACTIVE)
      else (None, y))"

definition ms_bytes :: "method_set \<Rightarrow> bytes" where
  "ms_bytes m =
     (if m = MS_NONE then ascii ''none''
      else if m = MS_PASSWORD then ascii ''password''
      else if m = MS_PUBLICKEY then ascii ''publickey''
      else if m = MS_HOSTBASED then ascii ''hostbased''
      else if m = MS_KEYBOARD_INTERACTIVE then ascii ''keyboard-interactive''
      else [])"

definition ms_from_bytes :: "bytes \<Rightarrow> method_set option" where
  "ms_from_bytes b =
     (if b = ascii ''none'' then Some MS_NONE
      else if b = ascii ''password'' then Some MS_PASSWORD
      else if b = ascii ''publickey'' then Some MS_PUBLICKEY
      else if b = ascii ''hostbased'' then Some MS_HOSTBASED
      else if b = ascii ''keyboard-interactive'' then Some MS_KEYBOARD_INTERACTIVE
      else None)"

text \<open>
  \<^verbatim>\<open>extend_list\<close> consumes the iterator and writes the name of every method. At most five
  calls return a method (\<open>ms_names_all\<close> below), so five rounds consume any set.
\<close>

fun ms_collect :: "nat \<Rightarrow> method_set \<Rightarrow> method_set list" where
  "ms_collect 0 y = []"
| "ms_collect (Suc n) y =
     (case ms_next y of (None, _) \<Rightarrow> [] | (Some m, y') \<Rightarrow> m # ms_collect n y')"

definition ms_methods :: "method_set \<Rightarrow> method_set list" where
  "ms_methods y = ms_collect 5 y"

definition ms_names :: "method_set \<Rightarrow> bytes list" where
  "ms_names y = map ms_bytes (ms_methods y)"

section \<open>Authentication methods and requests\<close>

datatype auth_method =
    Method_Password bytes
  | Method_PublicKey key_pair
  | Method_FuturePublicKey public_key

datatype current_request =
    CR_PublicKey (cr_key: bytes) (cr_algo: bytes) (cr_sent_pk_ok: bool)
  | CR_KeyboardInteractive (cr_submethods: bytes)

record auth_request =
  ar_methods :: method_set
  ar_partial_success :: bool
  ar_current :: "current_request option"
  ar_rejection_count :: nat

section \<open>Facts\<close>

lemma flag_bit:
  "ms_contains y MS_NONE \<longleftrightarrow> bit y 0"
  "ms_contains y MS_PASSWORD \<longleftrightarrow> bit y 1"
  "ms_contains y MS_PUBLICKEY \<longleftrightarrow> bit y 2"
  "ms_contains y MS_HOSTBASED \<longleftrightarrow> bit y 3"
  "ms_contains y MS_KEYBOARD_INTERACTIVE \<longleftrightarrow> bit y 4"
proof -
  have p: "y AND push_bit n 1 = push_bit n 1 \<longleftrightarrow> bit y n" if "n < 32" for n
  proof
    assume "y AND push_bit n 1 = push_bit n 1"
    then have "bit (y AND push_bit n 1) n = bit (push_bit n 1 :: u32) n" by simp
    with that show "bit y n" by (simp add: bit_simps)
  next
    assume "bit y n"
    then show "y AND push_bit n 1 = push_bit n 1"
      by (intro bit_word_eqI) (auto simp: bit_simps)
  qed
  show "ms_contains y MS_NONE \<longleftrightarrow> bit y 0"
    using p [of 0] by (simp add: ms_contains_def method_flags)
  show "ms_contains y MS_PASSWORD \<longleftrightarrow> bit y 1"
    using p [of 1] by (simp add: ms_contains_def method_flags)
  show "ms_contains y MS_PUBLICKEY \<longleftrightarrow> bit y 2"
    using p [of 2] by (simp add: ms_contains_def method_flags)
  show "ms_contains y MS_HOSTBASED \<longleftrightarrow> bit y 3"
    using p [of 3] by (simp add: ms_contains_def method_flags)
  show "ms_contains y MS_KEYBOARD_INTERACTIVE \<longleftrightarrow> bit y 4"
    using p [of 4] by (simp add: ms_contains_def method_flags)
qed

lemma minus_bit:
  "bit (ms_minus y MS_NONE) n \<longleftrightarrow> bit y n \<and> n \<noteq> 0"
  "bit (ms_minus y MS_PASSWORD) n \<longleftrightarrow> bit y n \<and> n \<noteq> 1"
  "bit (ms_minus y MS_PUBLICKEY) n \<longleftrightarrow> bit y n \<and> n \<noteq> 2"
  "bit (ms_minus y MS_HOSTBASED) n \<longleftrightarrow> bit y n \<and> n \<noteq> 3"
  "bit (ms_minus y MS_KEYBOARD_INTERACTIVE) n \<longleftrightarrow> bit y n \<and> n \<noteq> 4"
proof -
  have p: "bit (y AND NOT (push_bit k 1)) n \<longleftrightarrow> bit y n \<and> n \<noteq> k" if "k < 32" for k
    using that bit_imp_le_length [of y n] by (auto simp: bit_simps)
  show "bit (ms_minus y MS_NONE) n \<longleftrightarrow> bit y n \<and> n \<noteq> 0"
    using p [of 0] by (simp add: ms_minus_def method_flags)
  show "bit (ms_minus y MS_PASSWORD) n \<longleftrightarrow> bit y n \<and> n \<noteq> 1"
    using p [of 1] by (simp add: ms_minus_def method_flags)
  show "bit (ms_minus y MS_PUBLICKEY) n \<longleftrightarrow> bit y n \<and> n \<noteq> 2"
    using p [of 2] by (simp add: ms_minus_def method_flags)
  show "bit (ms_minus y MS_HOSTBASED) n \<longleftrightarrow> bit y n \<and> n \<noteq> 3"
    using p [of 3] by (simp add: ms_minus_def method_flags)
  show "bit (ms_minus y MS_KEYBOARD_INTERACTIVE) n \<longleftrightarrow> bit y n \<and> n \<noteq> 4"
    using p [of 4] by (simp add: ms_minus_def method_flags)
qed

text \<open>The iterator visits exactly the methods in the set, each once, in a fixed order.\<close>

lemma ms_methods_eq:
  "ms_methods y = filter (ms_contains y)
     [MS_NONE, MS_PASSWORD, MS_PUBLICKEY, MS_HOSTBASED, MS_KEYBOARD_INTERACTIVE]"
  by (auto simp: ms_methods_def eval_nat_numeral(2-3) ms_next_def flag_bit minus_bit)

lemma ms_from_bytes_bytes:
  "m \<in> {MS_NONE, MS_PASSWORD, MS_PUBLICKEY, MS_HOSTBASED, MS_KEYBOARD_INTERACTIVE} \<Longrightarrow>
   ms_from_bytes (ms_bytes m) = Some m"
  by (auto simp: ms_from_bytes_def ms_bytes_def method_flags)

lemma ms_contains_minus: "ms_contains (ms_minus y x) x \<longleftrightarrow> x = 0"
  by (auto simp: ms_contains_def ms_minus_def bit_eq_iff bit_simps)

end
