(* ===== verification/Session.thy ===== *)
theory Session
  imports Kex Auth
begin

text \<open>
  The data of \<^verbatim>\<open>src/src/session.rs\<close>: the states of a key exchange, the encrypted state of a
  connection with its channels and its queue of outgoing packets, and what client and server
  sessions have in common.
\<close>

section \<open>The states of a key exchange\<close>

record kex_init =
  ki_algo :: "names option"
  ki_exchange :: exchange
  ki_session_id :: "bytes option"
  ki_sent :: bool

record kex_dh =
  kd_exchange :: exchange
  kd_names :: names
  kd_key :: nat
  kd_session_id :: "bytes option"

record kex_dh_done =
  kdd_exchange :: exchange
  kdd_kex :: algorithm
  kdd_key :: nat
  kdd_session_id :: "bytes option"
  kdd_names :: names

record new_keys =
  nk_exchange :: exchange
  nk_names :: names
  nk_kex :: algorithm
  nk_key :: nat
  nk_cipher :: cipher_pair
  nk_session_id :: bytes
  nk_received :: bool
  nk_sent :: bool

datatype kex =
    Kex_KexInit kex_init
  | Kex_KexDh kex_dh
  | Kex_KexDhDone kex_dh_done
  | Kex_NewKeys new_keys

definition exchange_clear :: "exchange \<Rightarrow> exchange" where
  "exchange_clear ex = ex\<lparr> client_kex_init := [], server_kex_init := [],
     client_ephemeral := [], server_ephemeral := [] \<rparr>"

definition received_rekey :: "exchange \<Rightarrow> names \<Rightarrow> bytes \<Rightarrow> kex_init" where
  "received_rekey ex algo sid =
     \<lparr> ki_algo = Some algo, ki_exchange = exchange_clear ex, ki_session_id = Some sid,
       ki_sent = False \<rparr>"

definition initiate_rekey :: "exchange \<Rightarrow> bytes \<Rightarrow> kex_init" where
  "initiate_rekey ex sid =
     \<lparr> ki_algo = None, ki_exchange = exchange_clear ex, ki_session_id = Some sid,
       ki_sent = True \<rparr>"

text \<open>\<^verbatim>\<open>KexDhDone::compute_keys\<close>: the first exchange hash of a connection is its session id.\<close>

definition kdd_compute_keys :: "deps \<Rightarrow> kex_dh_done \<Rightarrow> bytes \<Rightarrow> bool \<Rightarrow> new_keys res" where
  "kdd_compute_keys D k hash is_server =
     (let session_id = (case kdd_session_id k of Some s \<Rightarrow> s | None \<Rightarrow> hash) in
      rbind (compute_keys D (kdd_kex k) session_id hash (nm_cipher (kdd_names k)) is_server) (\<lambda>c.
      Ok \<lparr> nk_exchange = kdd_exchange k, nk_names = kdd_names k, nk_kex = kdd_kex k,
           nk_key = kdd_key k, nk_cipher = c, nk_session_id = session_id,
           nk_received = False, nk_sent = False \<rparr>))"

section \<open>The encrypted state\<close>

datatype encrypted_state =
    WaitingServiceRequest (ws_sent: bool) (ws_accepted: bool)
  | WaitingAuthRequest auth_request
  | InitCompression
  | Authenticated

text \<open>The scratch buffer \<^verbatim>\<open>compress_buffer\<close> carries nothing from one packet to the next.\<close>

record encrypted =
  e_state :: encrypted_state
  e_exchange :: "exchange option"
  e_kex :: algorithm
  e_key :: nat
  e_mac :: "bytes option"
  e_session_id :: bytes
  e_rekey :: "kex option"
  channels :: "channel_id \<rightharpoonup> channel"
  last_channel_id :: u32
  e_wants_reply :: bool
  e_write :: bytes
  e_write_cursor :: nat
  last_rekey :: nat
  server_compression :: compression
  client_compression :: compression
  e_compress :: compress
  e_decompress :: decompress

record 'c common_session =
  auth_user :: bytes
  config :: 'c
  cs_encrypted :: "encrypted option"
  cs_auth_method :: "auth_method option"
  write_buffer :: sshbuffer
  cs_kex :: "kex option"
  cs_cipher :: cipher_pair
  cs_wants_reply :: bool
  disconnected :: bool

text \<open>\<^verbatim>\<open>CommonSession::newkeys\<close>, \<^verbatim>\<open>CommonSession::encrypted\<close>\<close>

definition cs_newkeys :: "new_keys \<Rightarrow> 'c common_session \<Rightarrow> 'c common_session" where
  "cs_newkeys nk s =
     (case cs_encrypted s of
        None \<Rightarrow> s
      | Some enc \<Rightarrow>
          s\<lparr> cs_encrypted := Some (enc\<lparr> e_exchange := Some (nk_exchange nk), e_kex := nk_kex nk,
               e_key := nk_key nk, e_mac := nm_mac (nk_names nk) \<rparr>),
             cs_cipher := nk_cipher nk \<rparr>)"

definition encrypted_new :: "nat \<Rightarrow> encrypted_state \<Rightarrow> new_keys \<Rightarrow> encrypted" where
  "encrypted_new now state nk = \<lparr>
     e_state = state,
     e_exchange = Some (nk_exchange nk),
     e_kex = nk_kex nk,
     e_key = nk_key nk,
     e_mac = nm_mac (nk_names nk),
     e_session_id = nk_session_id nk,
     e_rekey = None,
     channels = (\<lambda>_. None),
     last_channel_id = 1,
     e_wants_reply = False,
     e_write = [],
     e_write_cursor = 0,
     last_rekey = now,
     server_compression = nm_server_compression (nk_names nk),
     client_compression = nm_client_compression (nk_names nk),
     e_compress = C_None,
     e_decompress = D_None \<rparr>"

definition cs_set_encrypted ::
  "nat \<Rightarrow> encrypted_state \<Rightarrow> new_keys \<Rightarrow> 'c common_session \<Rightarrow> 'c common_session" where
  "cs_set_encrypted now state nk s =
     s\<lparr> cs_encrypted := Some (encrypted_new now state nk), cs_cipher := nk_cipher nk \<rparr>"

section \<open>Packets of a session\<close>

definition disconnect_body :: "codec \<Rightarrow> disconnect_reason \<Rightarrow> bytes \<Rightarrow> bytes \<Rightarrow> bytes" where
  "disconnect_body C reason description language_tag =
     [MSG_DISCONNECT] @ u32_be C (disconnect_code reason) @
     ssh_string C description @ ssh_string C language_tag"

definition cs_disconnect ::
  "codec \<Rightarrow> disconnect_reason \<Rightarrow> bytes \<Rightarrow> bytes \<Rightarrow> 'c common_session \<Rightarrow> 'c common_session" where
  "cs_disconnect C reason description language_tag s =
     (if disconnected s then s
      else
        let s1 = s\<lparr> disconnected := True \<rparr>;
            body = disconnect_body C reason description language_tag
        in case cs_encrypted s1 of
             Some enc \<Rightarrow> s1\<lparr> cs_encrypted := Some (enc\<lparr> e_write := push_packet C (e_write enc) body \<rparr>) \<rparr>
           | None \<Rightarrow> s1\<lparr> write_buffer := (write_buffer s1)\<lparr> sb_buffer :=
                        push_packet C (sb_buffer (write_buffer s1)) body \<rparr> \<rparr>)"

text \<open>\<^verbatim>\<open>Encrypted::byte\<close>, \<^verbatim>\<open>Encrypted::eof\<close>, \<^verbatim>\<open>CommonSession::byte\<close>\<close>

definition enc_byte :: "codec \<Rightarrow> channel_id \<Rightarrow> u8 \<Rightarrow> encrypted \<Rightarrow> encrypted" where
  "enc_byte C ch m enc =
     (case channels enc ch of
        None \<Rightarrow> enc
      | Some c \<Rightarrow> enc\<lparr> e_write := push_packet C (e_write enc) ([m] @ u32_be C (recipient_channel c)) \<rparr>)"

definition enc_eof :: "codec \<Rightarrow> channel_id \<Rightarrow> encrypted \<Rightarrow> encrypted" where
  "enc_eof C ch enc = enc_byte C ch MSG_CHANNEL_EOF enc"

definition cs_byte :: "codec \<Rightarrow> channel_id \<Rightarrow> u8 \<Rightarrow> 'c common_session \<Rightarrow> 'c common_session" where
  "cs_byte C ch m s =
     (case cs_encrypted s of
        None \<Rightarrow> s
      | Some enc \<Rightarrow> s\<lparr> cs_encrypted := Some (enc_byte C ch m enc) \<rparr>)"

section \<open>Flow control\<close>

definition enc_sender_window_size :: "channel_id \<Rightarrow> encrypted \<Rightarrow> nat" where
  "enc_sender_window_size ch enc =
     (case channels enc ch of None \<Rightarrow> 0 | Some c \<Rightarrow> as_usize (sender_window_size c))"

text \<open>\<^verbatim>\<open>adjust_window_size\<close>: the new state, and whether the window was enlarged.\<close>

definition adjust_window_size ::
  "codec \<Rightarrow> channel_id \<Rightarrow> bytes \<Rightarrow> u32 \<Rightarrow> encrypted \<Rightarrow> encrypted \<times> bool" where
  "adjust_window_size C ch data target enc =
     (case channels enc ch of
        None \<Rightarrow> (enc, False)
      | Some c \<Rightarrow>
          let n = as_u32 (length data);
              w = (if n \<le> sender_window_size c then sender_window_size c - n
                   else sender_window_size c)
          in if w < target div 2
             then (enc\<lparr> e_write := push_packet C (e_write enc)
                          ([MSG_CHANNEL_WINDOW_ADJUST] @ u32_be C (recipient_channel c) @
                           u32_be C (target - w)),
                        channels := (channels enc)(ch \<mapsto> c\<lparr> sender_window_size := target \<rparr>) \<rparr>, True)
             else (enc\<lparr> channels := (channels enc)(ch \<mapsto> c\<lparr> sender_window_size := w \<rparr>) \<rparr>, False))"

text \<open>
  The sending loop of \<^verbatim>\<open>data_noqueue\<close> and of \<^verbatim>\<open>extended_data\<close>: \<open>header\<close> is what precedes the
  string in the packet. With a maximum packet size of zero the loop makes no progress, so not
  returning is \<open>None\<close>. The window is decreased with an overflow check.
\<close>

partial_function (option) send_loop ::
  "codec \<Rightarrow> bytes \<Rightarrow> u32 \<Rightarrow> bytes \<Rightarrow> u32 \<Rightarrow> bytes \<Rightarrow> (bytes \<times> u32) res option" where
  "send_loop C header max_packet write window buf =
     (if buf = [] then Some (Ok (write, window))
      else let off = min (length buf) (as_usize max_packet) in
        if window < as_u32 off then Some Panic
        else send_loop C header max_packet
               (push_packet C write (header @ ssh_string C (take off buf)))
               (window - as_u32 off) (drop off buf))"

declare send_loop.simps [code]

definition returned :: "'a res option \<Rightarrow> 'a res" where
  "returned r = (case r of None \<Rightarrow> Diverge | Some x \<Rightarrow> x)"

text \<open>The part of the data that fits the window.\<close>

definition window_slice :: "channel \<Rightarrow> bytes \<Rightarrow> nat \<Rightarrow> bytes res" where
  "window_slice c buf0 start =
     (if recipient_window_size c < as_u32 (length buf0)
      then slice buf0 start (as_usize (recipient_window_size c))
      else slice_from buf0 start)"

text \<open>\<^verbatim>\<open>data_noqueue\<close>: the queue, the channel, and how much was sent.\<close>

definition data_noqueue ::
  "codec \<Rightarrow> bytes \<Rightarrow> channel \<Rightarrow> bytes \<Rightarrow> nat \<Rightarrow> (bytes \<times> channel \<times> nat) res" where
  "data_noqueue C write c buf0 start =
     rbind (window_slice c buf0 start) (\<lambda>buf.
     rbind (returned (send_loop C ([MSG_CHANNEL_DATA] @ u32_be C (recipient_channel c))
              (recipient_maximum_packet_size c) write (recipient_window_size c) buf))
       (\<lambda>(write', window'). Ok (write', c\<lparr> recipient_window_size := window' \<rparr>, length buf)))"

fun flush_pending_loop ::
  "codec \<Rightarrow> bytes \<Rightarrow> channel \<Rightarrow> (bytes \<times> u32 option \<times> nat) list \<Rightarrow> nat \<Rightarrow>
   (bytes \<times> channel \<times> nat) res" where
  "flush_pending_loop C write c [] pending_size = Ok (write, c\<lparr> pending_data := [] \<rparr>, pending_size)"
| "flush_pending_loop C write c ((buf, a, sz) # rest) pending_size =
     rbind (data_noqueue C write c buf sz) (\<lambda>(write', c', sz').
       if sz' < length buf
       then Ok (write', c'\<lparr> pending_data := (buf, a, sz') # rest \<rparr>, pending_size + sz')
       else flush_pending_loop C write' c' rest (pending_size + sz'))"

definition flush_pending :: "codec \<Rightarrow> channel_id \<Rightarrow> encrypted \<Rightarrow> (encrypted \<times> nat) res" where
  "flush_pending C ch enc =
     (case channels enc ch of
        None \<Rightarrow> Ok (enc, 0)
      | Some c \<Rightarrow>
          rmap (\<lambda>(write', c', n).
                  (enc\<lparr> e_write := write', channels := (channels enc)(ch \<mapsto> c') \<rparr>, n))
            (flush_pending_loop C (e_write enc) c (pending_data c) 0))"

definition has_pending_data :: "channel_id \<Rightarrow> encrypted \<Rightarrow> bool" where
  "has_pending_data ch enc =
     (case channels enc ch of None \<Rightarrow> False | Some c \<Rightarrow> pending_data c \<noteq> [])"

definition enc_data :: "codec \<Rightarrow> channel_id \<Rightarrow> bytes \<Rightarrow> encrypted \<Rightarrow> encrypted res" where
  "enc_data C ch buf0 enc =
     (case channels enc ch of
        None \<Rightarrow> Ok enc
      | Some c \<Rightarrow>
          rassert (confirmed c)
            (if pending_data c \<noteq> []
             then Ok (enc\<lparr> channels := (channels enc)
                        (ch \<mapsto> c\<lparr> pending_data := pending_data c @ [(buf0, None, 0)] \<rparr>) \<rparr>)
             else rmap (\<lambda>(write', c', n).
                    enc\<lparr> e_write := write', channels := (channels enc)
                      (ch \<mapsto> (if n < length buf0
                             then c'\<lparr> pending_data := pending_data c' @ [(buf0, None, n)] \<rparr>
                             else c')) \<rparr>)
                  (data_noqueue C (e_write enc) c buf0 0)))"

definition enc_extended_data ::
  "codec \<Rightarrow> channel_id \<Rightarrow> u32 \<Rightarrow> bytes \<Rightarrow> encrypted \<Rightarrow> encrypted res" where
  "enc_extended_data C ch ext buf0 enc =
     (case channels enc ch of
        None \<Rightarrow> Ok enc
      | Some c \<Rightarrow>
          rassert (confirmed c)
            (if pending_data c \<noteq> []
             then Ok (enc\<lparr> channels := (channels enc)
                        (ch \<mapsto> c\<lparr> pending_data := pending_data c @ [(buf0, Some ext, 0)] \<rparr>) \<rparr>)
             else rbind (if recipient_window_size c < as_u32 (length buf0)
                         then slice buf0 0 (as_usize (recipient_window_size c))
                         else Ok buf0) (\<lambda>buf.
                  rmap (\<lambda>(write', window').
                    let c' = c\<lparr> recipient_window_size := window' \<rparr> in
                    enc\<lparr> e_write := write', channels := (channels enc)
                      (ch \<mapsto> (if length buf < length buf0
                             then c'\<lparr> pending_data := pending_data c' @ [(buf0, Some ext, length buf)] \<rparr>
                             else c')) \<rparr>)
                  (returned (send_loop C
                    ([MSG_CHANNEL_EXTENDED_DATA] @ u32_be C (recipient_channel c) @ u32_be C ext)
                    (recipient_maximum_packet_size c) (e_write enc)
                    (recipient_window_size c) buf)))))"

section \<open>Flushing the queue\<close>

text \<open>
  The loop of \<^verbatim>\<open>Encrypted::flush\<close>: the cursor, the compressor and the buffer of encrypted
  packets. The cursor moves by at least four bytes a round.
\<close>

function flush_loop ::
  "deps \<Rightarrow> cipher_pair \<Rightarrow> bytes \<Rightarrow> nat \<Rightarrow> compress \<Rightarrow> sshbuffer \<Rightarrow>
   (nat \<times> compress \<times> sshbuffer) res" where
  "flush_loop D cipher write cursor comp_state wb =
     (if cursor < length write then
        rassert (4 \<le> length (drop cursor write))
          (let len = as_usize (be_u32 (d_codec D) (drop cursor write)) in
           case slice write (cursor + 4) (cursor + 4 + len) of
             Ok payload \<Rightarrow>
               (case compress_packet (d_flate D) comp_state payload of
                  (Ok packet, comp_state') \<Rightarrow>
                    (case cipher_write (d_codec D) (d_sodium D) cipher packet wb of
                       Ok wb' \<Rightarrow> flush_loop D cipher write (cursor + 4 + len) comp_state' wb'
                     | Err e \<Rightarrow> Err e
                     | Panic \<Rightarrow> Panic
                     | Diverge \<Rightarrow> Diverge)
                | (Err e, comp_state') \<Rightarrow> Panic
                | (Panic, comp_state') \<Rightarrow> Panic
                | (Diverge, comp_state') \<Rightarrow> Diverge)
           | Err e \<Rightarrow> Err e
           | Panic \<Rightarrow> Panic
           | Diverge \<Rightarrow> Diverge)
      else Ok (cursor, comp_state, wb))"
  by pat_completeness auto
termination
  by (relation "measure (\<lambda>(D, cipher, write, cursor, comp_state, wb). length write - cursor)") auto

declare flush_loop.simps [simp del]

text \<open>\<^verbatim>\<open>Encrypted::flush\<close>: also whether it is time to exchange new keys.\<close>

definition enc_flush ::
  "deps \<Rightarrow> nat \<Rightarrow> limits \<Rightarrow> cipher_pair \<Rightarrow> sshbuffer \<Rightarrow> encrypted \<Rightarrow>
   (encrypted \<times> sshbuffer \<times> bool) res" where
  "enc_flush D now lim cipher wb enc =
     rbind (flush_loop D cipher (e_write enc) (e_write_cursor enc) (e_compress enc) wb)
       (\<lambda>(cursor, comp_state, wb').
         let enc1 = enc\<lparr> e_write_cursor := cursor, e_compress := comp_state \<rparr>;
             enc2 = (if length (e_write enc1) \<le> cursor
                     then enc1\<lparr> e_write_cursor := 0, e_write := [] \<rparr> else enc1);
             dur = now - last_rekey enc2
         in Ok (enc2, wb', rekey_write_limit lim \<le> sb_bytes wb' \<or> rekey_time_limit lim \<le> dur))"

section \<open>Channel numbers\<close>

text \<open>The search for a free number; it does not end when all numbers are taken.\<close>

partial_function (option) free_channel_id :: "(channel_id \<rightharpoonup> channel) \<Rightarrow> u32 \<Rightarrow> u32 option" where
  "free_channel_id chs n = (if chs n = None then Some n else free_channel_id chs (n + 1))"

declare free_channel_id.simps [code]

definition new_channel_id :: "encrypted \<Rightarrow> (channel_id \<times> encrypted) res" where
  "new_channel_id enc =
     (case free_channel_id (channels enc) (last_channel_id enc + 1) of
        None \<Rightarrow> Diverge
      | Some n \<Rightarrow> Ok (n, enc\<lparr> last_channel_id := n \<rparr>))"

definition new_channel :: "u32 \<Rightarrow> u32 \<Rightarrow> encrypted \<Rightarrow> (channel_id \<times> encrypted) res" where
  "new_channel window_size maxpacket enc =
     (case free_channel_id (channels enc) (last_channel_id enc + 1) of
        None \<Rightarrow> Diverge
      | Some n \<Rightarrow> Ok (n, enc\<lparr> last_channel_id := n, channels := (channels enc)(n \<mapsto>
          \<lparr> recipient_channel = 0, sender_channel = n, recipient_window_size = 0,
            sender_window_size = window_size, recipient_maximum_packet_size = 0,
            sender_maximum_packet_size = maxpacket, confirmed = False, ch_wants_reply = False,
            pending_data = [] \<rparr>) \<rparr>))"

section \<open>Shared by both roles\<close>

text \<open>\<^verbatim>\<open>push_packet!(enc.write, ..)\<close>\<close>

definition enc_push :: "codec \<Rightarrow> bytes \<Rightarrow> encrypted \<Rightarrow> encrypted" where
  "enc_push C body enc = enc\<lparr> e_write := push_packet C (e_write enc) body \<rparr>"

text \<open>
  \<^verbatim>\<open>channel.recipient_window_size += amount\<close>, with an overflow check: the state and the new window.
\<close>

definition enc_add_window :: "channel_id \<Rightarrow> u32 \<Rightarrow> encrypted \<Rightarrow> (encrypted \<times> u32) res" where
  "enc_add_window ch amount enc =
     (case channels enc ch of
        None \<Rightarrow> Err (Thrussh E_WrongChannel)
      | Some c \<Rightarrow>
          if 2 ^ 32 \<le> as_usize (recipient_window_size c) + as_usize amount then Panic
          else
            let w = recipient_window_size c + amount in
            Ok (enc\<lparr> channels := (channels enc)(ch \<mapsto> c\<lparr> recipient_window_size := w \<rparr>) \<rparr>, w))"

text \<open>How a round of the loop goes on: it leaves the loop, starts the next round at once, or ends normally.\<close>

datatype 'a round = Break | Continue 'a | Done 'a

end
