(* ===== verification/Session_Props.thy ===== *)
theory Session_Props
  imports Session Packet_Props
begin

text \<open>
  Flow control, the outgoing queue and channel numbers: what the operations of
  \<^verbatim>\<open>src/src/session.rs\<close> do to the window of a channel and to the bytes on the wire.
\<close>

section \<open>The sending loop\<close>

text \<open>Data cut into pieces of at most \<open>n\<close> bytes.\<close>

function chunks :: "nat \<Rightarrow> bytes \<Rightarrow> bytes list" where
  "chunks n xs = (if n = 0 \<or> xs = [] then [] else take n xs # chunks n (drop n xs))"
  by pat_completeness auto
termination by (relation "measure (\<lambda>(n, xs). length xs)") auto

declare chunks.simps [simp del]

lemma chunks_Nil [simp]: "chunks n [] = []"
  by (simp add: chunks.simps)

lemma concat_chunks [simp]: "0 < n \<Longrightarrow> concat (chunks n xs) = xs"
  by (induction n xs rule: chunks.induct) (simp add: chunks.simps)

lemma chunks_bound: "c \<in> set (chunks n xs) \<Longrightarrow> c \<noteq> [] \<and> length c \<le> n"
proof (induction n xs rule: chunks.induct)
  case (1 n xs)
  show ?case
  proof (cases "n = 0 \<or> xs = []")
    case True
    with "1.prems" show ?thesis by (auto simp: chunks.simps [of n xs])
  next
    case False
    with "1.prems" consider "c = take n xs" | "c \<in> set (chunks n (drop n xs))"
      by (auto simp: chunks.simps [of n xs])
    then show ?thesis using "1.IH" False by cases auto
  qed
qed

lemma send_loop_eq:
  assumes "m \<noteq> 0" and "length buf \<le> as_usize window"
  shows "send_loop C header m wr window buf =
    Some (Ok (wr @ frames C (map (\<lambda>c. header @ ssh_string C c) (chunks (as_usize m) buf)),
              window - as_u32 (length buf)))"
  using assms(2)
proof (induction buf arbitrary: wr window rule: length_induct)
  case (1 buf)
  have m: "as_usize m \<noteq> 0" using assms(1) by (simp add: unat_eq_zero)
  show ?case
  proof (cases "buf = []")
    case True
    then show ?thesis by (simp add: send_loop.simps)
  next
    case False
    define off where "off = min (length buf) (as_usize m)"
    have off: "take off buf = take (as_usize m) buf" "drop off buf = drop (as_usize m) buf"
      "off \<le> length buf"
      by (auto simp: off_def min_def)
    have lt: "off < 2 ^ 32"
      using off(3) "1.prems" unat_less_2p32 [of window] by simp
    have ge: "\<not> window < as_u32 off"
      using off(3) "1.prems" unfolding as_u32_less_word [OF lt] by simp
    have win: "as_usize (window - as_u32 off) = as_usize window - off"
    proof -
      have "as_u32 off \<le> window" using ge by simp
      then have "as_usize (window - as_u32 off) = as_usize window - as_usize (as_u32 off)"
        by (rule unat_sub)
      with lt show ?thesis by simp
    qed
    have "length (drop off buf) \<le> as_usize (window - as_u32 off)"
      using "1.prems" by (simp add: win)
    then have IH: "send_loop C header m
        (push_packet C wr (header @ ssh_string C (take off buf)))
        (window - as_u32 off) (drop off buf) =
      Some (Ok (push_packet C wr (header @ ssh_string C (take off buf)) @
          frames C (map (\<lambda>c. header @ ssh_string C c) (chunks (as_usize m) (drop off buf))),
        (window - as_u32 off) - as_u32 (length (drop off buf))))"
      using "1.IH" m False off(2) by simp
    have sum: "(window - as_u32 off) - as_u32 (length (drop off buf)) = window - as_u32 (length buf)"
      using off(3) by (simp add: of_nat_diff)
    have "send_loop C header m wr window buf = send_loop C header m
        (push_packet C wr (header @ ssh_string C (take off buf)))
        (window - as_u32 off) (drop off buf)"
      using False ge by (subst send_loop.simps) (simp add: off_def [symmetric] Let_def)
    then show ?thesis
      using m False IH [unfolded off(1,2) push_packet_eq sum [unfolded off(2)]]
      by (simp add: chunks.simps [of _ buf] off(1,2))
  qed
qed

lemma send_loop_diverges:
  assumes "buf \<noteq> []"
  shows "send_loop C header 0 wr window buf = None"
proof (rule ccontr)
  assume "send_loop C header 0 wr window buf \<noteq> None"
  then obtain r where "send_loop C header 0 wr window buf = Some r" by blast
  then have "(0 :: u32) = 0 \<longrightarrow> buf \<noteq> [] \<longrightarrow> False"
    by (rule send_loop.raw_induct [where P = "\<lambda>C header m wr window buf r. m = 0 \<longrightarrow> buf \<noteq> [] \<longrightarrow> False", rotated])
      (auto split: if_splits simp: Let_def)
  with assms show False by simp
qed

section \<open>Sending data\<close>

text \<open>The body of a packet of channel data.\<close>

definition data_body :: "codec \<Rightarrow> channel \<Rightarrow> bytes \<Rightarrow> bytes" where
  "data_body C c d = ([MSG_CHANNEL_DATA] @ u32_be C (recipient_channel c)) @ ssh_string C d"

text \<open>What is held back when the first \<open>n\<close> bytes were sent.\<close>

definition held_back :: "bytes \<Rightarrow> nat \<Rightarrow> (bytes \<times> u32 option \<times> nat) list" where
  "held_back buf n = (if n < length buf then [(buf, None, n)] else [])"

lemma window_slice_0:
  assumes "length buf < 2 ^ 32"
  shows "window_slice c buf 0 = Ok (take (as_usize (recipient_window_size c)) buf)"
  using assms by (simp add: window_slice_def slice_from_def as_u32_less_word)

lemma window_slice_all:
  assumes "length buf \<le> as_usize (recipient_window_size c)" and "sz \<le> length buf"
  shows "window_slice c buf sz = Ok (drop sz buf)"
proof -
  have "length buf < 2 ^ 32"
    using assms(1) unat_less_2p32 [of "recipient_window_size c"] by simp
  from as_u32_less_word [OF this] assms show ?thesis
    by (simp add: window_slice_def slice_from_def)
qed

lemma window_slice_part:
  assumes "as_usize (recipient_window_size c) < length buf" and "length buf < 2 ^ 32"
  shows "window_slice c buf sz = slice buf sz (as_usize (recipient_window_size c))"
  using assms by (simp add: window_slice_def as_u32_less_word)

lemma data_noqueue_eq:
  assumes "recipient_maximum_packet_size c \<noteq> 0"
    and "window_slice c buf0 sz = Ok buf" and "length buf \<le> as_usize (recipient_window_size c)"
  shows "data_noqueue C wr c buf0 sz =
    Ok (wr @ frames C (map (data_body C c) (chunks (as_usize (recipient_maximum_packet_size c)) buf)),
        c\<lparr> recipient_window_size := recipient_window_size c - as_u32 (length buf) \<rparr>,
        length buf)"
proof -
  have f: "(\<lambda>d. ([MSG_CHANNEL_DATA] @ u32_be C (recipient_channel c)) @ ssh_string C d) = data_body C c"
    by (simp add: fun_eq_iff data_body_def)
  show ?thesis
    unfolding data_noqueue_def assms(2)
    by (simp only: rbind.simps send_loop_eq [OF assms(1,3)] returned_def option.case f prod.case)
qed

lemma enc_data_sends:
  assumes "channels enc ch = Some c" and "confirmed c" and "pending_data c = []"
    and "recipient_maximum_packet_size c \<noteq> 0" and "length buf < 2 ^ 32"
  shows "\<exists>pieces.
    enc_data C ch buf enc = Ok (enc\<lparr>
      e_write := e_write enc @ frames C (map (data_body C c) pieces),
      channels := (channels enc)(ch \<mapsto> c\<lparr>
        recipient_window_size := recipient_window_size c - as_u32 (length (concat pieces)),
        pending_data := held_back buf (length (concat pieces)) \<rparr>) \<rparr>) \<and>
    concat pieces = take (as_usize (recipient_window_size c)) buf \<and>
    (\<forall>p \<in> set pieces. p \<noteq> [] \<and> length p \<le> as_usize (recipient_maximum_packet_size c))"
proof -
  let ?w = "as_usize (recipient_window_size c)" and ?m = "as_usize (recipient_maximum_packet_size c)"
  let ?p = "chunks ?m (take ?w buf)"
  have m: "0 < ?m" using assms(4) by (simp add: unat_eq_zero word_neq_0_conv unat_gt_0)
  have cc: "concat ?p = take ?w buf" using m by simp
  have d: "data_noqueue C (e_write enc) c buf 0 =
    Ok (e_write enc @ frames C (map (data_body C c) ?p),
        c\<lparr> recipient_window_size := recipient_window_size c - as_u32 (length (take ?w buf)) \<rparr>,
        length (take ?w buf))"
    by (rule data_noqueue_eq [OF assms(4) window_slice_0 [OF assms(5)]]) simp
  have same: "c\<lparr> recipient_window_size := x, pending_data := [] \<rparr> = c\<lparr> recipient_window_size := x \<rparr>" for x
    using assms(3) by (cases c) simp
  have "enc_data C ch buf enc = Ok (enc\<lparr>
      e_write := e_write enc @ frames C (map (data_body C c) ?p),
      channels := (channels enc)(ch \<mapsto> c\<lparr>
        recipient_window_size := recipient_window_size c - as_u32 (length (concat ?p)),
        pending_data := held_back buf (length (concat ?p)) \<rparr>) \<rparr>)"
    unfolding enc_data_def cc using assms(1-3) d
    by (cases "length (take ?w buf) < length buf") (simp_all add: held_back_def same)
  then show ?thesis using cc chunks_bound by blast
qed

text \<open>
  C15. Sending on a confirmed channel with nothing held back respects the peer's flow control:
  the data packets queued carry, in order and without gaps, exactly as many bytes of the data as
  the window allows, each packet at least one byte and at most the peer's maximum packet size;
  the window shrinks by what was sent, and the data is held back with the right offset when not
  all of it fits.
\<close>

theorem data_respects_window:
  assumes "channels enc ch = Some c" and "confirmed c" and "pending_data c = []"
    and "recipient_maximum_packet_size c \<noteq> 0" and "length buf < 2 ^ 32"
  shows "\<exists>pieces.
    enc_data C ch buf enc = Ok (enc\<lparr>
      e_write := e_write enc @ frames C (map (data_body C c) pieces),
      channels := (channels enc)(ch \<mapsto> c\<lparr>
        recipient_window_size := recipient_window_size c - as_u32 (length (concat pieces)),
        pending_data := held_back buf (length (concat pieces)) \<rparr>) \<rparr>) \<and>
    concat pieces = take (as_usize (recipient_window_size c)) buf \<and>
    (\<forall>p \<in> set pieces. p \<noteq> [] \<and> length p \<le> as_usize (recipient_maximum_packet_size c))"
  using assms by (rule enc_data_sends)

text \<open>
  A channel and a session state to evaluate the operations on: a confirmed channel with a window
  of three bytes and packets of at most two.
\<close>

definition demo_channel :: channel where
  "demo_channel = \<lparr> recipient_channel = 7, sender_channel = 2, recipient_window_size = 3,
     sender_window_size = 100, recipient_maximum_packet_size = 2,
     sender_maximum_packet_size = 2, confirmed = True, ch_wants_reply = False,
     pending_data = [] \<rparr>"

definition demo_new_keys :: new_keys where
  "demo_new_keys = \<lparr> nk_exchange = exchange_new,
     nk_names = \<lparr> nm_kex = [], nm_key = [], nm_cipher = [], nm_mac = None,
       nm_server_compression = Compression_None, nm_client_compression = Compression_None,
       ignore_guessed = False \<rparr>,
     nk_kex = \<lparr> local_secret = None, shared_secret = None \<rparr>, nk_key = 0, nk_cipher = CLEAR_PAIR,
     nk_session_id = [9], nk_received = False, nk_sent = False \<rparr>"

definition demo_enc :: encrypted where
  "demo_enc = (encrypted_new 0 Authenticated demo_new_keys)\<lparr> channels := [2 \<mapsto> demo_channel] \<rparr>"

lemma demo_enc_channel: "channels demo_enc 2 = Some demo_channel"
  by (simp add: demo_enc_def)

theorem data_respects_window_witness:
  "\<exists>pieces.
    enc_data rfc_codec 2 [1, 2, 3, 4, 5] demo_enc = Ok (demo_enc\<lparr> e_write := frames rfc_codec (map (data_body rfc_codec demo_channel) pieces),
      channels := (channels demo_enc)(2 \<mapsto> demo_channel\<lparr>
        recipient_window_size := 3 - as_u32 (length (concat pieces)),
        pending_data := held_back [1, 2, 3, 4, 5] (length (concat pieces)) \<rparr>) \<rparr>) \<and>
    concat pieces = [1, 2, 3] \<and>
    (\<forall>p \<in> set pieces. p \<noteq> [] \<and> length p \<le> 2)"
  using data_respects_window [OF demo_enc_channel, where buf = "[1, 2, 3, 4, 5]" and C = rfc_codec]
  by (simp add: demo_channel_def demo_enc_def encrypted_new_def)

section \<open>Data that was held back\<close>

lemma data_body_window [simp]: "data_body C (c\<lparr> recipient_window_size := w \<rparr>) = data_body C c"
  by (simp add: fun_eq_iff data_body_def)

lemma max_packet_pos:
  "recipient_maximum_packet_size c \<noteq> 0 \<Longrightarrow> 0 < as_usize (recipient_maximum_packet_size c)"
  by (simp add: unat_gt_0)

lemma flush_pending_loop_all:
  assumes "recipient_maximum_packet_size c \<noteq> 0"
    and "length (concat (map fst ps)) \<le> as_usize (recipient_window_size c)"
  shows "flush_pending_loop C wr c (map (\<lambda>(b, a). (b, a, 0)) ps) n =
    Ok (wr @ frames C (map (data_body C c)
          (concat (map (\<lambda>(b, a). chunks (as_usize (recipient_maximum_packet_size c)) b) ps))),
        c\<lparr> recipient_window_size := recipient_window_size c - as_u32 (length (concat (map fst ps))),
           pending_data := [] \<rparr>,
        n + length (concat (map fst ps)))"
  using assms
proof (induction ps arbitrary: wr c n)
  case Nil
  then show ?case by simp
next
  case (Cons p ps)
  obtain b a where p: "p = (b, a)" by (cases p)
  let ?c = "c\<lparr> recipient_window_size := recipient_window_size c - as_u32 (length b) \<rparr>"
  have b: "length b \<le> as_usize (recipient_window_size c)"
    and rest: "length b + length (concat (map fst ps)) \<le> as_usize (recipient_window_size c)"
    using Cons.prems(2) by (simp_all add: p)
  have d: "data_noqueue C wr c b 0 =
    Ok (wr @ frames C (map (data_body C c) (chunks (as_usize (recipient_maximum_packet_size c)) b)),
        ?c, length b)"
    using data_noqueue_eq [OF Cons.prems(1) window_slice_all [OF b, of 0]] b by simp
  have l: "length b < 2 ^ 32"
    using b unat_less_2p32 [of "recipient_window_size c"] by simp
  have "as_u32 (length b) \<le> recipient_window_size c"
    unfolding as_u32_le_word [OF l] by (rule b)
  then have "as_usize (recipient_window_size ?c) = as_usize (recipient_window_size c) - length b"
    using as_usize_as_u32 [OF l] by (simp add: unat_sub)
  with rest have r: "length (concat (map fst ps)) \<le> as_usize (recipient_window_size ?c)" by simp
  have IH: "flush_pending_loop C wr' ?c (map (\<lambda>(b, a). (b, a, 0)) ps) m =
    Ok (wr' @ frames C (map (data_body C c)
          (concat (map (\<lambda>(b, a). chunks (as_usize (recipient_maximum_packet_size c)) b) ps))),
        c\<lparr> recipient_window_size := recipient_window_size c - as_u32 (length b) -
             as_u32 (length (concat (map fst ps))),
           pending_data := [] \<rparr>,
        m + length (concat (map fst ps)))" for wr' m
    using Cons.IH [OF _ r, of wr' m] Cons.prems(1) by simp
  show ?case
    by (simp add: p d IH del: length_concat)
qed

text \<open>
  Data that was queued while the window was closed is delivered: once the window has room
  for everything held back, flushing the channel sends all of it, in order, in pieces within
  the peer's maximum packet size, and nothing stays held back.
\<close>

lemma held_back_data_is_delivered:
  assumes "channels enc ch = Some c"
    and "pending_data c = map (\<lambda>(b, a). (b, a, 0)) ps"
    and "recipient_maximum_packet_size c \<noteq> 0"
    and "length (concat (map fst ps)) \<le> as_usize (recipient_window_size c)"
  shows "\<exists>pieces.
    flush_pending C ch enc = Ok (enc\<lparr>
      e_write := e_write enc @ frames C (map (data_body C c) pieces),
      channels := (channels enc)(ch \<mapsto> c\<lparr>
        recipient_window_size := recipient_window_size c - as_u32 (length (concat pieces)),
        pending_data := [] \<rparr>) \<rparr>, length (concat pieces)) \<and>
    concat pieces = concat (map fst ps) \<and>
    (\<forall>p \<in> set pieces. p \<noteq> [] \<and> length p \<le> as_usize (recipient_maximum_packet_size c))"
proof -
  let ?p = "concat (map (\<lambda>(b, a). chunks (as_usize (recipient_maximum_packet_size c)) b) ps)"
  have cc: "concat ?p = concat (map fst ps)"
    using max_packet_pos [OF assms(3)] by (induction ps) auto
  have "flush_pending C ch enc = Ok (enc\<lparr>
      e_write := e_write enc @ frames C (map (data_body C c) ?p),
      channels := (channels enc)(ch \<mapsto> c\<lparr>
        recipient_window_size := recipient_window_size c - as_u32 (length (concat ?p)),
        pending_data := [] \<rparr>) \<rparr>, length (concat ?p))"
    unfolding cc
    by (simp add: flush_pending_def assms(1,2) flush_pending_loop_all [OF assms(3,4)] del: length_concat)
  moreover have "\<forall>p \<in> set ?p. p \<noteq> [] \<and> length p \<le> as_usize (recipient_maximum_packet_size c)"
    by (auto dest: chunks_bound)
  ultimately show ?thesis using cc by blast
qed

text \<open>
  C31. Data of which a first part was sent is not accounted for correctly. When the window allows
  the rest to be sent, flushing sends it, but then holds the same data back again, from the
  offset that is the length of the rest: the next flush repeats bytes the peer has already got.
  And while the window does not reach the recorded offset, flushing panics: in particular,
  flushing right after the data was queued.
\<close>

theorem flush_after_partial_send:
  assumes "channels enc ch = Some c" and "pending_data c = [(buf, a, sz)]"
    and "recipient_maximum_packet_size c \<noteq> 0"
    and "0 < sz" and "sz < length buf" and "length buf < 2 ^ 32"
  shows "(length buf \<le> as_usize (recipient_window_size c) \<longrightarrow>
      (\<exists>enc' c' pieces. flush_pending C ch enc = Ok (enc', length buf - sz) \<and>
         e_write enc' = e_write enc @ frames C (map (data_body C c) pieces) \<and>
         concat pieces = drop sz buf \<and>
         channels enc' ch = Some c' \<and> pending_data c' = [(buf, a, length buf - sz)])) \<and>
    (as_usize (recipient_window_size c) < sz \<longrightarrow> flush_pending C ch enc = Panic)"
proof (intro conjI impI)
  assume w: "length buf \<le> as_usize (recipient_window_size c)"
  have "data_noqueue C (e_write enc) c buf sz =
    Ok (e_write enc @ frames C (map (data_body C c)
          (chunks (as_usize (recipient_maximum_packet_size c)) (drop sz buf))),
        c\<lparr> recipient_window_size := recipient_window_size c - as_u32 (length (drop sz buf)) \<rparr>,
        length (drop sz buf))"
    using w assms(5) by (intro data_noqueue_eq [OF assms(3) window_slice_all [OF w]]) auto
  with assms(1-5) max_packet_pos [OF assms(3)]
  show "\<exists>enc' c' pieces. flush_pending C ch enc = Ok (enc', length buf - sz) \<and>
         e_write enc' = e_write enc @ frames C (map (data_body C c) pieces) \<and>
         concat pieces = drop sz buf \<and>
         channels enc' ch = Some c' \<and> pending_data c' = [(buf, a, length buf - sz)]"
    by (intro exI [of _ "chunks (as_usize (recipient_maximum_packet_size c)) (drop sz buf)"] exI)
      (auto simp: flush_pending_def)
next
  assume w: "as_usize (recipient_window_size c) < sz"
  with assms(5) have "as_usize (recipient_window_size c) < length buf" by simp
  from window_slice_part [OF this assms(6)] w
  show "flush_pending C ch enc = Panic"
    by (simp add: flush_pending_def assms(1,2) data_noqueue_def slice_def)
qed

text \<open>
  C32. A peer that announces a maximum packet size of zero for its channel makes the server hang:
  sending any data to that channel never returns when the window is open.
\<close>

theorem zero_packet_size_hangs:
  assumes "channels enc ch = Some c" and "confirmed c" and "pending_data c = []"
    and "recipient_maximum_packet_size c = 0" and "recipient_window_size c \<noteq> 0"
    and "buf \<noteq> []" and "length buf < 2 ^ 32"
  shows "enc_data C ch buf enc = Diverge"
proof -
  have "take (as_usize (recipient_window_size c)) buf \<noteq> []"
    using assms(5,6) by (simp add: unat_eq_zero)
  from send_loop_diverges [OF this] show ?thesis
    by (simp add: enc_data_def assms(1-4) data_noqueue_def window_slice_0 [OF assms(7)] returned_def)
qed

theorem flush_after_partial_send_witness:
  "flush_pending rfc_codec 2 (demo_enc\<lparr> channels := [2 \<mapsto>
      demo_channel\<lparr> recipient_window_size := 0, pending_data := [([1, 2, 3], None, 1)] \<rparr>] \<rparr>) = Panic \<and>
   (\<exists>enc' c' pieces. flush_pending rfc_codec 2 (demo_enc\<lparr> channels := [2 \<mapsto>
        demo_channel\<lparr> pending_data := [([1, 2, 3], None, 1)] \<rparr>] \<rparr>) =
        Ok (enc', length [1, 2, 3 :: u8] - 1) \<and>
      e_write enc' = frames rfc_codec (map (data_body rfc_codec demo_channel) pieces) \<and>
      concat pieces = [2, 3] \<and> channels enc' 2 = Some c' \<and>
      pending_data c' = [([1, 2, 3], None, length [1, 2, 3 :: u8] - 1)])"
  using flush_after_partial_send [where ch = 2 and C = rfc_codec and buf = "[1, 2, 3]" and sz = 1
      and a = None and enc = "demo_enc\<lparr> channels := [2 \<mapsto> demo_channel\<lparr>
        recipient_window_size := 0, pending_data := [([1, 2, 3], None, 1)] \<rparr>] \<rparr>"]
    flush_after_partial_send [where ch = 2 and C = rfc_codec and buf = "[1, 2, 3]" and sz = 1
      and a = None and enc = "demo_enc\<lparr> channels := [2 \<mapsto> demo_channel\<lparr>
        pending_data := [([1, 2, 3], None, 1)] \<rparr>] \<rparr>"]
  by (simp add: demo_channel_def demo_enc_def encrypted_new_def data_body_def [abs_def])

theorem zero_packet_size_hangs_witness:
  "enc_data rfc_codec 2 [1] (demo_enc\<lparr> channels := [2 \<mapsto>
     demo_channel\<lparr> recipient_maximum_packet_size := 0 \<rparr>] \<rparr>) = Diverge"
  by (rule zero_packet_size_hangs [where
        c = "demo_channel\<lparr> recipient_maximum_packet_size := 0 \<rparr>"])
    (simp_all add: demo_channel_def)

section \<open>Emptying the queue\<close>

text \<open>The packets of a queue as the compressor leaves them, one after the other.\<close>

fun compress_all :: "flate \<Rightarrow> compress \<Rightarrow> bytes list \<Rightarrow> (bytes list \<times> compress) res" where
  "compress_all Z c [] = Ok ([], c)"
| "compress_all Z c (p # ps) =
     (case compress_packet Z c p of (r, c') \<Rightarrow>
        rbind r (\<lambda>q. rmap (\<lambda>(qs, c''). (q # qs, c'')) (compress_all Z c' ps)))"

lemma compress_all_None: "compress_all Z C_None ps = Ok (ps, C_None)"
  by (induction ps) (simp_all add: compress_packet_def)

text \<open>Every frame of the queue becomes one packet.\<close>

lemma flush_loop_frames:
  assumes "codec_laws (d_codec D)" and "\<forall>p \<in> set ps. length p < 2 ^ 32"
    and "drop cursor buf = frames (d_codec D) ps" and "cursor \<le> length buf"
    and "compress_all (d_flate D) c ps = Ok (qs, c')"
  shows "flush_loop D cipher buf cursor c wb =
    rmap (\<lambda>wb'. (length buf, c', wb'))
      (write_packets (d_codec D) (d_sodium D) cipher qs wb)"
  using assms(2-5)
proof (induction ps arbitrary: cursor c qs wb)
  case Nil
  then show ?case by (simp add: flush_loop.simps)
next
  case (Cons p ps)
  let ?C = "d_codec D"
  note len4 = codec_laws.len_u32_be [OF assms(1)]
  have p: "length p < 2 ^ 32" using Cons.prems(1) by simp
  have d: "drop cursor buf = u32_be ?C (as_u32 (length p)) @ p @ frames ?C ps"
    using Cons.prems(2) by (simp add: frame_def)
  have dl: "length (drop cursor buf) = 4 + length p + length (frames ?C ps)"
    by (simp add: d len4)
  then have lt: "cursor < length buf" and c2: "cursor + 4 + length p \<le> length buf" by auto
  have len: "as_usize (be_u32 ?C (drop cursor buf)) = length p"
    unfolding d codec_laws.be_u32_u32_be [OF assms(1)] by (rule as_usize_as_u32 [OF p])
  have d4: "drop (cursor + 4) buf = p @ frames ?C ps"
    using drop_eq_append_imp [OF d] by (simp add: len4)
  have d5: "drop (cursor + 4 + length p) buf = frames ?C ps"
    using drop_eq_append_imp [OF d4] .
  have sl: "slice buf (cursor + 4) (cursor + 4 + length p) = Ok p"
    using c2 by (simp add: slice_def d4)
  obtain q c1 qs1 where q: "compress_packet (d_flate D) c p = (Ok q, c1)"
    and qs1: "compress_all (d_flate D) c1 ps = Ok (qs1, c')" and qs: "qs = q # qs1"
  proof (cases "compress_packet (d_flate D) c p")
    case (Pair r c1)
    with Cons.prems(4) that show thesis
      by (cases r; cases "compress_all (d_flate D) c1 ps") auto
  qed
  have IH: "flush_loop D cipher buf (cursor + 4 + length p) c1 wb' =
      rmap (\<lambda>wb'. (length buf, c', wb')) (write_packets ?C (d_sodium D) cipher qs1 wb')" for wb'
    by (rule Cons.IH) (use Cons.prems(1) d5 c2 qs1 in auto)
  have "flush_loop D cipher buf cursor c wb =
      (case cipher_write ?C (d_sodium D) cipher q wb of
         Ok wb' \<Rightarrow> flush_loop D cipher buf (cursor + 4 + length p) c1 wb'
       | Err e \<Rightarrow> Err e | Panic \<Rightarrow> Panic | Diverge \<Rightarrow> Diverge)"
    using lt dl by (subst flush_loop.simps) (simp add: len sl q Let_def)
  then show ?case
    by (cases "cipher_write ?C (d_sodium D) cipher q wb") (simp_all add: IH qs)
qed

lemma enc_flush_frames:
  assumes "codec_laws (d_codec D)"
    and "e_write enc = frames (d_codec D) ps" and "e_write_cursor enc = 0"
    and "\<forall>p \<in> set ps. length p < 2 ^ 32"
    and "compress_all (d_flate D) (e_compress enc) ps = Ok (qs, c')"
  shows "enc_flush D now lim cipher wb enc =
    rmap (\<lambda>wb'. (enc\<lparr> e_write := [], e_compress := c' \<rparr>, wb',
        rekey_write_limit lim \<le> sb_bytes wb' \<or> rekey_time_limit lim \<le> now - last_rekey enc))
      (write_packets (d_codec D) (d_sodium D) cipher qs wb)"
proof -
  have "flush_loop D cipher (e_write enc) 0 (e_compress enc) wb =
      rmap (\<lambda>wb'. (length (e_write enc), c', wb'))
        (write_packets (d_codec D) (d_sodium D) cipher qs wb)"
    by (rule flush_loop_frames [OF assms(1,4) _ _ assms(5)]) (simp_all add: assms(2))
  then show ?thesis
    unfolding enc_flush_def assms(3)
    by (cases "write_packets (d_codec D) (d_sodium D) cipher qs wb"; cases enc)
      (use assms(3) in \<open>simp_all add: Let_def\<close>)
qed

text \<open>
  Flushing an uncompressed session encrypts every packet of its queue, in the order they were
  queued and each exactly once, and leaves the queue empty; no packet is lost or merged. It asks
  for new keys exactly when the bytes written or the time since the last exchange reach the
  limits.
\<close>

lemma flush_sends_queue:
  assumes "codec_laws (d_codec D)"
    and "e_write enc = frames (d_codec D) ps" and "e_write_cursor enc = 0"
    and "e_compress enc = C_None" and "\<forall>p \<in> set ps. length p < 2 ^ 32"
  shows "enc_flush D now lim cipher wb enc =
    rmap (\<lambda>wb'. (enc\<lparr> e_write := [] \<rparr>, wb',
        rekey_write_limit lim \<le> sb_bytes wb' \<or> rekey_time_limit lim \<le> now - last_rekey enc))
      (write_packets (d_codec D) (d_sodium D) cipher ps wb)"
proof -
  have "enc\<lparr> e_write := [], e_compress := C_None \<rparr> = enc\<lparr> e_write := [] \<rparr>"
    using assms(4) by (cases enc) simp
  with enc_flush_frames [OF assms(1-3,5), where qs = ps and c' = C_None] assms(4) show ?thesis
    by (simp add: compress_all_None)
qed

definition demo_deps :: deps where
  "demo_deps = \<lparr> d_codec = rfc_codec, d_sodium = demo_sodium,
     d_keys = \<lparr> ED25519 = [1], SSH_RSA = [2], RSA_SHA2_256 = [3], RSA_SHA2_512 = [4],
       parse_key = (\<lambda>a b. Ok (PK_Ed25519 b)), parse_public_key = (\<lambda>b. Ok (PK_Ed25519 (drop 9 b))),
       verify_client_auth = (\<lambda>k b s. (case k of PK_Ed25519 x \<Rightarrow> s = x @ b | PK_RSA e n \<Rightarrow> False)),
       verify_server_auth = (\<lambda>k b s. (case k of PK_Ed25519 x \<Rightarrow> s = x @ b | PK_RSA e n \<Rightarrow> False)),
       add_signature = (\<lambda>k b h. Ok (b @ rfc_string (rfc_string [1] @ rfc_string
         ((case k of KP_Ed25519 x \<Rightarrow> drop 32 x | KP_RSA e n g \<Rightarrow> []) @ h)))),
       add_self_signature = (\<lambda>k b. Ok (b @ rfc_string (rfc_string [1] @ rfc_string
         ((case k of KP_Ed25519 x \<Rightarrow> drop 32 x | KP_RSA e n g \<Rightarrow> []) @ b)))) \<rparr>,
     d_sha256 = (\<lambda>b. Ok (resize b 32)),
     d_flate = \<lparr> deflate_new = 0, deflate_reset = (\<lambda>s. 0),
       deflate = (\<lambda>s i n. \<lparr> z_status = Ok (if n < length i then Z_BufError else Z_Ok),
         z_consumed = min n (length i), z_written = take n i, z_state = s \<rparr>),
       inflate_new = 0, inflate_reset = (\<lambda>s. 0),
       inflate = (\<lambda>s i n. \<lparr> z_status = Ok (if i = [] \<or> n = 0 then Z_BufError else Z_Ok),
         z_consumed = min n (length i), z_written = take n i, z_state = s \<rparr>) \<rparr> \<rparr>"

text \<open>
  The library functions of \<open>demo_deps\<close> are simple stand-ins with the documented behaviour (a
  signature is the key and the message; the compressor copies); they serve to evaluate the
  model on concrete inputs.
\<close>

lemma demo_deps_laws: "codec_laws (d_codec demo_deps)" "sodium_laws (d_sodium demo_deps)"
  by (simp_all add: demo_deps_def rfc.codec_laws_axioms demo.sodium_laws_axioms)

section \<open>The receiving window\<close>

text \<open>
  Receiving data on an open channel keeps the window we granted sound: afterwards it is at
  least half the target; the window is enlarged, to the target, exactly when it had fallen below
  that, and the message queued for the peer grants exactly the difference; data that overruns the
  window is not counted.
\<close>

lemma adjust_window_grants:
  assumes "channels enc ch = Some c"
    and "w = (if as_u32 (length data) \<le> sender_window_size c
              then sender_window_size c - as_u32 (length data) else sender_window_size c)"
  shows "\<exists>c' grant. adjust_window_size C ch data target enc =
      (enc\<lparr> e_write := e_write enc @ (if w < target div 2 then frame C ([MSG_CHANNEL_WINDOW_ADJUST] @
             u32_be C (recipient_channel c) @ u32_be C grant) else []),
           channels := (channels enc)(ch \<mapsto> c') \<rparr>, w < target div 2) \<and>
    c' = c\<lparr> sender_window_size := w + grant \<rparr> \<and>
    target div 2 \<le> sender_window_size c' \<and>
    as_usize w + as_usize grant < 2 ^ 32 \<and>
    (grant = 0 \<longleftrightarrow> \<not> w < target div 2)"
proof (cases "w < target div 2")
  case True
  have half: "target div 2 \<le> target" by (simp add: word_le_nat_alt unat_div)
  with True have le: "w \<le> target" and ne: "w \<noteq> target" by auto
  have "as_usize (target - w) = as_usize target - as_usize w" using le by (rule unat_sub)
  with le have sum: "as_usize w + as_usize (target - w) < 2 ^ 32"
    using unat_less_2p32 [of target] by (simp add: word_le_nat_alt)
  show ?thesis
    using True half ne sum assms(2)
    by (intro exI [of _ "c\<lparr> sender_window_size := target \<rparr>"] exI [of _ "target - w"])
      (simp add: adjust_window_size_def assms(1) Let_def)
next
  case False
  then show ?thesis
    using assms(2) unat_less_2p32 [of w]
    by (intro exI [of _ "c\<lparr> sender_window_size := w \<rparr>"] exI [of _ 0])
      (simp add: adjust_window_size_def assms(1) Let_def)
qed

section \<open>Channel numbers\<close>

lemma map_upd_same: "f(k \<mapsto> x) = f(k \<mapsto> y) \<longleftrightarrow> x = y"
  by (auto dest: map_upd_eqD1)

lemma free_channel_id_free: "free_channel_id chs n = Some m \<Longrightarrow> chs m = None"
  by (rule free_channel_id.raw_induct [where P = "\<lambda>chs n m. chs m = None"])
    (auto split: if_splits)

lemma free_channel_id_ex:
  "chs (n + of_nat k) = None \<Longrightarrow> \<exists>m. free_channel_id chs n = Some m"
proof (induction k arbitrary: n)
  case 0
  then show ?case by (simp add: free_channel_id.simps)
next
  case (Suc k)
  then have "chs (n + 1 + of_nat k) = None" by (simp add: algebra_simps)
  from Suc.IH [OF this] show ?case
    by (cases "chs n") (simp_all add: free_channel_id.simps [of chs n])
qed

lemma free_channel_id_some:
  assumes "chs k = None"
  obtains m where "free_channel_id chs n = Some m" and "chs m = None"
proof -
  have "n + of_nat (unat (k - n)) = k" by simp
  with assms have "chs (n + of_nat (unat (k - n))) = None" by simp
  then obtain m where "free_channel_id chs n = Some m"
    using free_channel_id_ex [where chs = chs and n = n and k = "unat (k - n)"] by blast
  with free_channel_id_free that show thesis by blast
qed

text \<open>
  As long as not all \<open>2 ^ 32\<close> channel numbers are in use, opening a channel succeeds, whatever
  the last number was: the new channel gets a number no open channel has, is recorded under it,
  unconfirmed and with closed windows, and the other channels are untouched.
\<close>

lemma new_channel_is_fresh:
  assumes "channels enc free = None"
  shows "\<exists>n enc' c. new_channel window maxpacket enc = Ok (n, enc') \<and>
    channels enc n = None \<and> channels enc' = (channels enc)(n \<mapsto> c) \<and>
    sender_channel c = n \<and> \<not> confirmed c \<and> recipient_window_size c = 0 \<and>
    sender_window_size c = window \<and> e_write enc' = e_write enc"
proof -
  obtain m where "free_channel_id (channels enc) (last_channel_id enc + 1) = Some m"
    and "channels enc m = None"
    using assms by (rule free_channel_id_some [where chs = "channels enc"])
  then show ?thesis
    by (simp add: new_channel_def map_upd_same)
qed

end
