(* ===== verification/Server_Kex.thy ===== *)
theory Server_Kex
  imports Session
begin

text \<open>
  The server's configuration and session (\<^verbatim>\<open>src/src/server/mod.rs\<close>,
  \<^verbatim>\<open>src/src/server/session.rs\<close>) and its side of the key exchange (\<^verbatim>\<open>src/src/server/kex.rs\<close>).
\<close>

section \<open>Configuration\<close>

record server_config =
  sc_server_id :: bytes
  sc_methods :: method_set
  sc_auth_banner :: "bytes option"
  sc_auth_rejection_time :: nat
  sc_keys :: "key_pair list"
  sc_limits :: limits
  sc_window_size :: u32
  sc_maximum_packet_size :: u32
  sc_preferred :: preferred
  sc_max_auth_attempts :: nat
  sc_connection_timeout :: "nat option"

text \<open>The identification string carries the name and version of the package.\<close>

definition server_config_default :: "keys_lib \<Rightarrow> server_config" where
  "server_config_default K = \<lparr>
     sc_server_id = ascii ''SSH-2.0-thrussh_0.30.2'',
     sc_methods = ms_all,
     sc_auth_banner = None,
     sc_auth_rejection_time = 1000,
     sc_keys = [],
     sc_limits = limits_default,
     sc_window_size = 2097152,
     sc_maximum_packet_size = 32768,
     sc_preferred = preferred_DEFAULT K,
     sc_max_auth_attempts = 10,
     sc_connection_timeout = Some 600000 \<rparr>"

text \<open>The channels to and from the tasks of the application are not part of the state.\<close>

record server_session =
  ss_common :: "server_config common_session"
  ss_target_window_size :: u32

section \<open>Key exchange\<close>

text \<open>\<^verbatim>\<open>KexInit::server_write\<close>\<close>

definition server_write ::
  "deps \<Rightarrow> world \<Rightarrow> server_config \<Rightarrow> cipher_pair \<Rightarrow> kex_init \<Rightarrow> sshbuffer \<Rightarrow>
   (kex_init \<times> sshbuffer) res" where
  "server_write D W cfg cipher ki wb =
     rbind (write_kex (d_codec D) (sc_preferred cfg) (w_rand W 16) []) (\<lambda>kexinit.
     rbind (cipher_write (d_codec D) (d_sodium D) cipher kexinit wb) (\<lambda>wb'.
     Ok (ki\<lparr> ki_exchange := (ki_exchange ki)\<lparr> server_kex_init := kexinit \<rparr>, ki_sent := True \<rparr>, wb')))"

text \<open>The index of the first key with the negotiated name, or the number of keys.\<close>

fun find_key :: "keys_lib \<Rightarrow> key_pair list \<Rightarrow> bytes \<Rightarrow> nat" where
  "find_key K [] name = 0"
| "find_key K (k # ks) name = (if key_pair_name K k \<noteq> name then Suc (find_key K ks name) else 0)"

text \<open>\<^verbatim>\<open>KexInit::server_parse\<close>\<close>

definition server_parse ::
  "deps \<Rightarrow> world \<Rightarrow> server_config \<Rightarrow> cipher_pair \<Rightarrow> kex_init \<Rightarrow> bytes \<Rightarrow> sshbuffer \<Rightarrow>
   (kex \<times> sshbuffer) res" where
  "server_parse D W cfg cipher ki buf wb =
     rbind (index buf 0) (\<lambda>b0.
     if b0 = MSG_KEXINIT then
       let ki1 = ki\<lparr> ki_exchange := (ki_exchange ki)\<lparr> client_kex_init :=
                   client_kex_init (ki_exchange ki) @ buf \<rparr> \<rparr> in
       rbind (read_kex (d_codec D) server_select buf (sc_preferred cfg)) (\<lambda>algo.
       rbind (if \<not> ki_sent ki1 then server_write D W cfg cipher ki1 wb else Ok (ki1, wb))
         (\<lambda>(ki2, wb').
         let key = find_key (d_keys D) (sc_keys cfg) (nm_key algo) in
         if key < length (sc_keys cfg)
         then Ok (Kex_KexDh \<lparr> kd_exchange = ki_exchange ki2, kd_names = algo, kd_key = key,
                    kd_session_id = ki_session_id ki2 \<rparr>, wb')
         else Err (Thrussh E_UnknownKey)))
     else Ok (Kex_KexInit ki, wb))"

text \<open>\<^verbatim>\<open>KexDh::parse\<close>\<close>

definition kexdh_parse ::
  "deps \<Rightarrow> world \<Rightarrow> server_config \<Rightarrow> cipher_pair \<Rightarrow> kex_dh \<Rightarrow> bytes \<Rightarrow> sshbuffer \<Rightarrow>
   (kex \<times> sshbuffer) res" where
  "kexdh_parse D W cfg cipher kd buf wb =
     (let C = d_codec D in
      if ignore_guessed (kd_names kd)
      then Ok (Kex_KexDh (kd\<lparr> kd_names := (kd_names kd)\<lparr> ignore_guessed := False \<rparr> \<rparr>), wb)
      else
        rbind (index buf 0) (\<lambda>b0.
        rassert (b0 = MSG_KEX_ECDH_INIT)
          (rbind (read_string C buf 1) (\<lambda>(eph, _).
           let ex1 = (kd_exchange kd)\<lparr> client_ephemeral :=
                       client_ephemeral (kd_exchange kd) @ eph \<rparr> in
           rbind (server_dh D W ex1 buf) (\<lambda>(alg, ex2).
           let done = \<lparr> kdd_exchange = ex2, kdd_kex = alg, kdd_key = kd_key kd,
                        kdd_session_id = kd_session_id kd, kdd_names = kd_names kd \<rparr> in
           rbind (index (sc_keys cfg) (kd_key kd)) (\<lambda>key.
           rbind (compute_exchange_hash D alg (push_key_pair C (d_keys D) key) ex2) (\<lambda>hash.
           rbind (push_key_pair C (d_keys D) key [MSG_KEX_ECDH_REPLY]) (\<lambda>b1.
           rbind (add_signature (d_keys D) key (b1 @ ssh_string C (server_ephemeral ex2)) hash) (\<lambda>reply.
           rbind (cipher_write C (d_sodium D) cipher reply wb) (\<lambda>wb1.
           rbind (cipher_write C (d_sodium D) cipher [MSG_NEWKEYS] wb1) (\<lambda>wb2.
           rbind (kdd_compute_keys D done hash True) (\<lambda>nk.
           Ok (Kex_NewKeys nk, wb2)))))))))))))"

end
