(* ===== verification/Client_Kex.thy ===== *)
theory Client_Kex
  imports Session
begin

text \<open>
  The client's configuration (\<^verbatim>\<open>src/src/client/mod.rs\<close>) and its side of the key exchange:
  \<^verbatim>\<open>src/src/client/kex.rs\<close>, and \<^verbatim>\<open>KexDhDone::server_key_check\<close> of \<^verbatim>\<open>src/src/client/mod.rs\<close>.
\<close>

section \<open>Configuration\<close>

record client_config =
  cc_client_id :: bytes
  cc_limits :: limits
  cc_window_size :: u32
  cc_maximum_packet_size :: u32
  cc_preferred :: preferred
  cc_connection_timeout :: "nat option"

definition client_config_default :: "keys_lib \<Rightarrow> client_config" where
  "client_config_default K = \<lparr>
     cc_client_id = ascii ''SSH-2.0-thrussh_0.30.2'',
     cc_limits = limits_default,
     cc_window_size = 2097152,
     cc_maximum_packet_size = 32768,
     cc_preferred = preferred_DEFAULT K,
     cc_connection_timeout = None \<rparr>"

section \<open>Key exchange\<close>

text \<open>\<^verbatim>\<open>KexInit::client_write\<close>\<close>

definition client_write ::
  "deps \<Rightarrow> world \<Rightarrow> client_config \<Rightarrow> cipher_pair \<Rightarrow> kex_init \<Rightarrow> sshbuffer \<Rightarrow>
   (kex_init \<times> sshbuffer) res" where
  "client_write D W cfg cipher ki wb =
     rbind (write_kex (d_codec D) (cc_preferred cfg) (w_rand W 16) []) (\<lambda>kexinit.
     rbind (cipher_write (d_codec D) (d_sodium D) cipher kexinit wb) (\<lambda>wb'.
     Ok (ki\<lparr> ki_exchange := (ki_exchange ki)\<lparr> client_kex_init := kexinit \<rparr>, ki_sent := True \<rparr>, wb')))"

text \<open>
  \<^verbatim>\<open>KexInit::client_parse\<close>. The Diffie-Hellman packet is appended to \<^verbatim>\<open>client_kex_init\<close>, sent from
  there, and cut off again.
\<close>

definition client_parse ::
  "deps \<Rightarrow> world \<Rightarrow> client_config \<Rightarrow> cipher_pair \<Rightarrow> kex_init \<Rightarrow> bytes \<Rightarrow> sshbuffer \<Rightarrow>
   (kex_dh_done \<times> sshbuffer) res" where
  "client_parse D W cfg cipher ki buf wb =
     (case ki_algo ki of
        Some _ \<Rightarrow> Err (Thrussh E_Kex)
      | None \<Rightarrow>
          let ki1 = ki\<lparr> ki_exchange := (ki_exchange ki)\<lparr> server_kex_init :=
                      server_kex_init (ki_exchange ki) @ buf \<rparr> \<rparr> in
          rbind (read_kex (d_codec D) client_select buf (cc_preferred cfg)) (\<lambda>algo.
          rbind (if \<not> ki_sent ki1 then client_write D W cfg cipher ki1 wb else Ok (ki1, wb))
            (\<lambda>(ki2, wb').
            let i0 = length (client_kex_init (ki_exchange ki2)) in
            rbind (client_dh D W (client_kex_init (ki_exchange ki2))) (\<lambda>(alg, eph, kexinit).
            rbind (slice_from kexinit i0) (\<lambda>dh_packet.
            rbind (cipher_write (d_codec D) (d_sodium D) cipher dh_packet wb') (\<lambda>wb''.
            Ok (\<lparr> kdd_exchange = (ki_exchange ki2)\<lparr> client_ephemeral := eph,
                                     client_kex_init := resize kexinit i0 \<rparr>,
                  kdd_kex = alg, kdd_key = 0, kdd_session_id = ki_session_id ki2,
                  kdd_names = algo \<rparr>, wb'')))))))"

text \<open>
  \<^verbatim>\<open>KexDhDone::server_key_check\<close>. \<open>check\<close> is the handler's \<^verbatim>\<open>check_server_key\<close>: the handler and
  its verdict.
\<close>

definition server_key_check ::
  "deps \<Rightarrow> ('h \<Rightarrow> public_key \<Rightarrow> ('h \<times> bool) res) \<Rightarrow> bool \<Rightarrow> 'h \<Rightarrow> kex_dh_done \<Rightarrow> bytes \<Rightarrow>
   (kex \<times> 'h) res" where
  "server_key_check D check rekey h kdd buf =
     (let C = d_codec D in
      rbind (read_string C buf 1) (\<lambda>(blob, p1).
      rbind (parse_public_key (d_keys D) blob) (\<lambda>pubkey.
      rbind (if \<not> rekey
             then rbind (check h pubkey) (\<lambda>(h', ok).
                    if ok then Ok h' else Err (Thrussh E_UnknownKey))
             else Ok h) (\<lambda>h'.
      rbind (read_string C buf p1) (\<lambda>(eph, p2).
      let ex = (kdd_exchange kdd)\<lparr> server_ephemeral :=
                 server_ephemeral (kdd_exchange kdd) @ eph \<rparr> in
      rbind (read_string C buf p2) (\<lambda>(signature, _).
      rbind (compute_shared_secret D (kdd_kex kdd) (server_ephemeral ex)) (\<lambda>alg.
      rbind (compute_exchange_hash D alg (push_public_key C (d_keys D) pubkey) ex) (\<lambda>hash.
      rbind (read_string C signature 0) (\<lambda>(_, s1).
      rbind (read_string C signature s1) (\<lambda>(sig, _).
      if \<not> verify_server_auth (d_keys D) pubkey hash sig
      then Err (Thrussh E_WrongServerSig)
      else rbind (kdd_compute_keys D (kdd\<lparr> kdd_exchange := ex, kdd_kex := alg \<rparr>) hash False) (\<lambda>nk.
           Ok (Kex_NewKeys (nk\<lparr> nk_sent := True \<rparr>), h'))))))))))))"

end
