(* ===== verification/Kex_Props.thy ===== *)
theory Kex_Props
  imports Server_Kex Client_Kex Session_Props Negotiation_Props
begin

text \<open>
  The key exchange of both sides together: when client and server process each other's packets,
  they end with the same session identifier and with matching ciphers.
\<close>

section \<open>Derived keys\<close>

text \<open>The hash function of the exchange, when it answers, gives 32 bytes.\<close>

definition sha_laws :: "deps \<Rightarrow> bool" where
  "sha_laws D \<longleftrightarrow> (\<forall>b h. d_sha256 D b = Ok h \<longrightarrow> length h = 32)"

definition sha_total :: "deps \<Rightarrow> bool" where
  "sha_total D \<longleftrightarrow> (\<forall>b. \<exists>h. d_sha256 D b = Ok h)"

lemma compute_key_eq:
  assumes "sha_laws D"
  shows "compute_key D a sid hash c 64 =
    rbind (d_sha256 D (shared_mpint D a @ hash @ [c] @ sid)) (\<lambda>k1.
    rmap (\<lambda>k2. k1 @ k2) (d_sha256 D ((shared_mpint D a @ hash) @ k1)))"
proof (cases "d_sha256 D (shared_mpint D a @ hash @ [c] @ sid)")
  case (Ok k1)
  then have k1: "length k1 = 32" using assms by (auto simp: sha_laws_def)
  have "extend_key D (shared_mpint D a @ hash) 64 k1 =
    (case d_sha256 D ((shared_mpint D a @ hash) @ k1) of
       Ok h \<Rightarrow> extend_key D (shared_mpint D a @ hash) 64 (k1 @ h)
     | Err e \<Rightarrow> Some (Err e) | Panic \<Rightarrow> Some Panic | Diverge \<Rightarrow> Some Diverge)"
    by (subst extend_key.simps) (simp add: k1)
  moreover have "extend_key D pre 64 (k1 @ h) = Some (Ok (k1 @ h))" if "length h = 32" for pre h
    by (subst extend_key.simps) (simp add: k1 that)
  moreover have "d_sha256 D b = Ok h \<Longrightarrow> length h = 32" for b h
    using assms by (auto simp: sha_laws_def)
  ultimately show ?thesis
    by (cases "d_sha256 D ((shared_mpint D a @ hash) @ k1)")
      (simp_all add: compute_key_def Ok [simplified])
qed (simp_all add: compute_key_def)

lemma compute_key_length:
  assumes "sha_laws D" and "compute_key D a sid hash c 64 = Ok k"
  shows "length k = 64"
  using assms by (auto simp: compute_key_eq rbind_eq_Ok rmap_eq_Ok sha_laws_def)

lemma compute_keys_Ok:
  assumes "sha_laws D" and "sha_total D" and "key_bytes (d_sodium D) = 32"
  shows "\<exists>pair. compute_keys D a sid hash CHACHA20POLY1305 is_server = Ok pair"
proof -
  have "\<exists>k. compute_key D a sid hash c 64 = Ok k" for c
  proof -
    obtain k1 where "d_sha256 D (shared_mpint D a @ hash @ [c] @ sid) = Ok k1"
      using assms(2) unfolding sha_total_def by blast
    moreover obtain k2 where "d_sha256 D ((shared_mpint D a @ hash) @ k1) = Ok k2"
      using assms(2) unfolding sha_total_def by blast
    ultimately show ?thesis by (simp add: compute_key_eq [OF assms(1)])
  qed
  then obtain key where key: "\<And>c. compute_key D a sid hash c 64 = Ok (key c)" by metis
  have "length (key c) = 64" for c by (rule compute_key_length [OF assms(1) key])
  then show ?thesis
    by (simp add: compute_keys_def CHACHA_KEY_LEN_def key make_sealing_cipher_def
        make_opening_cipher_def slice_from_def assms(3))
qed

text \<open>
  C38. Deriving the keys never panics and never loops: whatever the two hashes, the derived key
  material has exactly the length the ciphers need, so with a working hash function both ciphers
  are made.
\<close>

theorem compute_keys_total:
  assumes "sha_laws D" and "sha_total D" and "key_bytes (d_sodium D) = 32"
  shows "\<exists>pair. compute_keys D a sid hash CHACHA20POLY1305 is_server = Ok pair"
  using compute_keys_Ok [OF assms] .

theorem compute_keys_total_witness:
  "\<exists>pair. compute_keys demo_deps \<lparr> local_secret = None, shared_secret = Some [1] \<rparr> [2] [3]
     CHACHA20POLY1305 True = Ok pair"
  by (rule compute_keys_total)
    (simp_all add: sha_laws_def sha_total_def demo_deps_def demo.key_bytes)

text \<open>The sealing key of one side is the opening key of the other.\<close>

definition matching :: "deps \<Rightarrow> cipher_pair \<Rightarrow> cipher_pair \<Rightarrow> bool" where
  "matching D p q \<longleftrightarrow> (\<exists>k1 k2.
     make_sealing_cipher (d_sodium D) k1 = Ok (local_to_remote p) \<and>
     make_opening_cipher (d_sodium D) k1 = Ok (remote_to_local q) \<and>
     make_sealing_cipher (d_sodium D) k2 = Ok (local_to_remote q) \<and>
     make_opening_cipher (d_sodium D) k2 = Ok (remote_to_local p))"

lemma sealing_opening:
  "(\<exists>sc. make_sealing_cipher S k = Ok sc) \<longleftrightarrow> (\<exists>oc. make_opening_cipher S k = Ok oc)"
  by (auto simp: make_sealing_cipher_def make_opening_cipher_def rbind_eq_Ok rassert_eq_Ok)

lemma compute_keys_match:
  assumes "compute_keys D a sid hash cipher True = Ok p"
    and "shared_secret b = shared_secret a"
  obtains q where "compute_keys D b sid hash cipher False = Ok q" and "matching D p q"
proof -
  have cipher: "cipher = CHACHA20POLY1305"
    using assms(1) by (auto simp: compute_keys_def split: if_splits)
  have sm: "compute_key D b = compute_key D a"
    by (simp add: fun_eq_iff compute_key_def shared_mpint_def assms(2))
  obtain k1 k2 where k1: "compute_key D a sid hash (of_char CHR ''D'') CHACHA_KEY_LEN = Ok k1"
    and k2: "compute_key D a sid hash (of_char CHR ''C'') CHACHA_KEY_LEN = Ok k2"
    and s: "make_sealing_cipher (d_sodium D) k1 = Ok (local_to_remote p)"
    and o: "make_opening_cipher (d_sodium D) k2 = Ok (remote_to_local p)"
    using assms(1) by (auto simp: compute_keys_def cipher rbind_eq_Ok)
  obtain sc where sc: "make_sealing_cipher (d_sodium D) k2 = Ok sc"
    using o sealing_opening by blast
  obtain oc where oc: "make_opening_cipher (d_sodium D) k1 = Ok oc"
    using s sealing_opening by blast
  let ?q = "\<lparr> local_to_remote = sc, remote_to_local = oc \<rparr>"
  have "compute_keys D b sid hash cipher False = Ok ?q"
    using k1 k2 sc oc by (simp add: compute_keys_def cipher sm)
  moreover have "matching D p ?q"
    unfolding matching_def using s o sc oc by auto
  ultimately show thesis by (rule that)
qed

lemma matching_packet_cipher:
  assumes "codec_laws (d_codec D)" and "sodium_laws (d_sodium D)" and "matching D p q"
  shows "packet_cipher (d_codec D) (d_sodium D) (local_to_remote p) (remote_to_local q)"
    and "packet_cipher (d_codec D) (d_sodium D) (local_to_remote q) (remote_to_local p)"
  using assms(3) chacha_packet_cipher [OF assms(1,2)]
  by (auto simp: matching_def dest!: make_cipher_keys)

section \<open>The server's answer\<close>

text \<open>
  What the exchange relies on of a host key and the keys library: the encoded public key is one
  string, which parses back to the public key; a signature is appended as one string of an
  algorithm name and the signature proper, which the public key verifies.
\<close>

definition key_usable :: "deps \<Rightarrow> key_pair \<Rightarrow> bool" where
  "key_usable D kp \<longleftrightarrow>
     (\<forall>b. push_key_pair (d_codec D) (d_keys D) kp [] = Ok b \<longrightarrow>
        (\<exists>blob. b = ssh_string (d_codec D) blob \<and> length blob < 2 ^ 32 \<and>
           parse_public_key (d_keys D) blob = Ok (public_of kp))) \<and>
     (\<forall>b h r. length h = 32 \<and> add_signature (d_keys D) kp b h = Ok r \<longrightarrow>
        (\<exists>alg sig s. s = ssh_string (d_codec D) alg @ ssh_string (d_codec D) sig \<and>
           r = b @ ssh_string (d_codec D) s \<and> length s < 2 ^ 32 \<and>
           verify_server_auth (d_keys D) (public_of kp) h sig))"

lemma push_key_pair_append:
  "push_key_pair C K kp buffer = rmap (\<lambda>x. buffer @ x) (push_key_pair C K kp [])"
  by (cases kp) (auto simp: slice_from_def)

lemma server_dh_init:
  assumes "codec_laws (d_codec D)" and "length eph < 2 ^ 32"
    and "server_dh D W ex ([MSG_KEX_ECDH_INIT] @ ssh_string (d_codec D) eph) = Ok (alg, ex2)"
  obtains secret where "w_rand W 32 = Ok secret" and "length eph = 32"
    and "alg = \<lparr> local_secret = None, shared_secret = Some (scalarmult (d_sodium D) secret eph) \<rparr>"
    and "ex2 = ex\<lparr> server_ephemeral := scalarmult_base (d_sodium D) secret \<rparr>"
proof -
  let ?C = "d_codec D"
  have l4: "length (u32_be ?C w) = 4" for w by (rule codec_laws.len_u32_be [OF assms(1)])
  have be: "be_u32 ?C (u32_be ?C w @ r) = w" for w r
    by (rule codec_laws.be_u32_u32_be [OF assms(1)])
  have pay: "[MSG_KEX_ECDH_INIT] @ ssh_string ?C eph =
      MSG_KEX_ECDH_INIT # u32_be ?C (as_u32 (length eph)) @ eph"
    by (simp add: codec_laws.ssh_string_eq [OF assms(1)])
  have len: "as_usize (as_u32 (length eph)) = length eph"
    using assms(2) by (rule as_usize_as_u32)
  have "drop 4 (u32_be ?C (as_u32 (length eph))) = []" by (simp add: l4)
  then have "slice (MSG_KEX_ECDH_INIT # u32_be ?C (as_u32 (length eph)) @ eph) 5 (5 + length eph) = Ok eph"
    by (simp add: slice_def l4)
  with assms(3) show thesis
    unfolding pay server_dh_def
    by (auto simp: index_def slice_from_def rassert_eq_Ok rbind_eq_Ok be len l4 Let_def intro: that)
qed

lemma server_answer:
  assumes "codec_laws (d_codec D)" and "length eph < 2 ^ 32"
    and "kexdh_parse D W cfg cipher kd ([MSG_KEX_ECDH_INIT] @ ssh_string (d_codec D) eph) wb =
      Ok (k, wb2)"
    and "\<not> ignore_guessed (kd_names kd)" and "client_ephemeral (kd_exchange kd) = []"
  obtains secret key x hash alg ex reply wb1 nk where
    "w_rand W 32 = Ok secret" and "length eph = 32"
    and "index (sc_keys cfg) (kd_key kd) = Ok key"
    and "push_key_pair (d_codec D) (d_keys D) key [] = Ok x"
    and "ex = (kd_exchange kd)\<lparr> client_ephemeral := eph,
               server_ephemeral := scalarmult_base (d_sodium D) secret \<rparr>"
    and "alg = \<lparr> local_secret = None, shared_secret = Some (scalarmult (d_sodium D) secret eph) \<rparr>"
    and "compute_exchange_hash D alg (push_key_pair (d_codec D) (d_keys D) key) ex = Ok hash"
    and "add_signature (d_keys D) key ([MSG_KEX_ECDH_REPLY] @ x @
           ssh_string (d_codec D) (scalarmult_base (d_sodium D) secret)) hash = Ok reply"
    and "cipher_write (d_codec D) (d_sodium D) cipher reply wb = Ok wb1"
    and "cipher_write (d_codec D) (d_sodium D) cipher [MSG_NEWKEYS] wb1 = Ok wb2"
    and "kdd_compute_keys D \<lparr> kdd_exchange = ex, kdd_kex = alg, kdd_key = kd_key kd,
           kdd_session_id = kd_session_id kd, kdd_names = kd_names kd \<rparr> hash True = Ok nk"
    and "k = Kex_NewKeys nk"
proof -
  let ?C = "d_codec D" and ?buf = "[MSG_KEX_ECDH_INIT] @ ssh_string (d_codec D) eph"
  have d1: "drop 1 ?buf = ssh_string ?C eph @ []" by simp
  obtain q where rd: "read_string ?C ?buf 1 = Ok (eph, q)"
    by (rule codec_laws.read_string_ex [OF assms(1) d1 assms(2)])
  have idx: "index ?buf 0 = Ok MSG_KEX_ECDH_INIT" by (simp add: index_def)
  from assms(3) obtain alg ex key hash b1 reply wb1 nk where
    dh: "server_dh D W ((kd_exchange kd)\<lparr> client_ephemeral := eph \<rparr>) ?buf = Ok (alg, ex)"
    and key: "index (sc_keys cfg) (kd_key kd) = Ok key"
    and hash: "compute_exchange_hash D alg (push_key_pair ?C (d_keys D) key) ex = Ok hash"
    and b1: "push_key_pair ?C (d_keys D) key [MSG_KEX_ECDH_REPLY] = Ok b1"
    and sig: "add_signature (d_keys D) key (b1 @ ssh_string ?C (server_ephemeral ex)) hash = Ok reply"
    and w1: "cipher_write ?C (d_sodium D) cipher reply wb = Ok wb1"
    and w2: "cipher_write ?C (d_sodium D) cipher [MSG_NEWKEYS] wb1 = Ok wb2"
    and nk: "kdd_compute_keys D \<lparr> kdd_exchange = ex, kdd_kex = alg, kdd_key = kd_key kd,
           kdd_session_id = kd_session_id kd, kdd_names = kd_names kd \<rparr> hash True = Ok nk"
    and k: "k = Kex_NewKeys nk"
    unfolding kexdh_parse_def Let_def
    by (auto simp: assms(4,5) rd [simplified] idx [simplified] rbind_eq_Ok)
  obtain secret where s: "w_rand W 32 = Ok secret" "length eph = 32"
    "alg = \<lparr> local_secret = None, shared_secret = Some (scalarmult (d_sodium D) secret eph) \<rparr>"
    "ex = (kd_exchange kd)\<lparr> client_ephemeral := eph,
       server_ephemeral := scalarmult_base (d_sodium D) secret \<rparr>"
    by (rule server_dh_init [OF assms(1,2) dh]) simp
  obtain x where x: "push_key_pair ?C (d_keys D) key [] = Ok x" "b1 = [MSG_KEX_ECDH_REPLY] @ x"
    using b1 unfolding push_key_pair_append [of ?C "d_keys D" key "[MSG_KEX_ECDH_REPLY]"]
    by (auto simp: rmap_eq_Ok)
  show thesis
    by (rule that [OF s(1,2) key x(1) s(4,3) hash _ w1 w2 nk k]) (use sig x(2) s(4) in simp)
qed

section \<open>The client's check\<close>

lemma compute_exchange_hash_cong:
  assumes "shared_secret a = shared_secret b"
    and "push_key_pair C K key [] = Ok x" and "C = d_codec D" and "K = d_keys D"
  shows "compute_exchange_hash D b (push_public_key C K (public_of key)) ex =
    compute_exchange_hash D a (push_key_pair C K key) ex"
proof -
  have "push_public_key C K (public_of key) buf = push_key_pair C K key buf" for buf
    using push_key_pair_append [of C K key buf] assms(2) push_key_pair_public [of C K key buf]
    by (simp add: assms(2))
  moreover have "shared_mpint D a = shared_mpint D b" by (simp add: shared_mpint_def assms(1))
  ultimately show ?thesis by (simp add: compute_exchange_hash_def Let_def)
qed

lemma client_check:
  fixes D :: deps
  defines "C \<equiv> d_codec D" and "K \<equiv> d_keys D"
  assumes "codec_laws C" and "key_usable D key"
    and "push_key_pair C K key [] = Ok x"
    and "add_signature K key ([MSG_KEX_ECDH_REPLY] @ x @ ssh_string C seph) hash = Ok reply"
    and "length seph = 32" and "length hash = 32"
    and "local_secret (kdd_kex kdd) = Some a" and "server_ephemeral (kdd_exchange kdd) = []"
    and "ex = (kdd_exchange kdd)\<lparr> server_ephemeral := seph \<rparr>"
    and "shared_secret alg = Some (scalarmult (d_sodium D) a seph)"
    and "compute_exchange_hash D alg (push_key_pair C K key) ex = Ok hash"
    and "check h (public_of key) = Ok (h', True)"
  shows "server_key_check D check rekey h kdd reply =
    rmap (\<lambda>nk. (Kex_NewKeys (nk\<lparr> nk_sent := True \<rparr>), if rekey then h else h'))
      (kdd_compute_keys D (kdd\<lparr> kdd_exchange := ex,
         kdd_kex := \<lparr> local_secret = None, shared_secret = shared_secret alg \<rparr> \<rparr>) hash False)"
proof -
  obtain blob where blob: "x = ssh_string C blob" "length blob < 2 ^ 32"
    "parse_public_key K blob = Ok (public_of key)"
    using assms(4,5) unfolding key_usable_def C_def K_def by blast
  obtain al sig s where s: "s = ssh_string C al @ ssh_string C sig"
    "reply = ([MSG_KEX_ECDH_REPLY] @ x @ ssh_string C seph) @ ssh_string C s"
    "length s < 2 ^ 32" "verify_server_auth K (public_of key) hash sig"
    using assms(4,6,8) unfolding key_usable_def C_def K_def by blast
  note ex = codec_laws.read_string_ex [OF assms(3)]
  have al: "length al < 2 ^ 32" "length sig < 2 ^ 32"
    using s(3) by (simp_all add: s(1) codec_laws.length_ssh_string [OF assms(3)])
  have d1: "drop 1 reply = ssh_string C blob @ ssh_string C seph @ ssh_string C s"
    by (simp add: s(2) blob(1))
  obtain p1 where r1: "read_string C reply 1 = Ok (blob, p1)"
    and d2: "drop p1 reply = ssh_string C seph @ ssh_string C s"
    by (rule ex [OF d1 blob(2)])
  obtain p2 where r2: "read_string C reply p1 = Ok (seph, p2)"
    and d3: "drop p2 reply = ssh_string C s @ []"
    by (rule ex [OF d2]) (simp_all add: assms(7))
  obtain p3 where r3: "read_string C reply p2 = Ok (s, p3)"
    by (rule ex [OF d3 s(3)])
  have d4: "drop 0 s = ssh_string C al @ ssh_string C sig" by (simp add: s(1))
  obtain p4 where r4: "read_string C s 0 = Ok (al, p4)" and d5: "drop p4 s = ssh_string C sig @ []"
    by (rule ex [OF d4 al(1)]) simp
  obtain p5 where r5: "read_string C s p4 = Ok (sig, p5)"
    by (rule ex [OF d5 al(2)])
  let ?alg = "\<lparr> local_secret = None, shared_secret = shared_secret alg \<rparr>"
  have sec: "compute_shared_secret D (kdd_kex kdd) seph = Ok ?alg"
    by (simp add: compute_shared_secret_def assms(7,9,12))
  have ex': "(kdd_exchange kdd)\<lparr> server_ephemeral := server_ephemeral (kdd_exchange kdd) @ seph \<rparr> = ex"
    by (simp add: assms(10,11))
  have se: "server_ephemeral ex = seph" by (simp add: assms(11))
  have hash: "compute_exchange_hash D ?alg (push_public_key C K (public_of key)) ex = Ok hash"
    using compute_exchange_hash_cong [of alg ?alg C K key x D ex] assms(5,13)
    by (simp add: C_def K_def)
  have chk: "(if \<not> rekey then rbind (check h (public_of key)) (\<lambda>(h', ok).
        if ok then Ok h' else Err (Thrussh E_UnknownKey)) else Ok h) =
      Ok (if rekey then h else h')"
    by (simp add: assms(14))
  show ?thesis
    unfolding server_key_check_def Let_def C_def [symmetric] K_def [symmetric]
    unfolding r1 rbind.simps prod.case blob(3) chk r2 r3 r4 r5 ex' se sec hash
    by (simp add: s(4) rmap_def)
qed

section \<open>The whole exchange\<close>

text \<open>Every sequence of packets written with \<open>p\<close> is read with \<open>q\<close>.\<close>

definition delivers :: "deps \<Rightarrow> cipher_pair \<Rightarrow> cipher_pair \<Rightarrow> bool" where
  "delivers D p q \<longleftrightarrow> (\<forall>ps rest wb rb.
     (\<forall>x \<in> set ps. length x + 256 < 2 ^ 32) \<and> sb_seqn wb = sb_seqn rb \<longrightarrow>
     (\<exists>stream wb' rb'.
        write_packets (d_codec D) (d_sodium D) p ps wb = Ok wb' \<and>
        sb_buffer wb' = sb_buffer wb @ stream \<and>
        read_packets (d_codec D) (d_sodium D) q (length ps) (stream @ rest) rb = Ok (ps, rest, rb')))"

lemma packet_cipher_delivers:
  assumes "packet_cipher (d_codec D) (d_sodium D) (local_to_remote p) (remote_to_local q)"
  shows "delivers D p q"
  unfolding delivers_def
proof (intro allI impI)
  fix ps :: "bytes list" and rest :: bytes and wb rb :: sshbuffer
  assume "(\<forall>x \<in> set ps. length x + 256 < 2 ^ 32) \<and> sb_seqn wb = sb_seqn rb"
  then show "\<exists>stream wb' rb'.
        write_packets (d_codec D) (d_sodium D) p ps wb = Ok wb' \<and>
        sb_buffer wb' = sb_buffer wb @ stream \<and>
        read_packets (d_codec D) (d_sodium D) q (length ps) (stream @ rest) rb = Ok (ps, rest, rb')"
    using packet_cipher.write_read_all [OF assms, of ps p q wb rb rest] by blast
qed

text \<open>The payload of one packet, as a reading round finds it.\<close>

lemma delivered_packet:
  assumes "delivers D cp cq" and "length p + 256 < 2 ^ 32" and "sb_seqn wb = sb_seqn rb"
    and "cipher_write (d_codec D) (d_sodium D) cp p wb = Ok wb'"
  obtains stream n rb' where "sb_buffer wb' = sb_buffer wb @ stream"
    and "cipher_read (d_codec D) (d_sodium D) cq (stream @ rest) rb = (Ok n, rest, rb')" and "drop 5 (sb_buffer rb') = p"
proof -
  obtain stream rb1 where s: "sb_buffer wb' = sb_buffer wb @ stream"
    and r: "read_packets (d_codec D) (d_sodium D) cq 1 (stream @ rest) rb = Ok ([p], rest, rb1)"
    using assms(1) [unfolded delivers_def, THEN spec [of _ "[p]"], THEN spec [of _ rest], THEN spec [of _ wb],
        THEN spec [of _ rb]] assms(2-4) by auto
  obtain x st rb' where c: "cipher_read (d_codec D) (d_sodium D) cq (stream @ rest) rb = (x, st, rb')"
    by (cases "cipher_read (d_codec D) (d_sodium D) cq (stream @ rest) rb")
  with r obtain n where "x = Ok n" "st = rest" "drop 5 (sb_buffer rb') = p"
    by (cases x) auto
  with s c show thesis by (intro that) auto
qed

lemma client_parse_Ok:
  assumes "client_parse D W cfg cipher ki buf wb = Ok (kdd, wb')" and "ki_sent ki"
    and "server_kex_init (ki_exchange ki) = []"
  obtains a algo where "w_rand W 32 = Ok a"
    and "read_kex (d_codec D) client_select buf (cc_preferred cfg) = Ok algo"
    and "kdd = \<lparr> kdd_exchange = (ki_exchange ki)\<lparr> server_kex_init := buf,
                 client_ephemeral := scalarmult_base (d_sodium D) a \<rparr>,
               kdd_kex = \<lparr> local_secret = Some a, shared_secret = None \<rparr>, kdd_key = 0,
               kdd_session_id = ki_session_id ki, kdd_names = algo \<rparr>"
    and "cipher_write (d_codec D) (d_sodium D) cipher ([MSG_KEX_ECDH_INIT] @
           ssh_string (d_codec D) (scalarmult_base (d_sodium D) a)) wb = Ok wb'"
  using assms
  by (cases "ki_exchange ki")
    (auto simp: client_parse_def Let_def rbind_eq_Ok client_dh_def slice_from_def resize_shrink
      split: option.split_asm if_split_asm intro: that)

lemma server_parse_Ok:
  assumes "server_parse D W cfg cipher ki buf wb = Ok (Kex_KexDh kd, wb')" and "ki_sent ki"
    and "client_kex_init (ki_exchange ki) = []"
  shows "\<exists>algo. read_kex (d_codec D) server_select buf (sc_preferred cfg) = Ok algo \<and>
    kd = \<lparr> kd_exchange = (ki_exchange ki)\<lparr> client_kex_init := buf \<rparr>, kd_names = algo,
           kd_key = find_key (d_keys D) (sc_keys cfg) (nm_key algo),
           kd_session_id = ki_session_id ki \<rparr>"
  using assms
  by (auto simp: server_parse_def Let_def rbind_eq_Ok split: if_split_asm)

lemma negotiated_not_guessed: "negotiated select P Q = Ok n \<Longrightarrow> \<not> ignore_guessed n"
  by (auto simp: negotiated_def split: option.split_asm)

text \<open>A key exchange about to start: identification strings known, nothing sent.\<close>

definition kex_start :: "bytes \<Rightarrow> bytes \<Rightarrow> bytes option \<Rightarrow> kex_init" where
  "kex_start cid sid session = \<lparr> ki_algo = None,
     ki_exchange = exchange_new\<lparr> client_id := cid, server_id := sid \<rparr>,
     ki_session_id = session, ki_sent = False \<rparr>"

abbreviation kex_ids :: "bytes \<Rightarrow> bytes \<Rightarrow> exchange" where
  "kex_ids cid sid \<equiv> exchange_new\<lparr> client_id := cid, server_id := sid \<rparr>"

text \<open>What both sides hold once they have read each other's KEXINIT.\<close>

lemma handshake_states:
  assumes laws: "codec_laws (d_codec D)"
    and prefs: "good_pref (cc_preferred ccfg)" "good_pref (sc_preferred scfg)"
    and cookies: "\<forall>b. w_rand Wc 16 = Ok b \<longrightarrow> length b = 16"
      "\<forall>b. w_rand Ws 16 = Ok b \<longrightarrow> length b = 16"
    and cw: "client_write D Wc ccfg cp (kex_start cid sid session) wc = Ok (kic, wc1)"
    and sw: "server_write D Ws scfg sp (kex_start cid sid session) ws = Ok (kis, ws1)"
    and cparse: "client_parse D Wc' ccfg cp kic (server_kex_init (ki_exchange kis)) wc1 = Ok (kdd, wc2)"
    and sparse: "server_parse D Ws' scfg sp kis (client_kex_init (ki_exchange kic)) ws1 =
      Ok (Kex_KexDh kd, ws2)"
  obtains ci si a algo where
    "kdd = \<lparr> kdd_exchange = (kex_ids cid sid)\<lparr> client_kex_init := ci, server_kex_init := si,
               client_ephemeral := scalarmult_base (d_sodium D) a \<rparr>,
             kdd_kex = \<lparr> local_secret = Some a, shared_secret = None \<rparr>, kdd_key = 0,
             kdd_session_id = session, kdd_names = algo \<rparr>"
    and "kd = \<lparr> kd_exchange = (kex_ids cid sid)\<lparr> client_kex_init := ci, server_kex_init := si \<rparr>,
             kd_names = algo, kd_key = find_key (d_keys D) (sc_keys scfg) (nm_key algo),
             kd_session_id = session \<rparr>"
    and "\<not> ignore_guessed algo"
proof -
  let ?C = "d_codec D"
  obtain ci cc where ci: "write_kex ?C (cc_preferred ccfg) (Ok cc) [] = Ok ci" "length cc = 16"
    and kic: "kic = \<lparr> ki_algo = None, ki_exchange = (kex_ids cid sid)\<lparr> client_kex_init := ci \<rparr>,
      ki_session_id = session, ki_sent = True \<rparr>"
    using cw cookies(1) by (auto simp: client_write_def kex_start_def rbind_eq_Ok write_kex_def)
  obtain si cs where si: "write_kex ?C (sc_preferred scfg) (Ok cs) [] = Ok si" "length cs = 16"
    and kis: "kis = \<lparr> ki_algo = None, ki_exchange = (kex_ids cid sid)\<lparr> server_kex_init := si \<rparr>,
      ki_session_id = session, ki_sent = True \<rparr>"
    using sw cookies(2) by (auto simp: server_write_def kex_start_def rbind_eq_Ok write_kex_def)
  obtain a calgo where ca: "read_kex ?C client_select si (cc_preferred ccfg) = Ok calgo"
    and kdd: "kdd = \<lparr> kdd_exchange = (kex_ids cid sid)\<lparr> client_kex_init := ci, server_kex_init := si,
                 client_ephemeral := scalarmult_base (d_sodium D) a \<rparr>,
               kdd_kex = \<lparr> local_secret = Some a, shared_secret = None \<rparr>, kdd_key = 0,
               kdd_session_id = session, kdd_names = calgo \<rparr>"
    by (rule client_parse_Ok [OF cparse]) (auto simp: kic kis exchange_new_def)
  obtain salgo where sa: "read_kex ?C server_select ci (sc_preferred scfg) = Ok salgo"
    and kd: "kd = \<lparr> kd_exchange = (kex_ids cid sid)\<lparr> client_kex_init := ci, server_kex_init := si \<rparr>,
               kd_names = salgo, kd_key = find_key (d_keys D) (sc_keys scfg) (nm_key salgo),
               kd_session_id = session \<rparr>"
    using server_parse_Ok [OF sparse] by (auto simp: kic kis exchange_new_def)
  have neg: "read_kex ?C server_select ci (sc_preferred scfg) =
      negotiated server_select (sc_preferred scfg) (cc_preferred ccfg)"
    by (rule codec_laws.read_kex_written [OF laws ci prefs(1)])
  have "read_kex ?C client_select si (cc_preferred ccfg) =
      negotiated client_select (cc_preferred ccfg) (sc_preferred scfg)"
    by (rule codec_laws.read_kex_written [OF laws si prefs(2)])
  with neg ca sa have algo: "calgo = salgo" by (simp add: negotiated_agree [OF prefs])
  have "\<not> ignore_guessed salgo" using negotiated_not_guessed sa neg by simp
  with kdd kd show thesis unfolding algo by (rule that)
qed

text \<open>Both derive the same keys from the same secret.\<close>

lemma new_keys_match:
  assumes laws: "codec_laws (d_codec D)" "sodium_laws (d_sodium D)"
    and nks: "kdd_compute_keys D k hash True = Ok nks"
    and k': "kdd_names k' = kdd_names k" "kdd_session_id k' = kdd_session_id k"
      "shared_secret (kdd_kex k') = shared_secret (kdd_kex k)"
  obtains nkc where "kdd_compute_keys D k' hash False = Ok nkc"
    and "nk_names nkc = nk_names nks" and "nk_session_id nkc = nk_session_id nks"
    and "delivers D (nk_cipher nkc) (nk_cipher nks)" and "delivers D (nk_cipher nks) (nk_cipher nkc)"
proof -
  let ?sid = "case kdd_session_id k of Some s \<Rightarrow> s | None \<Rightarrow> hash"
  obtain p where p: "compute_keys D (kdd_kex k) ?sid hash (nm_cipher (kdd_names k)) True = Ok p"
    and nk: "nk_cipher nks = p" "nk_session_id nks = ?sid" "nk_names nks = kdd_names k"
    using nks by (auto simp: kdd_compute_keys_def Let_def rbind_eq_Ok)
  obtain q where q: "compute_keys D (kdd_kex k') ?sid hash (nm_cipher (kdd_names k)) False = Ok q"
    and m: "matching D p q"
    by (rule compute_keys_match [OF p, where b = "kdd_kex k'"]) (simp_all add: k')
  have "delivers D p q" "delivers D q p"
    using matching_packet_cipher [OF laws m] by (auto intro: packet_cipher_delivers)
  moreover obtain nkc where "kdd_compute_keys D k' hash False = Ok nkc"
    and "nk_cipher nkc = q" "nk_session_id nkc = ?sid" "nk_names nkc = kdd_names k"
    using q k' by (simp add: kdd_compute_keys_def Let_def)
  ultimately show thesis by (intro that [of nkc]) (auto simp: nk)
qed

text \<open>What the server answers is accepted, and yields the same keys on both sides.\<close>

lemma answer_accepted:
  assumes laws: "codec_laws (d_codec D)" "sodium_laws (d_sodium D)" "sha_laws D"
    and keys: "\<forall>key \<in> set (sc_keys scfg). key_usable D key \<and> check h (public_of key) = Ok (h', True)"
    and kdd: "kdd = \<lparr> kdd_exchange = (kex_ids cid sid)\<lparr> client_kex_init := ci, server_kex_init := si,
               client_ephemeral := scalarmult_base (d_sodium D) a \<rparr>,
             kdd_kex = \<lparr> local_secret = Some a, shared_secret = None \<rparr>, kdd_key = 0,
             kdd_session_id = session, kdd_names = algo \<rparr>"
    and kd: "kd = \<lparr> kd_exchange = (kex_ids cid sid)\<lparr> client_kex_init := ci, server_kex_init := si \<rparr>,
             kd_names = algo, kd_key = i, kd_session_id = session \<rparr>" and ng: "\<not> ignore_guessed algo"
    and dh: "kexdh_parse D W scfg sp kd ([MSG_KEX_ECDH_INIT] @
      ssh_string (d_codec D) (client_ephemeral (kdd_exchange kdd))) ws2 = Ok (Kex_NewKeys nks, ws4)"
  obtains reply ws3 nkc where "cipher_write (d_codec D) (d_sodium D) sp reply ws2 = Ok ws3"
    and "cipher_write (d_codec D) (d_sodium D) sp [MSG_NEWKEYS] ws3 = Ok ws4"
    and "index reply 0 = Ok MSG_KEX_ECDH_REPLY"
    and "server_key_check D check False h kdd reply = Ok (Kex_NewKeys nkc, h')"
    and "nk_names nkc = nk_names nks" and "nk_session_id nkc = nk_session_id nks"
    and "delivers D (nk_cipher nkc) (nk_cipher nks)" and "delivers D (nk_cipher nks) (nk_cipher nkc)"
proof -
  let ?C = "d_codec D" and ?S = "d_sodium D" and ?K = "d_keys D" and ?eph = "scalarmult_base (d_sodium D) a"
  have l: "length ?eph < 2 ^ 32" "length (scalarmult_base ?S b) = 32" for b
    by (simp_all add: sodium_laws.scalarmult_base_length [OF laws(2)])
  have eph: "client_ephemeral (kdd_exchange kdd) = ?eph" by (simp add: kdd)
  obtain secret key x hash alg ex reply ws3 nk where key: "index (sc_keys scfg) (kd_key kd) = Ok key"
    and x: "push_key_pair ?C ?K key [] = Ok x"
    and ex: "ex = (kd_exchange kd)\<lparr> client_ephemeral := ?eph, server_ephemeral := scalarmult_base ?S secret \<rparr>"
    and alg: "alg = \<lparr> local_secret = None, shared_secret = Some (scalarmult ?S secret ?eph) \<rparr>"
    and hash: "compute_exchange_hash D alg (push_key_pair ?C ?K key) ex = Ok hash"
    and sig: "add_signature ?K key ([MSG_KEX_ECDH_REPLY] @ x @ ssh_string ?C (scalarmult_base ?S secret))
      hash = Ok reply"
    and w: "cipher_write ?C ?S sp reply ws2 = Ok ws3" "cipher_write ?C ?S sp [MSG_NEWKEYS] ws3 = Ok ws4"
    and nk: "kdd_compute_keys D \<lparr> kdd_exchange = ex, kdd_kex = alg, kdd_key = kd_key kd,
           kdd_session_id = kd_session_id kd, kdd_names = kd_names kd \<rparr> hash True = Ok nks"
    by (rule server_answer [OF laws(1) l(1) dh [unfolded eph]]) (auto simp: kd ng exchange_new_def)
  have usable: "key_usable D key" "check h (public_of key) = Ok (h', True)"
    using key keys by (auto simp: index_def split: if_split_asm)
  have hl: "length hash = 32"
    using hash laws(3) by (auto simp: compute_exchange_hash_def Let_def sha_laws_def rbind_eq_Ok)
  have shared: "shared_secret alg = Some (scalarmult ?S a (scalarmult_base ?S secret))"
    using sodium_laws.scalarmult_commute [OF laws(2), of secret a] by (simp add: alg)
  let ?kdd = "kdd\<lparr> kdd_exchange := ex,
      kdd_kex := \<lparr> local_secret = None, shared_secret = shared_secret alg \<rparr> \<rparr>"
  have check: "server_key_check D check False h kdd reply =
    rmap (\<lambda>nk. (Kex_NewKeys (nk\<lparr> nk_sent := True \<rparr>), if False then h else h'))
      (kdd_compute_keys D ?kdd hash False)"
    by (rule client_check [where check = check and h = h and h' = h',
          OF laws(1) usable(1) x sig l(2) hl _ _ _ shared hash usable(2)])
      (simp_all add: kdd ex kd exchange_new_def)
  have head: "index reply 0 = Ok MSG_KEX_ECDH_REPLY"
    using usable(1) sig hl unfolding key_usable_def by (fastforce simp: index_def)
  obtain nkc where "kdd_compute_keys D ?kdd hash False = Ok nkc"
    "nk_names nkc = nk_names nks" "nk_session_id nkc = nk_session_id nks"
    "delivers D (nk_cipher nkc) (nk_cipher nks)" "delivers D (nk_cipher nks) (nk_cipher nkc)"
    by (rule new_keys_match [OF laws(1,2) nk, of ?kdd]) (simp_all add: kdd kd)
  then show thesis
    by (intro that [OF w head, of "nkc\<lparr> nk_sent := True \<rparr>"]) (simp_all add: check)
qed

text \<open>
  C2. The key exchange works. Client and server start with the identification strings and read
  each other's KEXINIT; the server answers the client's Diffie-Hellman packet. If none of these
  steps fails and the handler accepts the host key, then the client accepts the answer the server
  has written, both sides hold the same negotiated names and the same session identifier, and
  every sequence of packets one side encrypts with the new keys is decrypted by the other, in
  both directions.
\<close>

theorem handshake_agreement:
  assumes laws: "codec_laws (d_codec D)" "sodium_laws (d_sodium D)" "sha_laws D"
    and prefs: "good_pref (cc_preferred ccfg)" "good_pref (sc_preferred scfg)"
    and cookies: "\<forall>b. w_rand Wc 16 = Ok b \<longrightarrow> length b = 16"
      "\<forall>b. w_rand Ws 16 = Ok b \<longrightarrow> length b = 16"
    and keys: "\<forall>key \<in> set (sc_keys scfg). key_usable D key \<and> check h (public_of key) = Ok (h', True)"
    and cw: "client_write D Wc ccfg cp (kex_start cid sid session) wc = Ok (kic, wc1)"
    and sw: "server_write D Ws scfg sp (kex_start cid sid session) ws = Ok (kis, ws1)"
    and cparse: "client_parse D Wc' ccfg cp kic (server_kex_init (ki_exchange kis)) wc1 = Ok (kdd, wc2)"
    and sparse: "server_parse D Ws' scfg sp kis (client_kex_init (ki_exchange kic)) ws1 =
      Ok (Kex_KexDh kd, ws2)"
    and dh: "kexdh_parse D Ws'' scfg sp kd ([MSG_KEX_ECDH_INIT] @
      ssh_string (d_codec D) (client_ephemeral (kdd_exchange kdd))) ws2 = Ok (Kex_NewKeys nks, ws4)"
  shows "\<exists>reply ws3 nkc.
    cipher_write (d_codec D) (d_sodium D) sp reply ws2 = Ok ws3 \<and>
    cipher_write (d_codec D) (d_sodium D) sp [MSG_NEWKEYS] ws3 = Ok ws4 \<and>
    server_key_check D check False h kdd reply = Ok (Kex_NewKeys nkc, h') \<and>
    nk_names nkc = nk_names nks \<and> nk_session_id nkc = nk_session_id nks \<and>
    delivers D (nk_cipher nkc) (nk_cipher nks) \<and> delivers D (nk_cipher nks) (nk_cipher nkc)"
proof -
  obtain ci si a algo where kdd: "kdd = \<lparr> kdd_exchange = (kex_ids cid sid)\<lparr> client_kex_init := ci,
        server_kex_init := si, client_ephemeral := scalarmult_base (d_sodium D) a \<rparr>,
      kdd_kex = \<lparr> local_secret = Some a, shared_secret = None \<rparr>, kdd_key = 0,
      kdd_session_id = session, kdd_names = algo \<rparr>"
    and kd: "kd = \<lparr> kd_exchange = (kex_ids cid sid)\<lparr> client_kex_init := ci, server_kex_init := si \<rparr>,
      kd_names = algo, kd_key = find_key (d_keys D) (sc_keys scfg) (nm_key algo), kd_session_id = session \<rparr>"
    and ng: "\<not> ignore_guessed algo"
    by (rule handshake_states [OF laws(1) prefs cookies cw sw cparse sparse])
  show ?thesis
    by (rule answer_accepted [where check = check and h = h and h' = h', OF laws keys kdd kd ng dh]) blast
qed

section \<open>The exchange completes\<close>

text \<open>
  What the steps need in order to succeed: random bytes, a cipher that writes, a host key that
  signs, and a common choice of algorithms for which the server has a key.
\<close>

definition rand_ok :: "world \<Rightarrow> bool" where
  "rand_ok W \<longleftrightarrow> (\<forall>n. \<exists>b. w_rand W n = Ok b \<and> length b = n)"

definition writable :: "deps \<Rightarrow> cipher_pair \<Rightarrow> bool" where
  "writable D cp \<longleftrightarrow> (\<forall>p wb. length p + 256 < 2 ^ 32 \<longrightarrow>
     (\<exists>wb'. cipher_write (d_codec D) (d_sodium D) cp p wb = Ok wb'))"

definition key_signs :: "deps \<Rightarrow> key_pair \<Rightarrow> bool" where
  "key_signs D key \<longleftrightarrow> (\<exists>x. push_key_pair (d_codec D) (d_keys D) key [] = Ok x \<and>
     (\<forall>h eph. length h = 32 \<and> length eph = 32 \<longrightarrow>
        (\<exists>r. add_signature (d_keys D) key
               ([MSG_KEX_ECDH_REPLY] @ x @ ssh_string (d_codec D) eph) h = Ok r \<and>
             length r + 256 < 2 ^ 32)))"

definition short_kexinit :: "deps \<Rightarrow> preferred \<Rightarrow> bool" where
  "short_kexinit D P \<longleftrightarrow> (\<forall>cookie b. length cookie = 16 \<and>
     write_kex (d_codec D) P (Ok cookie) [] = Ok b \<longrightarrow> length b + 256 < 2 ^ 32)"

lemma packet_cipher_writable:
  assumes "packet_cipher (d_codec D) (d_sodium D) (local_to_remote cp) oc"
  shows "writable D cp"
  unfolding writable_def
proof (intro allI impI)
  fix p :: bytes and wb :: sshbuffer
  assume len: "length p + 256 < 2 ^ 32"
  show "\<exists>wb'. cipher_write (d_codec D) (d_sodium D) cp p wb = Ok wb'"
    by (rule packet_cipher.write_read [OF assms len, where pair = cp and
      pair' = "cp\<lparr> remote_to_local := oc \<rparr>" and n = "sb_seqn wb"]) auto
qed

lemma write_step:
  assumes "writable D cp" and "rand_ok W" and "short_kexinit D P"
  obtains ci wb' cookie where "w_rand W 16 = Ok cookie" and "length cookie = 16"
    and "write_kex (d_codec D) P (w_rand W 16) [] = Ok ci"
    and "cipher_write (d_codec D) (d_sodium D) cp ci wb = Ok wb'"
proof -
  obtain cookie where c: "w_rand W 16 = Ok cookie" "length cookie = 16"
    using assms(2) unfolding rand_ok_def by blast
  obtain ci where ci: "write_kex (d_codec D) P (Ok cookie) [] = Ok ci"
    by (simp add: write_kex_def)
  with assms(3) c have "length ci + 256 < 2 ^ 32" unfolding short_kexinit_def by blast
  with assms(1) obtain wb' where "cipher_write (d_codec D) (d_sodium D) cp ci wb = Ok wb'"
    unfolding writable_def by blast
  with c ci show thesis by (intro that) simp_all
qed

lemma kexdh_parse_succeeds:
  assumes laws: "codec_laws (d_codec D)" "sodium_laws (d_sodium D)" "sha_laws D" "sha_total D"
    and "length eph = 32" and "rand_ok W" and "writable D cp" and "\<not> ignore_guessed (kd_names kd)"
    and "index (sc_keys cfg) (kd_key kd) = Ok key" and "key_signs D key"
    and "nm_cipher (kd_names kd) = CHACHA20POLY1305"
  obtains nk wb' where "kexdh_parse D W cfg cp kd
    ([MSG_KEX_ECDH_INIT] @ ssh_string (d_codec D) eph) wb = Ok (Kex_NewKeys nk, wb')"
proof -
  let ?C = "d_codec D" and ?K = "d_keys D" and ?S = "d_sodium D"
  let ?buf = "[MSG_KEX_ECDH_INIT] @ ssh_string ?C eph"
  have l: "length eph < 2 ^ 32" by (simp add: assms(5))
  have l4: "length (u32_be ?C w) = 4" for w by (rule codec_laws.len_u32_be [OF laws(1)])
  have be: "be_u32 ?C (u32_be ?C w @ r) = w" for w r
    by (rule codec_laws.be_u32_u32_be [OF laws(1)])
  have pay: "?buf = MSG_KEX_ECDH_INIT # u32_be ?C (as_u32 (length eph)) @ eph"
    by (simp add: codec_laws.ssh_string_eq [OF laws(1)])
  have len: "as_usize (as_u32 (length eph)) = length eph" using l by (rule as_usize_as_u32)
  have "drop 4 (u32_be ?C (as_u32 (length eph))) = []" by (simp add: l4)
  then have sl: "slice (MSG_KEX_ECDH_INIT # u32_be ?C (as_u32 (length eph)) @ eph) 5 (5 + length eph) = Ok eph"
    by (simp add: slice_def l4)
  obtain secret where sec: "w_rand W 32 = Ok secret" using assms(6) unfolding rand_ok_def by blast
  define alg where "alg = \<lparr> local_secret = None, shared_secret = Some (scalarmult ?S secret eph) \<rparr>"
  let ?seph = "scalarmult_base ?S secret"
  have dh: "server_dh D W e ?buf = Ok (alg, e\<lparr> server_ephemeral := ?seph \<rparr>)" for e
    unfolding pay server_dh_def
    using sl len by (simp add: index_def slice_from_def be l4 sec assms(5) alg_def Let_def)
  have d1: "drop 1 ?buf = ssh_string ?C eph @ []" by simp
  obtain q where rd: "read_string ?C ?buf 1 = Ok (eph, q)"
    by (rule codec_laws.read_string_ex [OF laws(1) d1 l])
  define ex where "ex = (kd_exchange kd)\<lparr> client_ephemeral := client_ephemeral (kd_exchange kd) @ eph,
      server_ephemeral := ?seph \<rparr>"
  obtain x where x: "push_key_pair ?C ?K key [] = Ok x"
    and sign: "\<And>h eph. length h = 32 \<Longrightarrow> length eph = 32 \<Longrightarrow>
      \<exists>r. add_signature ?K key ([MSG_KEX_ECDH_REPLY] @ x @ ssh_string ?C eph) h = Ok r \<and>
          length r + 256 < 2 ^ 32"
    using assms(10) unfolding key_signs_def by blast
  have push: "push_key_pair ?C ?K key b = Ok (b @ x)" for b
    using push_key_pair_append [of ?C ?K key b] by (simp add: x)
  obtain hash where hash: "compute_exchange_hash D alg (push_key_pair ?C ?K key) ex = Ok hash"
    using laws(4) by (auto simp: compute_exchange_hash_def Let_def push sha_total_def)
  have "length hash = 32"
    using hash laws(3) by (auto simp: compute_exchange_hash_def Let_def push sha_laws_def)
  then obtain reply where reply: "add_signature ?K key ([MSG_KEX_ECDH_REPLY] @ x @ ssh_string ?C ?seph) hash
      = Ok reply" "length reply + 256 < 2 ^ 32"
    using sign [of hash ?seph] sodium_laws.scalarmult_base_length [OF laws(2)] by blast
  obtain wb1 where wb1: "cipher_write ?C ?S cp reply wb = Ok wb1"
    using assms(7) reply(2) unfolding writable_def by blast
  have "length [MSG_NEWKEYS] + 256 < 2 ^ 32" by simp
  then obtain wb2 where wb2: "cipher_write ?C ?S cp [MSG_NEWKEYS] wb1 = Ok wb2"
    using assms(7) unfolding writable_def by blast
  obtain nk where nk: "kdd_compute_keys D \<lparr> kdd_exchange = ex, kdd_kex = alg, kdd_key = kd_key kd,
      kdd_session_id = kd_session_id kd, kdd_names = kd_names kd \<rparr> hash True = Ok nk"
  proof -
    have "\<exists>p. compute_keys D alg s hash CHACHA20POLY1305 True = Ok p" for s
      by (rule compute_keys_Ok [OF laws(3,4) sodium_laws.key_bytes [OF laws(2)]])
    then obtain p where "compute_keys D alg (case kd_session_id kd of None \<Rightarrow> hash | Some s \<Rightarrow> s)
        hash CHACHA20POLY1305 True = Ok p" by blast
    then show thesis using that by (simp add: kdd_compute_keys_def Let_def assms(11))
  qed
  have "kexdh_parse D W cfg cp kd ?buf wb = Ok (Kex_NewKeys nk, wb2)"
    unfolding kexdh_parse_def Let_def rd rbind.simps prod.case dh assms(9)
    using hash reply wb1 wb2 nk
    by (simp add: assms(8) index_def ex_def push [of "[MSG_KEX_ECDH_REPLY]", simplified])
  then show thesis by (rule that)
qed

lemma client_parse_succeeds:
  assumes "codec_laws (d_codec D)" and "sodium_laws (d_sodium D)"
    and "ki_algo ki = None" and "ki_sent ki" and "rand_ok W" and "writable D cp"
    and "read_kex (d_codec D) client_select buf (cc_preferred cfg) = Ok algo"
  obtains kdd wb' where "client_parse D W cfg cp ki buf wb = Ok (kdd, wb')"
    and "length (client_ephemeral (kdd_exchange kdd)) = 32"
proof -
  obtain a where a: "w_rand W 32 = Ok a" using assms(5) unfolding rand_ok_def by blast
  let ?p = "[MSG_KEX_ECDH_INIT] @ ssh_string (d_codec D) (scalarmult_base (d_sodium D) a)"
  have l: "length (scalarmult_base (d_sodium D) a) = 32"
    by (rule sodium_laws.scalarmult_base_length [OF assms(2)])
  have "length ?p + 256 < 2 ^ 32"
    by (simp add: codec_laws.length_ssh_string [OF assms(1)] l)
  then obtain wb' where w: "cipher_write (d_codec D) (d_sodium D) cp ?p wb = Ok wb'"
    using assms(6) unfolding writable_def by blast
  from a w l have "\<exists>kdd. client_parse D W cfg cp ki buf wb = Ok (kdd, wb') \<and>
      length (client_ephemeral (kdd_exchange kdd)) = 32"
    by (simp add: client_parse_def Let_def client_dh_def slice_from_def assms(3,4,7))
  with that show thesis by blast
qed

lemma server_parse_succeeds:
  assumes "index buf 0 = Ok MSG_KEXINIT" and "ki_sent ki"
    and "read_kex (d_codec D) server_select buf (sc_preferred cfg) = Ok algo"
    and "find_key (d_keys D) (sc_keys cfg) (nm_key algo) < length (sc_keys cfg)"
  shows "server_parse D W cfg cp ki buf wb = Ok (Kex_KexDh \<lparr>
      kd_exchange = (ki_exchange ki)\<lparr> client_kex_init := client_kex_init (ki_exchange ki) @ buf \<rparr>,
      kd_names = algo, kd_key = find_key (d_keys D) (sc_keys cfg) (nm_key algo),
      kd_session_id = ki_session_id ki \<rparr>, wb)"
  using assms by (simp add: server_parse_def Let_def)

lemma handshake_steps_succeed:
  assumes laws: "codec_laws (d_codec D)" "sodium_laws (d_sodium D)" "sha_laws D" "sha_total D"
    and prefs: "good_pref (cc_preferred ccfg)" "good_pref (sc_preferred scfg)"
      "short_kexinit D (cc_preferred ccfg)" "short_kexinit D (sc_preferred scfg)"
    and rand: "rand_ok Wc" "rand_ok Wc'" "rand_ok Ws" "rand_ok Ws''"
    and w: "writable D cp" "writable D sp"
    and neg: "negotiated server_select (sc_preferred scfg) (cc_preferred ccfg) = Ok n"
      "nm_cipher n = CHACHA20POLY1305"
    and key: "find_key (d_keys D) (sc_keys scfg) (nm_key n) < length (sc_keys scfg)"
    and keys: "\<forall>key \<in> set (sc_keys scfg). key_signs D key"
  obtains kic wc1 kis ws1 kdd wc2 kd ws2 nks ws4 where
    "client_write D Wc ccfg cp (kex_start cid sid session) wc = Ok (kic, wc1)"
    and "server_write D Ws scfg sp (kex_start cid sid session) ws = Ok (kis, ws1)"
    and "client_parse D Wc' ccfg cp kic (server_kex_init (ki_exchange kis)) wc1 = Ok (kdd, wc2)"
    and "server_parse D Ws' scfg sp kis (client_kex_init (ki_exchange kic)) ws1 =
      Ok (Kex_KexDh kd, ws2)"
    and "kexdh_parse D Ws'' scfg sp kd ([MSG_KEX_ECDH_INIT] @
      ssh_string (d_codec D) (client_ephemeral (kdd_exchange kdd))) ws2 = Ok (Kex_NewKeys nks, ws4)"
proof -
  let ?C = "d_codec D"
  obtain ci wc1 cc where c: "w_rand Wc 16 = Ok cc" "length cc = 16"
    "write_kex ?C (cc_preferred ccfg) (w_rand Wc 16) [] = Ok ci"
    "cipher_write ?C (d_sodium D) cp ci wc = Ok wc1"
    by (rule write_step [OF w(1) rand(1) prefs(3)])
  obtain si ws1 cs where s: "w_rand Ws 16 = Ok cs" "length cs = 16"
    "write_kex ?C (sc_preferred scfg) (w_rand Ws 16) [] = Ok si"
    "cipher_write ?C (d_sodium D) sp si ws = Ok ws1"
    by (rule write_step [OF w(2) rand(3) prefs(4)])
  define kic where "kic = (kex_start cid sid session)\<lparr> ki_exchange :=
    (ki_exchange (kex_start cid sid session))\<lparr> client_kex_init := ci \<rparr>, ki_sent := True \<rparr>"
  define kis where "kis = (kex_start cid sid session)\<lparr> ki_exchange :=
    (ki_exchange (kex_start cid sid session))\<lparr> server_kex_init := si \<rparr>, ki_sent := True \<rparr>"
  have cw: "client_write D Wc ccfg cp (kex_start cid sid session) wc = Ok (kic, wc1)"
    by (simp add: client_write_def c(3,4) kic_def)
  have sw: "server_write D Ws scfg sp (kex_start cid sid session) ws = Ok (kis, ws1)"
    by (simp add: server_write_def s(3,4) kis_def)
  have sa: "read_kex ?C server_select ci (sc_preferred scfg) = Ok n"
    using codec_laws.read_kex_written [OF laws(1) c(3) [unfolded c(1)] c(2) prefs(1),
        of server_select "sc_preferred scfg"] neg(1) by simp
  have ca: "read_kex ?C client_select si (cc_preferred ccfg) = Ok n"
    using codec_laws.read_kex_written [OF laws(1) s(3) [unfolded s(1)] s(2) prefs(2),
        of client_select "cc_preferred ccfg"] neg(1) negotiated_agree [OF prefs(1,2)] by simp
  obtain kdd wc2 where cparse: "client_parse D Wc' ccfg cp kic si wc1 = Ok (kdd, wc2)"
    and eph: "length (client_ephemeral (kdd_exchange kdd)) = 32"
    by (rule client_parse_succeeds [OF laws(1,2) _ _ rand(2) w(1) ca, of kic])
      (simp_all add: kic_def kex_start_def)
  have b0: "index ci 0 = Ok MSG_KEXINIT"
    using c(3) by (auto simp: c(1) write_kex_def index_def)
  obtain kd where sparse: "server_parse D Ws' scfg sp kis ci ws1 = Ok (Kex_KexDh kd, ws1)"
    and kd: "kd_names kd = n" "kd_key kd = find_key (d_keys D) (sc_keys scfg) (nm_key n)"
    using server_parse_succeeds [where ki = kis and W = Ws' and cp = sp and wb = ws1, OF b0 _ sa key]
    by (simp add: kis_def)
  have "index (sc_keys scfg) (kd_key kd) = Ok (sc_keys scfg ! kd_key kd)"
    and "key_signs D (sc_keys scfg ! kd_key kd)"
    using key keys by (simp_all add: index_def kd)
  then obtain nks ws4 where "kexdh_parse D Ws'' scfg sp kd ([MSG_KEX_ECDH_INIT] @
      ssh_string (d_codec D) (client_ephemeral (kdd_exchange kdd))) ws1 = Ok (Kex_NewKeys nks, ws4)"
    using kexdh_parse_succeeds [OF laws eph rand(4) w(2), of kd] negotiated_not_guessed [OF neg(1)]
      neg(2) by (metis kd(1))
  moreover have "server_kex_init (ki_exchange kis) = si" "client_kex_init (ki_exchange kic) = ci"
    by (simp_all add: kic_def kis_def)
  ultimately show thesis using that cw sw cparse sparse by simp
qed


section \<open>A concrete exchange\<close>

definition demo_names :: preferred where
  "demo_names = \<lparr> pf_kex = [CURVE25519], pf_key = [[1]], pf_cipher = [CHACHA20POLY1305],
     pf_mac = [], pf_compression = [ascii ''none''] \<rparr>"

definition demo_key :: key_pair where
  "demo_key = KP_Ed25519 (replicate 32 0 @ [8, 9])"

definition demo_server_config :: server_config where
  "demo_server_config = (server_config_default (d_keys demo_deps))\<lparr>
     sc_preferred := demo_names, sc_keys := [demo_key] \<rparr>"

definition demo_client_config :: client_config where
  "demo_client_config = (client_config_default (d_keys demo_deps))\<lparr> cc_preferred := demo_names \<rparr>"

definition demo_world :: "u8 \<Rightarrow> world" where
  "demo_world x = \<lparr> w_rand = (\<lambda>n. Ok (replicate n x)), w_now = 0 \<rparr>"

lemma demo_rand [simp]: "rand_ok (demo_world x)"
  by (simp add: rand_ok_def demo_world_def)

lemma demo_prefs [simp]:
  "cc_preferred demo_client_config = demo_names" "sc_preferred demo_server_config = demo_names"
  "sc_keys demo_server_config = [demo_key]"
  by (simp_all add: demo_client_config_def demo_server_config_def)

lemma demo_sha: "sha_laws demo_deps" "sha_total demo_deps"
  by (simp_all add: sha_laws_def sha_total_def demo_deps_def)

lemma demo_names_good: "good_pref demo_names"
  by (simp add: good_pref_def demo_names_def good_names_def CURVE25519_def CHACHA20POLY1305_def)

lemma demo_short: "short_kexinit demo_deps demo_names"
  using rfc.length_ssh_string
  by (auto simp: short_kexinit_def demo_deps_def write_kex_def demo_names_def rfc.name_list_eq
      CURVE25519_def CHACHA20POLY1305_def)

lemma demo_writable: "writable demo_deps CLEAR_PAIR"
  using clear_packet_cipher [OF demo_deps_laws(1), of "d_sodium demo_deps"]
  by (intro packet_cipher_writable) (simp add: CLEAR_PAIR_def)

lemma demo_key_usable: "key_usable demo_deps demo_key"
  by (auto simp: key_usable_def demo_deps_def demo_key_def slice_from_def rfc_string_def
      rfc_codec_def rfc_u32_be_def)

lemma demo_key_signs: "key_signs demo_deps demo_key"
  unfolding key_signs_def
  by (intro exI conjI allI impI; (elim conjE)?)
    (simp_all add: demo_deps_def demo_key_def slice_from_def rfc_string_def rfc_codec_def
      rfc_u32_be_def, simp)

lemma demo_negotiated:
  "case negotiated server_select demo_names demo_names of
     Ok n \<Rightarrow> nm_cipher n = CHACHA20POLY1305 \<and> nm_key n = [1] | _ \<Rightarrow> False"
  by code_simp

lemmas demo_handshake_facts = demo_deps_laws demo_sha demo_names_good demo_short demo_writable
  demo_key_usable demo_key_signs

lemma demo_environment:
  obtains n where "negotiated server_select demo_names demo_names = Ok n"
    and "nm_cipher n = CHACHA20POLY1305"
    and "find_key (d_keys demo_deps) (sc_keys demo_server_config) (nm_key n) <
      length (sc_keys demo_server_config)"
proof -
  obtain n where n: "negotiated server_select demo_names demo_names = Ok n"
    "nm_cipher n = CHACHA20POLY1305" "nm_key n = [1]"
    using demo_negotiated
    by (cases "negotiated server_select demo_names demo_names") auto
  then show thesis by (intro that [OF n(1,2)]) (simp add: demo_key_def demo_deps_def)
qed


theorem handshake_agreement_witness:
  "\<exists>kdd ws2 reply ws3 nkc (nks :: new_keys).
    cipher_write rfc_codec demo_sodium CLEAR_PAIR reply ws2 = Ok ws3 \<and>
    server_key_check demo_deps (\<lambda>h k. Ok (h, True)) False () kdd reply = Ok (Kex_NewKeys nkc, ()) \<and>
    nk_names nkc = nk_names nks \<and> nk_session_id nkc = nk_session_id nks \<and>
    delivers demo_deps (nk_cipher nkc) (nk_cipher nks) \<and>
    delivers demo_deps (nk_cipher nks) (nk_cipher nkc)"
proof -
  obtain n where n: "negotiated server_select demo_names demo_names = Ok n"
    "nm_cipher n = CHACHA20POLY1305"
    "find_key (d_keys demo_deps) (sc_keys demo_server_config) (nm_key n) <
      length (sc_keys demo_server_config)"
    by (rule demo_environment)
  obtain kic wc1 kis ws1 kdd wc2 kd ws2 nks ws4 where steps:
    "client_write demo_deps (demo_world 1) demo_client_config CLEAR_PAIR
      (kex_start [1] [2] None) sshbuffer_new = Ok (kic, wc1)"
    "server_write demo_deps (demo_world 2) demo_server_config CLEAR_PAIR
      (kex_start [1] [2] None) sshbuffer_new = Ok (kis, ws1)"
    "client_parse demo_deps (demo_world 3) demo_client_config CLEAR_PAIR kic
      (server_kex_init (ki_exchange kis)) wc1 = Ok (kdd, wc2)"
    "server_parse demo_deps (demo_world 4) demo_server_config CLEAR_PAIR kis
      (client_kex_init (ki_exchange kic)) ws1 = Ok (Kex_KexDh kd, ws2)"
    "kexdh_parse demo_deps (demo_world 5) demo_server_config CLEAR_PAIR kd ([MSG_KEX_ECDH_INIT] @
      ssh_string (d_codec demo_deps) (client_ephemeral (kdd_exchange kdd))) ws2 =
      Ok (Kex_NewKeys nks, ws4)"
    by (rule handshake_steps_succeed [where D = demo_deps and ccfg = demo_client_config and
          scfg = demo_server_config and n = n and cp = CLEAR_PAIR and sp = CLEAR_PAIR and
          Wc = "demo_world 1" and Ws = "demo_world 2" and Wc' = "demo_world 3" and
          Ws' = "demo_world 4" and Ws'' = "demo_world 5" and wc = sshbuffer_new and
          ws = sshbuffer_new and cid = "[1]" and sid = "[2]" and session = None])
      (simp_all add: demo_handshake_facts n [simplified])
  have cookies: "\<forall>b. w_rand (demo_world x) 16 = Ok b \<longrightarrow> length b = 16" for x
    by (simp add: demo_world_def)
  have keys: "\<forall>key \<in> set (sc_keys demo_server_config). key_usable demo_deps key \<and>
      (\<lambda>h k. Ok (h, True)) () (public_of key) = Ok ((), True)" by (simp add: demo_key_usable)
  have d: "d_codec demo_deps = rfc_codec" "d_sodium demo_deps = demo_sodium"
    by (simp_all add: demo_deps_def)
  have "\<exists>reply ws3 nkc.
    cipher_write (d_codec demo_deps) (d_sodium demo_deps) CLEAR_PAIR reply ws2 = Ok ws3 \<and>
    cipher_write (d_codec demo_deps) (d_sodium demo_deps) CLEAR_PAIR [MSG_NEWKEYS] ws3 = Ok ws4 \<and>
    server_key_check demo_deps (\<lambda>h k. Ok (h, True)) False () kdd reply = Ok (Kex_NewKeys nkc, ()) \<and>
    nk_names nkc = nk_names nks \<and> nk_session_id nkc = nk_session_id nks \<and>
    delivers demo_deps (nk_cipher nkc) (nk_cipher nks) \<and>
    delivers demo_deps (nk_cipher nks) (nk_cipher nkc)"
    by (rule handshake_agreement [where check = "\<lambda>h k. Ok (h, True)" and h = "()" and h' = "()",
          OF demo_deps_laws demo_sha(1) _ _ cookies cookies keys steps])
      (simp_all add: demo_names_good)
  then obtain reply ws3 nkc where
    "cipher_write rfc_codec demo_sodium CLEAR_PAIR reply ws2 = Ok ws3"
    "server_key_check demo_deps (\<lambda>h k. Ok (h, True)) False () kdd reply = Ok (Kex_NewKeys nkc, ())"
    "nk_names nkc = nk_names nks \<and> nk_session_id nkc = nk_session_id nks \<and>
     delivers demo_deps (nk_cipher nkc) (nk_cipher nks) \<and>
     delivers demo_deps (nk_cipher nks) (nk_cipher nkc)"
    unfolding d by (elim exE conjE) (intro that conjI)
  then show ?thesis
    by blast
qed

end
