(* ===== verification/Pty.thy ===== *)
theory Pty
  imports Prelude
begin

text \<open>
  \<^verbatim>\<open>src/src/pty.rs\<close>: the codes of the terminal modes, \<^verbatim>\<open>Pty as u8\<close> and \<^verbatim>\<open>Pty::from_u8\<close>. The
  constructors have the prefix \<open>PTY_\<close>.
\<close>

datatype pty =
    PTY_TTY_OP_END | PTY_VINTR | PTY_VQUIT | PTY_VERASE | PTY_VKILL
  | PTY_VEOF | PTY_VEOL | PTY_VEOL2 | PTY_VSTART | PTY_VSTOP
  | PTY_VSUSP | PTY_VDSUSP | PTY_VREPRINT | PTY_VWERASE | PTY_VLNEXT
  | PTY_VFLUSH | PTY_VSWTCH | PTY_VSTATUS | PTY_VDISCARD | PTY_IGNPAR
  | PTY_PARMRK | PTY_INPCK | PTY_ISTRIP | PTY_INLCR | PTY_IGNCR
  | PTY_ICRNL | PTY_IUCLC | PTY_IXON | PTY_IXANY | PTY_IXOFF
  | PTY_IMAXBEL | PTY_ISIG | PTY_ICANON | PTY_XCASE | PTY_ECHO
  | PTY_ECHOE | PTY_ECHOK | PTY_ECHONL | PTY_NOFLSH | PTY_TOSTOP
  | PTY_IEXTEN | PTY_ECHOCTL | PTY_ECHOKE | PTY_PENDIN | PTY_OPOST
  | PTY_OLCUC | PTY_ONLCR | PTY_OCRNL | PTY_ONOCR | PTY_ONLRET
  | PTY_CS7 | PTY_CS8 | PTY_PARENB | PTY_PARODD | PTY_TTY_OP_ISPEED
  | PTY_TTY_OP_OSPEED

fun pty_code :: "pty \<Rightarrow> u8" where
  "pty_code PTY_TTY_OP_END = 0"
| "pty_code PTY_VINTR = 1"
| "pty_code PTY_VQUIT = 2"
| "pty_code PTY_VERASE = 3"
| "pty_code PTY_VKILL = 4"
| "pty_code PTY_VEOF = 5"
| "pty_code PTY_VEOL = 6"
| "pty_code PTY_VEOL2 = 7"
| "pty_code PTY_VSTART = 8"
| "pty_code PTY_VSTOP = 9"
| "pty_code PTY_VSUSP = 10"
| "pty_code PTY_VDSUSP = 11"
| "pty_code PTY_VREPRINT = 12"
| "pty_code PTY_VWERASE = 13"
| "pty_code PTY_VLNEXT = 14"
| "pty_code PTY_VFLUSH = 15"
| "pty_code PTY_VSWTCH = 16"
| "pty_code PTY_VSTATUS = 17"
| "pty_code PTY_VDISCARD = 18"
| "pty_code PTY_IGNPAR = 30"
| "pty_code PTY_PARMRK = 31"
| "pty_code PTY_INPCK = 32"
| "pty_code PTY_ISTRIP = 33"
| "pty_code PTY_INLCR = 34"
| "pty_code PTY_IGNCR = 35"
| "pty_code PTY_ICRNL = 36"
| "pty_code PTY_IUCLC = 37"
| "pty_code PTY_IXON = 38"
| "pty_code PTY_IXANY = 39"
| "pty_code PTY_IXOFF = 40"
| "pty_code PTY_IMAXBEL = 41"
| "pty_code PTY_ISIG = 50"
| "pty_code PTY_ICANON = 51"
| "pty_code PTY_XCASE = 52"
| "pty_code PTY_ECHO = 53"
| "pty_code PTY_ECHOE = 54"
| "pty_code PTY_ECHOK = 55"
| "pty_code PTY_ECHONL = 56"
| "pty_code PTY_NOFLSH = 57"
| "pty_code PTY_TOSTOP = 58"
| "pty_code PTY_IEXTEN = 59"
| "pty_code PTY_ECHOCTL = 60"
| "pty_code PTY_ECHOKE = 61"
| "pty_code PTY_PENDIN = 62"
| "pty_code PTY_OPOST = 70"
| "pty_code PTY_OLCUC = 71"
| "pty_code PTY_ONLCR = 72"
| "pty_code PTY_OCRNL = 73"
| "pty_code PTY_ONOCR = 74"
| "pty_code PTY_ONLRET = 75"
| "pty_code PTY_CS7 = 90"
| "pty_code PTY_CS8 = 91"
| "pty_code PTY_PARENB = 92"
| "pty_code PTY_PARODD = 93"
| "pty_code PTY_TTY_OP_ISPEED = 128"
| "pty_code PTY_TTY_OP_OSPEED = 129"

definition pty_from_u8 :: "u8 \<Rightarrow> pty option" where
  "pty_from_u8 x =
     (if x = 0 then None
      else if x = 1 then Some PTY_VINTR
      else if x = 2 then Some PTY_VQUIT
      else if x = 3 then Some PTY_VERASE
      else if x = 4 then Some PTY_VKILL
      else if x = 5 then Some PTY_VEOF
      else if x = 6 then Some PTY_VEOL
      else if x = 7 then Some PTY_VEOL2
      else if x = 8 then Some PTY_VSTART
      else if x = 9 then Some PTY_VSTOP
      else if x = 10 then Some PTY_VSUSP
      else if x = 11 then Some PTY_VDSUSP
      else if x = 12 then Some PTY_VREPRINT
      else if x = 13 then Some PTY_VWERASE
      else if x = 14 then Some PTY_VLNEXT
      else if x = 15 then Some PTY_VFLUSH
      else if x = 16 then Some PTY_VSWTCH
      else if x = 17 then Some PTY_VSTATUS
      else if x = 18 then Some PTY_VDISCARD
      else if x = 30 then Some PTY_IGNPAR
      else if x = 31 then Some PTY_PARMRK
      else if x = 32 then Some PTY_INPCK
      else if x = 33 then Some PTY_ISTRIP
      else if x = 34 then Some PTY_INLCR
      else if x = 35 then Some PTY_IGNCR
      else if x = 36 then Some PTY_ICRNL
      else if x = 37 then Some PTY_IUCLC
      else if x = 38 then Some PTY_IXON
      else if x = 39 then Some PTY_IXANY
      else if x = 40 then Some PTY_IXOFF
      else if x = 41 then Some PTY_IMAXBEL
      else if x = 50 then Some PTY_ISIG
      else if x = 51 then Some PTY_ICANON
      else if x = 52 then Some PTY_XCASE
      else if x = 53 then Some PTY_ECHO
      else if x = 54 then Some PTY_ECHOE
      else if x = 55 then Some PTY_ECHOK
      else if x = 56 then Some PTY_ECHONL
      else if x = 57 then Some PTY_NOFLSH
      else if x = 58 then Some PTY_TOSTOP
      else if x = 59 then Some PTY_IEXTEN
      else if x = 60 then Some PTY_ECHOCTL
      else if x = 61 then Some PTY_ECHOKE
      else if x = 62 then Some PTY_PENDIN
      else if x = 70 then Some PTY_OPOST
      else if x = 71 then Some PTY_OLCUC
      else if x = 72 then Some PTY_ONLCR
      else if x = 73 then Some PTY_OCRNL
      else if x = 74 then Some PTY_ONOCR
      else if x = 75 then Some PTY_ONLRET
      else if x = 90 then Some PTY_CS7
      else if x = 91 then Some PTY_CS8
      else if x = 92 then Some PTY_PARENB
      else if x = 93 then Some PTY_PARODD
      else if x = 128 then Some PTY_TTY_OP_ISPEED
      else if x = 129 then Some PTY_TTY_OP_OSPEED
      else None)"

text \<open>The decoder inverts the encoder, except for the end marker, which it does not return.\<close>

lemma pty_from_code: "m \<noteq> PTY_TTY_OP_END \<Longrightarrow> pty_from_u8 (pty_code m) = Some m"
  by (cases m) (simp_all add: pty_from_u8_def)

lemma pty_code_from: "pty_from_u8 x = Some m \<Longrightarrow> pty_code m = x \<and> m \<noteq> PTY_TTY_OP_END"
  by (auto simp: pty_from_u8_def split: if_splits)

lemma pty_code_nonzero: "m \<noteq> PTY_TTY_OP_END \<Longrightarrow> pty_code m \<noteq> 0"
  by (cases m) simp_all

lemma pty_from_u8_eq: "pty_from_u8 x = Some m \<longleftrightarrow> pty_code m = x \<and> m \<noteq> PTY_TTY_OP_END"
  using pty_from_code pty_code_from by blast

end
