(* ===== verification/Server_Session.thy ===== *)
theory Server_Session
  imports Server_Kex Pty
begin

text \<open>
  The interface of a server application (the trait \<^verbatim>\<open>Handler\<close> of \<^verbatim>\<open>src/src/server/mod.rs\<close>) and
  the operations of a server session it can call (\<^verbatim>\<open>src/src/server/session.rs\<close>).
\<close>

section \<open>The handler\<close>

datatype auth_answer =
    Auth_Reject
  | Auth_Accept
  | Auth_UnsupportedMethod
  | Auth_Partial bytes bytes "(bytes \<times> bool) list"

text \<open>The answers of a client to the prompts of a challenge: an iterator over the packet.\<close>

record response =
  rs_buf :: bytes
  rs_pos :: nat
  rs_n :: u32

definition response_next :: "codec \<Rightarrow> response \<Rightarrow> bytes option \<times> response" where
  "response_next C r =
     (if rs_n r = 0 then (None, r)
      else let r1 = r\<lparr> rs_n := rs_n r - 1 \<rparr> in
        case read_string C (rs_buf r) (rs_pos r) of
          Ok (s, p) \<Rightarrow> (Some s, r1\<lparr> rs_pos := p \<rparr>)
        | _ \<Rightarrow> (None, r1))"

text \<open>The calls of the handler that only report something about a session: one constructor each.\<close>

datatype server_event =
    SE_channel_close channel_id
  | SE_channel_eof channel_id
  | SE_channel_open_session channel_id
  | SE_channel_open_x11 channel_id bytes u32
  | SE_channel_open_direct_tcpip channel_id bytes u32 bytes u32
  | SE_data channel_id bytes
  | SE_extended_data channel_id u32 bytes
  | SE_window_adjusted channel_id nat
  | SE_pty_request channel_id bytes u32 u32 u32 u32 "(pty \<times> u32) list"
  | SE_x11_request channel_id bool bytes bytes u32
  | SE_env_request channel_id bytes bytes
  | SE_shell_request channel_id
  | SE_exec_request channel_id bytes
  | SE_subsystem_request channel_id bytes
  | SE_window_change_request channel_id u32 u32 u32 u32
  | SE_signal channel_id sig

text \<open>
  A handler, with its state \<open>'h\<close>. Every method takes the handler and gives it back; the methods
  that get the session give it back too.
\<close>

record 'h handler =
  h_auth_password :: "'h \<Rightarrow> bytes \<Rightarrow> bytes \<Rightarrow> ('h \<times> auth_answer) res"
  h_auth_publickey :: "'h \<Rightarrow> bytes \<Rightarrow> public_key \<Rightarrow> ('h \<times> auth_answer) res"
  h_auth_keyboard_interactive ::
    "'h \<Rightarrow> bytes \<Rightarrow> bytes \<Rightarrow> response option \<Rightarrow> ('h \<times> auth_answer) res"
  h_adjust_window :: "'h \<Rightarrow> channel_id \<Rightarrow> u32 \<Rightarrow> 'h \<times> u32"
  h_event :: "'h \<Rightarrow> server_event \<Rightarrow> server_session \<Rightarrow> ('h \<times> server_session) res"
  h_tcpip_forward :: "'h \<Rightarrow> bytes \<Rightarrow> u32 \<Rightarrow> server_session \<Rightarrow> ('h \<times> server_session \<times> bool) res"
  h_cancel_tcpip_forward ::
    "'h \<Rightarrow> bytes \<Rightarrow> u32 \<Rightarrow> server_session \<Rightarrow> ('h \<times> server_session \<times> bool) res"

section \<open>Access to the encrypted state\<close>

abbreviation ss_encrypted :: "server_session \<Rightarrow> encrypted option" where
  "ss_encrypted s \<equiv> cs_encrypted (ss_common s)"

abbreviation ss_config :: "server_session \<Rightarrow> server_config" where
  "ss_config s \<equiv> config (ss_common s)"

definition ss_set_encrypted :: "encrypted \<Rightarrow> server_session \<Rightarrow> server_session" where
  "ss_set_encrypted enc s = s\<lparr> ss_common := (ss_common s)\<lparr> cs_encrypted := Some enc \<rparr> \<rparr>"

definition ss_set_common :: "server_config common_session \<Rightarrow> server_session \<Rightarrow> server_session" where
  "ss_set_common c s = s\<lparr> ss_common := c \<rparr>"

text \<open>\<^verbatim>\<open>if let Some(ref mut enc) = self.common.encrypted { .. }\<close>\<close>

definition ss_with_enc :: "(encrypted \<Rightarrow> encrypted) \<Rightarrow> server_session \<Rightarrow> server_session" where
  "ss_with_enc f s = (case ss_encrypted s of None \<Rightarrow> s | Some enc \<Rightarrow> ss_set_encrypted (f enc) s)"

section \<open>Queries\<close>

definition server_is_rekeying :: "server_session \<Rightarrow> bool" where
  "server_is_rekeying s =
     (case ss_encrypted s of Some enc \<Rightarrow> e_rekey enc \<noteq> None | None \<Rightarrow> True)"

definition server_channel :: "server_session \<Rightarrow> channel_id \<Rightarrow> channel option" where
  "server_channel s ch =
     (case ss_encrypted s of None \<Rightarrow> None | Some enc \<Rightarrow> channels enc ch)"

definition server_writable_packet_size :: "server_session \<Rightarrow> channel_id \<Rightarrow> u32" where
  "server_writable_packet_size s ch =
     (case server_channel s ch of
        Some c \<Rightarrow> min (sender_window_size c) (sender_maximum_packet_size c)
      | None \<Rightarrow> 0)"

definition server_window_size :: "server_session \<Rightarrow> channel_id \<Rightarrow> u32" where
  "server_window_size s ch =
     (case server_channel s ch of Some c \<Rightarrow> sender_window_size c | None \<Rightarrow> 0)"

definition server_max_packet_size :: "server_session \<Rightarrow> channel_id \<Rightarrow> u32" where
  "server_max_packet_size s ch =
     (case server_channel s ch of Some c \<Rightarrow> sender_maximum_packet_size c | None \<Rightarrow> 0)"

definition server_sender_window_size :: "server_session \<Rightarrow> channel_id \<Rightarrow> nat" where
  "server_sender_window_size s ch =
     (case ss_encrypted s of Some enc \<Rightarrow> enc_sender_window_size ch enc | None \<Rightarrow> 0)"

definition server_has_pending_data :: "server_session \<Rightarrow> channel_id \<Rightarrow> bool" where
  "server_has_pending_data s ch =
     (case ss_encrypted s of Some enc \<Rightarrow> has_pending_data ch enc | None \<Rightarrow> False)"

section \<open>Flushing\<close>

text \<open>\<^verbatim>\<open>Session::flush\<close>: encrypt the queue, and start a key exchange when a limit is reached.\<close>

definition server_flush :: "deps \<Rightarrow> world \<Rightarrow> server_session \<Rightarrow> server_session res" where
  "server_flush D W s =
     (let c = ss_common s; cfg = config c in
      case cs_encrypted c of
        None \<Rightarrow> Ok s
      | Some enc \<Rightarrow>
          rbind (enc_flush D (w_now W) (sc_limits cfg) (cs_cipher c) (write_buffer c) enc)
            (\<lambda>(enc1, wb1, again).
            if again \<and> e_rekey enc1 = None then
              (case e_exchange enc1 of
                 Some ex \<Rightarrow>
                   rbind (server_write D W cfg (cs_cipher c) (initiate_rekey ex (e_session_id enc1)) wb1)
                     (\<lambda>(ki, wb2).
                     Ok (ss_set_common (c\<lparr> cs_encrypted := Some (enc1\<lparr> e_exchange := None,
                            e_rekey := Some (Kex_KexInit ki) \<rparr>), write_buffer := wb2 \<rparr>) s))
               | None \<Rightarrow>
                   Ok (ss_set_common (c\<lparr> cs_encrypted := Some enc1, write_buffer := wb1 \<rparr>) s))
            else Ok (ss_set_common (c\<lparr> cs_encrypted := Some enc1, write_buffer := wb1 \<rparr>) s)))"

definition server_flush_pending ::
  "codec \<Rightarrow> channel_id \<Rightarrow> server_session \<Rightarrow> (server_session \<times> nat) res" where
  "server_flush_pending C ch s =
     (case ss_encrypted s of
        None \<Rightarrow> Ok (s, 0)
      | Some enc \<Rightarrow> rmap (\<lambda>(enc', n). (ss_set_encrypted enc' s, n)) (flush_pending C ch enc))"

definition server_disconnect ::
  "codec \<Rightarrow> disconnect_reason \<Rightarrow> bytes \<Rightarrow> bytes \<Rightarrow> server_session \<Rightarrow> server_session" where
  "server_disconnect C reason description language_tag s =
     ss_set_common (cs_disconnect C reason description language_tag (ss_common s)) s"

section \<open>Replies to requests\<close>

definition server_request_success :: "codec \<Rightarrow> server_session \<Rightarrow> server_session" where
  "server_request_success C s =
     (if cs_wants_reply (ss_common s) then
        (case ss_encrypted s of
           None \<Rightarrow> s
         | Some enc \<Rightarrow> ss_set_common ((ss_common s)\<lparr> cs_wants_reply := False,
             cs_encrypted := Some (enc_push C [MSG_REQUEST_SUCCESS] enc) \<rparr>) s)
      else s)"

definition server_request_failure :: "codec \<Rightarrow> server_session \<Rightarrow> server_session" where
  "server_request_failure C s =
     (case ss_encrypted s of
        None \<Rightarrow> s
      | Some enc \<Rightarrow> ss_set_common ((ss_common s)\<lparr> cs_wants_reply := False,
          cs_encrypted := Some (enc_push C [MSG_REQUEST_FAILURE] enc) \<rparr>) s)"

text \<open>\<open>channel_success\<close> and \<open>channel_failure\<close> differ in the message only.\<close>

definition enc_channel_reply :: "codec \<Rightarrow> u8 \<Rightarrow> channel_id \<Rightarrow> encrypted \<Rightarrow> encrypted res" where
  "enc_channel_reply C m ch enc =
     (case channels enc ch of
        None \<Rightarrow> Ok enc
      | Some c \<Rightarrow> rassert (confirmed c)
          (if ch_wants_reply c
           then Ok (enc_push C ([m] @ u32_be C (recipient_channel c))
                  (enc\<lparr> channels := (channels enc)(ch \<mapsto> c\<lparr> ch_wants_reply := False \<rparr>) \<rparr>))
           else Ok enc))"

definition ss_enc_res :: "(encrypted \<Rightarrow> encrypted res) \<Rightarrow> server_session \<Rightarrow> server_session res" where
  "ss_enc_res f s =
     (case ss_encrypted s of
        None \<Rightarrow> Ok s
      | Some enc \<Rightarrow> rmap (\<lambda>enc'. ss_set_encrypted enc' s) (f enc))"

definition server_channel_success :: "codec \<Rightarrow> channel_id \<Rightarrow> server_session \<Rightarrow> server_session res" where
  "server_channel_success C ch s = ss_enc_res (enc_channel_reply C MSG_CHANNEL_SUCCESS ch) s"

definition server_channel_failure :: "codec \<Rightarrow> channel_id \<Rightarrow> server_session \<Rightarrow> server_session res" where
  "server_channel_failure C ch s = ss_enc_res (enc_channel_reply C MSG_CHANNEL_FAILURE ch) s"

definition server_channel_open_failure ::
  "codec \<Rightarrow> channel_id \<Rightarrow> channel_open_failure \<Rightarrow> bytes \<Rightarrow> bytes \<Rightarrow> server_session \<Rightarrow> server_session" where
  "server_channel_open_failure C ch reason description language s =
     ss_with_enc (enc_push C ([MSG_CHANNEL_OPEN_FAILURE] @ u32_be C ch @
       u32_be C (channel_open_failure_code reason) @
       ssh_string C description @ ssh_string C language)) s"

section \<open>Channels\<close>

definition server_close :: "codec \<Rightarrow> channel_id \<Rightarrow> server_session \<Rightarrow> server_session" where
  "server_close C ch s = ss_set_common (cs_byte C ch MSG_CHANNEL_CLOSE (ss_common s)) s"

definition server_eof :: "codec \<Rightarrow> channel_id \<Rightarrow> server_session \<Rightarrow> server_session" where
  "server_eof C ch s = ss_set_common (cs_byte C ch MSG_CHANNEL_EOF (ss_common s)) s"

definition server_data :: "codec \<Rightarrow> channel_id \<Rightarrow> bytes \<Rightarrow> server_session \<Rightarrow> server_session res" where
  "server_data C ch data s =
     (case ss_encrypted s of
        None \<Rightarrow> Panic
      | Some enc \<Rightarrow> rmap (\<lambda>enc'. ss_set_encrypted enc' s) (enc_data C ch data enc))"

definition server_extended_data ::
  "codec \<Rightarrow> channel_id \<Rightarrow> u32 \<Rightarrow> bytes \<Rightarrow> server_session \<Rightarrow> server_session res" where
  "server_extended_data C ch ext data s =
     (case ss_encrypted s of
        None \<Rightarrow> Panic
      | Some enc \<Rightarrow> rmap (\<lambda>enc'. ss_set_encrypted enc' s) (enc_extended_data C ch ext data enc))"

text \<open>The one-way channel requests of a server share their beginning.\<close>

definition enc_channel_request ::
  "codec \<Rightarrow> channel_id \<Rightarrow> bytes \<Rightarrow> bytes \<Rightarrow> encrypted \<Rightarrow> encrypted res" where
  "enc_channel_request C ch name args enc =
     (case channels enc ch of
        None \<Rightarrow> Ok enc
      | Some c \<Rightarrow> rassert (confirmed c)
          (Ok (enc_push C ([MSG_CHANNEL_REQUEST] @ u32_be C (recipient_channel c) @
                 ssh_string C name @ [0] @ args) enc)))"

definition server_xon_xoff_request ::
  "codec \<Rightarrow> channel_id \<Rightarrow> bool \<Rightarrow> server_session \<Rightarrow> server_session res" where
  "server_xon_xoff_request C ch client_can_do s =
     ss_enc_res (enc_channel_request C ch (ascii ''xon-xoff'') [if client_can_do then 1 else 0]) s"

definition server_exit_status_request ::
  "codec \<Rightarrow> channel_id \<Rightarrow> u32 \<Rightarrow> server_session \<Rightarrow> server_session res" where
  "server_exit_status_request C ch exit_status s =
     ss_enc_res (enc_channel_request C ch (ascii ''exit-status'') (u32_be C exit_status)) s"

definition server_exit_signal_request ::
  "codec \<Rightarrow> channel_id \<Rightarrow> sig \<Rightarrow> bool \<Rightarrow> bytes \<Rightarrow> bytes \<Rightarrow> server_session \<Rightarrow> server_session res" where
  "server_exit_signal_request C ch sg core_dumped error_message language_tag s =
     ss_enc_res (enc_channel_request C ch (ascii ''exit-signal'')
       (ssh_string C (sig_name sg) @ [if core_dumped then 1 else 0] @
        ssh_string C error_message @ ssh_string C language_tag)) s"

definition server_channel_open_forwarded_tcpip ::
  "codec \<Rightarrow> bytes \<Rightarrow> u32 \<Rightarrow> bytes \<Rightarrow> u32 \<Rightarrow> server_session \<Rightarrow> (channel_id \<times> server_session) res" where
  "server_channel_open_forwarded_tcpip C connected_address connected_port originator_address
      originator_port s =
     (case ss_encrypted s of
        None \<Rightarrow> Err (Thrussh E_Inconsistent)
      | Some enc \<Rightarrow>
          if e_state enc \<noteq> Authenticated then Err (Thrussh E_Inconsistent)
          else
            let cfg = ss_config s in
            rmap (\<lambda>(ch, enc1).
                    (ch, ss_set_encrypted (enc_push C ([MSG_CHANNEL_OPEN] @
                       ssh_string C (ascii ''forwarded-tcpip'') @ u32_be C ch @
                       u32_be C (sc_window_size cfg) @ u32_be C (sc_maximum_packet_size cfg) @
                       ssh_string C connected_address @ u32_be C connected_port @
                       ssh_string C originator_address @ u32_be C originator_port) enc1) s))
              (new_channel (sc_window_size cfg) (sc_maximum_packet_size cfg) enc))"

section \<open>The default methods of the handler\<close>

text \<open>
  Every default rejects or does nothing, except that \<^verbatim>\<open>window_adjusted\<close> sends what was held
  back. \<^verbatim>\<open>finished\<close>, \<^verbatim>\<open>finished_auth\<close> and \<^verbatim>\<open>finished_bool\<close> are the application's wrappers of a
  result.
\<close>

fun default_event ::
  "codec \<Rightarrow> 'h \<Rightarrow> server_event \<Rightarrow> server_session \<Rightarrow> ('h \<times> server_session) res" where
  "default_event C h (SE_window_adjusted ch w) s =
     rmap (\<lambda>(s', n). (h, s')) (server_flush_pending C ch s)"
| "default_event C h e s = Ok (h, s)"

definition default_handler :: "codec \<Rightarrow> 'h handler" where
  "default_handler C = \<lparr>
     h_auth_password = (\<lambda>h user password. Ok (h, Auth_Reject)),
     h_auth_publickey = (\<lambda>h user key. Ok (h, Auth_Reject)),
     h_auth_keyboard_interactive = (\<lambda>h user submethods r. Ok (h, Auth_Reject)),
     h_adjust_window = (\<lambda>h ch current. (h, current)),
     h_event = default_event C,
     h_tcpip_forward = (\<lambda>h address port s. Ok (h, s, False)),
     h_cancel_tcpip_forward = (\<lambda>h address port s. Ok (h, s, False)) \<rparr>"

end
