(* ===== verification/Server_Channels.thy ===== *)
theory Server_Channels
  imports Server_Session
begin

text \<open>
  What an authenticated client can ask for: \<^verbatim>\<open>server_read_authenticated\<close> and
  \<^verbatim>\<open>server_handle_channel_open\<close> of \<^verbatim>\<open>src/src/server/encrypted.rs\<close>. A reader is the packet and a
  position in it. An error ends the connection, so the session is only part of a successful
  result.
\<close>

type_synonym 'h reply = "('h \<times> server_session) res"

section \<open>Opening a channel\<close>

definition server_confirm_channel_open :: "codec \<Rightarrow> channel \<Rightarrow> server_config \<Rightarrow> bytes \<Rightarrow> bytes" where
  "server_confirm_channel_open C c cfg buffer =
     push_packet C buffer ([MSG_CHANNEL_OPEN_CONFIRMATION] @ u32_be C (recipient_channel c) @
       u32_be C (sender_channel c) @ u32_be C (sc_window_size cfg) @
       u32_be C (sc_maximum_packet_size cfg))"

definition confirm_channel_open :: "codec \<Rightarrow> channel \<Rightarrow> server_session \<Rightarrow> server_session" where
  "confirm_channel_open C c s =
     ss_with_enc (\<lambda>enc. enc\<lparr> e_write := server_confirm_channel_open C c (ss_config s) (e_write enc),
       channels := (channels enc)(sender_channel c \<mapsto> c) \<rparr>) s"

definition server_handle_channel_open ::
  "deps \<Rightarrow> 'h handler \<Rightarrow> 'h \<Rightarrow> bytes \<Rightarrow> server_session \<Rightarrow> 'h reply" where
  "server_handle_channel_open D H h buf s =
     (let C = d_codec D in
      rbind (read_string C buf 1) (\<lambda>(typ, p1).
      rbind (read_u32 C buf p1) (\<lambda>(sender, p2).
      rbind (read_u32 C buf p2) (\<lambda>(window, p3).
      rbind (read_u32 C buf p3) (\<lambda>(maxpacket, p4).
      case ss_encrypted s of
        None \<Rightarrow> Panic
      | Some enc \<Rightarrow>
      rbind (new_channel_id enc) (\<lambda>(ch, enc1).
      let s1 = ss_set_encrypted enc1 s;
          c = \<lparr> recipient_channel = sender, sender_channel = ch,
                recipient_window_size = window,
                sender_window_size = sc_window_size (ss_config s),
                recipient_maximum_packet_size = maxpacket,
                sender_maximum_packet_size = sc_maximum_packet_size (ss_config s),
                confirmed = True, ch_wants_reply = False, pending_data = [] \<rparr>
      in if typ = ascii ''session'' then
           h_event H h (SE_channel_open_session ch) (confirm_channel_open C c s1)
         else if typ = ascii ''x11'' then
           let s2 = confirm_channel_open C c s1 in
           rbind (read_str C buf p4) (\<lambda>(a, p5).
           rbind (read_u32 C buf p5) (\<lambda>(b, _).
           h_event H h (SE_channel_open_x11 ch a b) s2))
         else if typ = ascii ''direct-tcpip'' then
           let s2 = confirm_channel_open C c s1 in
           rbind (read_str C buf p4) (\<lambda>(a, p5).
           rbind (read_u32 C buf p5) (\<lambda>(b, p6).
           rbind (read_str C buf p6) (\<lambda>(c', p7).
           rbind (read_u32 C buf p7) (\<lambda>(d, _).
           h_event H h (SE_channel_open_direct_tcpip ch a b c' d) s2))))
         else
           Ok (h, ss_with_enc (enc_push C ([MSG_CHANNEL_OPEN_FAILURE] @ u32_be C sender @ u32_be C 3 @
             ssh_string C (ascii ''Unknown channel type'') @ ssh_string C (ascii ''en''))) s1)))))))"

section \<open>Requests on a channel\<close>

text \<open>
  The loop that decodes the terminal modes: five bytes a mode, into an array of 130 entries.
\<close>

function pty_modes_loop ::
  "codec \<Rightarrow> bytes \<Rightarrow> nat \<Rightarrow> (pty \<times> u32) list \<Rightarrow> (nat \<times> (pty \<times> u32) list) res" where
  "pty_modes_loop C mode_string i modes =
     (if 5 * i < length mode_string then
        let code = mode_string ! (5 * i) in
        if code = 0 then Ok (i, modes)
        else
          let rest = drop (5 * i + 1) mode_string in
          if length rest < 4 then Panic
          else case pty_from_u8 code of
                 Some c \<Rightarrow>
                   if i < length modes
                   then pty_modes_loop C mode_string (i + 1) (modes[i := (c, be_u32 C rest)])
                   else Panic
               | None \<Rightarrow> pty_modes_loop C mode_string (i + 1) modes
      else Ok (i, modes))"
  by pat_completeness auto
termination
  by (relation "measure (\<lambda>(C, mode_string, i, modes). length mode_string - i)") auto

declare pty_modes_loop.simps [simp del]

definition pty_modes :: "codec \<Rightarrow> bytes \<Rightarrow> (pty \<times> u32) list res" where
  "pty_modes C mode_string =
     rbind (pty_modes_loop C mode_string 0 (replicate 130 (PTY_TTY_OP_END, 0))) (\<lambda>(i, modes).
       slice modes 0 i)"

text \<open>The channel of a request remembers whether a reply is wanted.\<close>

definition enc_wants_reply :: "channel_id \<Rightarrow> bool \<Rightarrow> encrypted \<Rightarrow> encrypted" where
  "enc_wants_reply ch b enc =
     (case channels enc ch of
        None \<Rightarrow> enc
      | Some c \<Rightarrow> enc\<lparr> channels := (channels enc)(ch \<mapsto> c\<lparr> ch_wants_reply := b \<rparr>) \<rparr>)"

definition server_channel_request ::
  "deps \<Rightarrow> 'h handler \<Rightarrow> 'h \<Rightarrow> bytes \<Rightarrow> server_session \<Rightarrow> 'h reply" where
  "server_channel_request D H h buf s =
     (let C = d_codec D in
      rbind (read_u32 C buf 1) (\<lambda>(ch, p1).
      rbind (read_string C buf p1) (\<lambda>(req_type, p2).
      rbind (read_byte C buf p2) (\<lambda>(wants_reply, p3).
      let s1 = ss_with_enc (enc_wants_reply ch (wants_reply \<noteq> 0)) s in
      if req_type = ascii ''pty-req'' then
        rbind (read_str C buf p3) (\<lambda>(term, p4).
        rbind (read_u32 C buf p4) (\<lambda>(col_width, p5).
        rbind (read_u32 C buf p5) (\<lambda>(row_height, p6).
        rbind (read_u32 C buf p6) (\<lambda>(pix_width, p7).
        rbind (read_u32 C buf p7) (\<lambda>(pix_height, p8).
        rbind (read_string C buf p8) (\<lambda>(mode_string, _).
        rbind (pty_modes C mode_string) (\<lambda>modes.
        h_event H h (SE_pty_request ch term col_width row_height pix_width pix_height modes) s1)))))))
      else if req_type = ascii ''x11-req'' then
        rbind (read_byte C buf p3) (\<lambda>(single_connection, p4).
        rbind (read_str C buf p4) (\<lambda>(protocol, p5).
        rbind (read_str C buf p5) (\<lambda>(cookie, p6).
        rbind (read_u32 C buf p6) (\<lambda>(screen, _).
        h_event H h (SE_x11_request ch (single_connection \<noteq> 0) protocol cookie screen) s1))))
      else if req_type = ascii ''env'' then
        rbind (read_str C buf p3) (\<lambda>(variable, p4).
        rbind (read_str C buf p4) (\<lambda>(val, _).
        h_event H h (SE_env_request ch variable val) s1))
      else if req_type = ascii ''shell'' then h_event H h (SE_shell_request ch) s1
      else if req_type = ascii ''exec'' then
        rbind (read_string C buf p3) (\<lambda>(req, _). h_event H h (SE_exec_request ch req) s1)
      else if req_type = ascii ''subsystem'' then
        rbind (read_str C buf p3) (\<lambda>(name, _). h_event H h (SE_subsystem_request ch name) s1)
      else if req_type = ascii ''window-change'' then
        rbind (read_u32 C buf p3) (\<lambda>(col_width, p4).
        rbind (read_u32 C buf p4) (\<lambda>(row_height, p5).
        rbind (read_u32 C buf p5) (\<lambda>(pix_width, p6).
        rbind (read_u32 C buf p6) (\<lambda>(pix_height, _).
        h_event H h (SE_window_change_request ch col_width row_height pix_width pix_height) s1))))
      else if req_type = ascii ''signal'' then
        rbind (read_byte C buf p3) (\<lambda>(_, p4).
        rbind (read_string C buf p4) (\<lambda>(name, _).
        rbind (sig_from_name name) (\<lambda>sg. h_event H h (SE_signal ch sg) s1)))
      else Ok (h, ss_with_enc (enc_push C [MSG_CHANNEL_FAILURE]) s1)))))"

section \<open>Data and windows\<close>

text \<open>
  The receiving side of the flow control: when the window was enlarged, the application chooses
  the next target.
\<close>

definition server_adjust_window ::
  "codec \<Rightarrow> 'h handler \<Rightarrow> 'h \<Rightarrow> channel_id \<Rightarrow> bytes \<Rightarrow> server_session \<Rightarrow> 'h \<times> server_session" where
  "server_adjust_window C H h ch data s =
     (let target = ss_target_window_size s in
      case ss_encrypted s of
        None \<Rightarrow> (h, s)
      | Some enc \<Rightarrow>
          (case adjust_window_size C ch data target enc of
             (enc', adjusted) \<Rightarrow>
               if adjusted then
                 (case h_adjust_window H h ch target of
                    (h', window) \<Rightarrow>
                      (h', (ss_set_encrypted enc' s)\<lparr> ss_target_window_size :=
                             (if 0 < window then window else target) \<rparr>))
               else (h, ss_set_encrypted enc' s)))"

definition server_channel_data ::
  "deps \<Rightarrow> world \<Rightarrow> 'h handler \<Rightarrow> 'h \<Rightarrow> bytes \<Rightarrow> server_session \<Rightarrow> 'h reply" where
  "server_channel_data D W H h buf s =
     (let C = d_codec D in
      rbind (index buf 0) (\<lambda>b0.
      rbind (read_u32 C buf 1) (\<lambda>(ch, p1).
      rbind (if b0 = MSG_CHANNEL_DATA then Ok (None, p1)
             else rmap (\<lambda>(e, p). (Some e, p)) (read_u32 C buf p1)) (\<lambda>(ext, p2).
      rbind (read_string C buf p2) (\<lambda>(data, _).
      case server_adjust_window C H h ch data s of
        (h1, s1) \<Rightarrow>
          rbind (server_flush D W s1) (\<lambda>s2.
          h_event H h1 (case ext of Some e \<Rightarrow> SE_extended_data ch e data | None \<Rightarrow> SE_data ch data) s2))))))"

definition server_window_adjust ::
  "deps \<Rightarrow> 'h handler \<Rightarrow> 'h \<Rightarrow> bytes \<Rightarrow> server_session \<Rightarrow> 'h reply" where
  "server_window_adjust D H h buf s =
     (let C = d_codec D in
      rbind (read_u32 C buf 1) (\<lambda>(ch, p1).
      rbind (read_u32 C buf p1) (\<lambda>(amount, _).
      case ss_encrypted s of
        None \<Rightarrow> h_event H h (SE_window_adjusted ch 0) s
      | Some enc \<Rightarrow>
          rbind (enc_add_window ch amount enc) (\<lambda>(enc', w).
          h_event H h (SE_window_adjusted ch (as_usize w)) (ss_set_encrypted enc' s)))))"

section \<open>Global requests\<close>

definition global_reply :: "codec \<Rightarrow> bool \<Rightarrow> server_session \<Rightarrow> server_session" where
  "global_reply C result s =
     ss_with_enc (enc_push C [if result then MSG_REQUEST_SUCCESS else MSG_REQUEST_FAILURE]) s"

definition server_global_request ::
  "deps \<Rightarrow> 'h handler \<Rightarrow> 'h \<Rightarrow> bytes \<Rightarrow> server_session \<Rightarrow> 'h reply" where
  "server_global_request D H h buf s =
     (let C = d_codec D in
      rbind (read_string C buf 1) (\<lambda>(req_type, p1).
      rbind (read_byte C buf p1) (\<lambda>(wants_reply, p2).
      let s1 = ss_set_common ((ss_common s)\<lparr> cs_wants_reply := wants_reply \<noteq> 0 \<rparr>) s in
      if req_type = ascii ''tcpip-forward'' then
        rbind (read_str C buf p2) (\<lambda>(address, p3).
        rbind (read_u32 C buf p3) (\<lambda>(port, _).
        rmap (\<lambda>(h', s2, result). (h', global_reply C result s2))
          (h_tcpip_forward H h address port s1)))
      else if req_type = ascii ''cancel-tcpip-forward'' then
        rbind (read_str C buf p2) (\<lambda>(address, p3).
        rbind (read_u32 C buf p3) (\<lambda>(port, _).
        rmap (\<lambda>(h', s2, result). (h', global_reply C result s2))
          (h_cancel_tcpip_forward H h address port s1)))
      else Ok (h, ss_with_enc (enc_push C [MSG_REQUEST_FAILURE]) s1))))"

section \<open>Every message of an authenticated client\<close>

definition server_read_authenticated ::
  "deps \<Rightarrow> world \<Rightarrow> 'h handler \<Rightarrow> 'h \<Rightarrow> bytes \<Rightarrow> server_session \<Rightarrow> 'h reply" where
  "server_read_authenticated D W H h buf s =
     (let C = d_codec D in
      rbind (index buf 0) (\<lambda>b0.
      if b0 = MSG_CHANNEL_OPEN then server_handle_channel_open D H h buf s
      else if b0 = MSG_CHANNEL_CLOSE then
        rbind (read_u32 C buf 1) (\<lambda>(ch, _).
        h_event H h (SE_channel_close ch)
          (ss_with_enc (\<lambda>enc. enc\<lparr> channels := (channels enc)(ch := None) \<rparr>) s))
      else if b0 = MSG_CHANNEL_EOF then
        rbind (read_u32 C buf 1) (\<lambda>(ch, _). h_event H h (SE_channel_eof ch) s)
      else if b0 = MSG_CHANNEL_EXTENDED_DATA \<or> b0 = MSG_CHANNEL_DATA then
        server_channel_data D W H h buf s
      else if b0 = MSG_CHANNEL_WINDOW_ADJUST then server_window_adjust D H h buf s
      else if b0 = MSG_CHANNEL_REQUEST then server_channel_request D H h buf s
      else if b0 = MSG_GLOBAL_REQUEST then server_global_request D H h buf s
      else Ok (h, s)))"

end
