(* ===== verification/Server_Auth.thy ===== *)
theory Server_Auth
  imports Server_Session
begin

text \<open>
  The authentication dialogue of the server (\<^verbatim>\<open>src/src/server/encrypted.rs\<close>). The state is in
  the encrypted part of the session, with the name of the user beside it. The waiting time
  before a rejection is not modelled.
\<close>

text \<open>The authentication state a call works on: the user name and the encrypted state.\<close>

type_synonym auth_state = "bytes \<times> encrypted"

section \<open>Messages\<close>

definition server_accept_service ::
  "codec \<Rightarrow> bytes option \<Rightarrow> method_set \<Rightarrow> bytes \<Rightarrow> auth_request \<times> bytes" where
  "server_accept_service C banner methods buffer =
     (let b1 = push_packet C buffer ([MSG_SERVICE_ACCEPT] @ ssh_string C (ascii ''ssh-userauth''));
          b2 = (case banner of
                  None \<Rightarrow> b1
                | Some b \<Rightarrow> push_packet C b1 ([MSG_USERAUTH_BANNER] @ ssh_string C b @ ssh_string C []))
      in (\<lparr> ar_methods = methods, ar_partial_success = False, ar_current = None,
            ar_rejection_count = 0 \<rparr>, b2))"

text \<open>\<^verbatim>\<open>reject_auth_request\<close>: the queue and the request afterwards.\<close>

definition reject_auth_request ::
  "codec \<Rightarrow> bytes \<Rightarrow> auth_request \<Rightarrow> bytes \<times> auth_request" where
  "reject_auth_request C wr ar =
     (push_packet C wr ([MSG_USERAUTH_FAILURE] @ name_list C (ms_names (ar_methods ar)) @
        [if ar_partial_success ar then 1 else 0]),
      ar\<lparr> ar_current := None, ar_rejection_count := ar_rejection_count ar + 1 \<rparr>)"

definition server_auth_request_success :: "codec \<Rightarrow> bytes \<Rightarrow> bytes" where
  "server_auth_request_success C buffer = push_packet C buffer [MSG_USERAUTH_SUCCESS]"

text \<open>\<^verbatim>\<open>reply_userauth_info_response\<close>: whether the client is accepted, the request and the queue.\<close>

fun reply_userauth_info_response ::
  "codec \<Rightarrow> auth_request \<Rightarrow> bytes \<Rightarrow> auth_answer \<Rightarrow> (bool \<times> auth_request \<times> bytes) res" where
  "reply_userauth_info_response C ar wr Auth_Accept =
     Ok (True, ar, server_auth_request_success C wr)"
| "reply_userauth_info_response C ar wr Auth_Reject =
     (case reject_auth_request C wr (ar\<lparr> ar_partial_success := False \<rparr>) of
        (wr', ar') \<Rightarrow> Ok (False, ar', wr'))"
| "reply_userauth_info_response C ar wr (Auth_Partial name instructions prompts) =
     Ok (False, ar, push_packet C wr ([MSG_USERAUTH_INFO_REQUEST] @ ssh_string C name @
        ssh_string C instructions @ ssh_string C [] @ u32_be C (as_u32 (length prompts)) @
        concat (map (\<lambda>(a, b). ssh_string C a @ [if b then 1 else 0]) prompts)))"
| "reply_userauth_info_response C ar wr Auth_UnsupportedMethod = Panic"

section \<open>Requests\<close>

text \<open>\<^verbatim>\<open>let EncryptedState::WaitingAuthRequest(ref mut a) = self.state else unreachable!()\<close>\<close>

definition waiting_auth :: "encrypted \<Rightarrow> auth_request res" where
  "waiting_auth enc = (case e_state enc of WaitingAuthRequest a \<Rightarrow> Ok a | _ \<Rightarrow> Panic)"

text \<open>The state after a rejection, and after an acceptance.\<close>

definition enc_reject :: "codec \<Rightarrow> auth_request \<Rightarrow> encrypted \<Rightarrow> encrypted" where
  "enc_reject C ar enc =
     (case reject_auth_request C (e_write enc) ar of
        (wr, ar') \<Rightarrow> enc\<lparr> e_write := wr, e_state := WaitingAuthRequest ar' \<rparr>)"

definition enc_accept :: "codec \<Rightarrow> encrypted \<Rightarrow> encrypted" where
  "enc_accept C enc =
     enc\<lparr> e_write := server_auth_request_success C (e_write enc), e_state := InitCompression \<rparr>"

definition auth_password_request ::
  "deps \<Rightarrow> 'h handler \<Rightarrow> 'h \<Rightarrow> bytes \<Rightarrow> nat \<Rightarrow> bytes \<Rightarrow> auth_state \<Rightarrow> ('h \<times> auth_state) res" where
  "auth_password_request D H h buf p user st =
     (let C = d_codec D; enc = snd st in
      rbind (waiting_auth enc) (\<lambda>ar.
      rbind (read_byte C buf p) (\<lambda>(_, p1).
      rbind (read_string C buf p1) (\<lambda>(pw, _).
      rbind (from_utf8 pw) (\<lambda>password.
      rbind (h_auth_password H h user password) (\<lambda>(h', auth).
      case auth of
        Auth_Accept \<Rightarrow> Ok (h', user, enc_accept C enc)
      | _ \<Rightarrow> Ok (h', [], enc_reject C (ar\<lparr> ar_methods := ms_minus (ar_methods ar) MS_PASSWORD,
                                          ar_partial_success := False \<rparr>) enc)))))))"

text \<open>
  A public key request: \<open>is_real\<close> tells a request with a signature from a question whether the key
  would do.
\<close>

definition sent_pk_ok :: "auth_request \<Rightarrow> bool" where
  "sent_pk_ok ar = (case ar_current ar of Some (CR_PublicKey k a b) \<Rightarrow> b | _ \<Rightarrow> False)"

definition auth_pk_real ::
  "deps \<Rightarrow> 'h handler \<Rightarrow> 'h \<Rightarrow> bytes \<Rightarrow> nat \<Rightarrow> public_key \<Rightarrow> bytes \<Rightarrow> auth_request \<Rightarrow> auth_state \<Rightarrow>
   ('h \<times> auth_state) res" where
  "auth_pk_real D H h buf pos0 pubkey user ar st =
     (let C = d_codec D; (auth_user, enc) = st in
      rbind (read_string C buf pos0) (\<lambda>(signature, _).
      rbind (read_string C signature 0) (\<lambda>(_, s1).
      rbind (read_string C signature s1) (\<lambda>(sig, _).
      rbind (slice buf 0 pos0) (\<lambda>init.
      rbind (if sent_pk_ok ar \<and> user = auth_user then Ok (h, auth_user, True)
             else if auth_user = [] then
               rmap (\<lambda>(h', auth). (h', user, auth = Auth_Accept)) (h_auth_publickey H h user pubkey)
             else Ok (h, auth_user, False)) (\<lambda>(h', auth_user', is_valid).
      if is_valid \<and> verify_client_auth (d_keys D) pubkey (ssh_string C (e_session_id enc) @ init) sig
      then Ok (h', auth_user', enc_accept C enc)
      else Ok (h', auth_user', enc_reject C ar enc)))))))"

definition auth_pk_probe ::
  "deps \<Rightarrow> 'h handler \<Rightarrow> 'h \<Rightarrow> bytes \<Rightarrow> bytes \<Rightarrow> public_key \<Rightarrow> bytes \<Rightarrow> auth_request \<Rightarrow> auth_state \<Rightarrow>
   ('h \<times> auth_state) res" where
  "auth_pk_probe D H h pubkey_algo pubkey_key pubkey user ar st =
     (let C = d_codec D; enc = snd st in
      rbind (h_auth_publickey H h user pubkey) (\<lambda>(h', auth).
      if auth = Auth_Accept then
        Ok (h', user, enc\<lparr>
          e_write := push_packet C (e_write enc)
            ([MSG_USERAUTH_PK_OK] @ ssh_string C pubkey_algo @ ssh_string C pubkey_key),
          e_state := WaitingAuthRequest
            (ar\<lparr> ar_current := Some (CR_PublicKey pubkey_key pubkey_algo True) \<rparr>) \<rparr>)
      else Ok (h', [], enc_reject C (ar\<lparr> ar_partial_success := False \<rparr>) enc)))"

definition server_read_auth_request_pk ::
  "deps \<Rightarrow> 'h handler \<Rightarrow> 'h \<Rightarrow> bytes \<Rightarrow> nat \<Rightarrow> bytes \<Rightarrow> auth_state \<Rightarrow> ('h \<times> auth_state) res" where
  "server_read_auth_request_pk D H h buf p user st =
     (let C = d_codec D; (auth_user, enc) = st in
      rbind (waiting_auth enc) (\<lambda>ar.
      rbind (read_byte C buf p) (\<lambda>(is_real, p1).
      rbind (read_string C buf p1) (\<lambda>(pubkey_algo, p2).
      rbind (read_string C buf p2) (\<lambda>(pubkey_key, p3).
      case parse_key (d_keys D) pubkey_algo pubkey_key of
        Ok pubkey \<Rightarrow>
          if is_real \<noteq> 0 then auth_pk_real D H h buf p3 pubkey user ar st
          else auth_pk_probe D H h pubkey_algo pubkey_key pubkey user ar st
      | Err e \<Rightarrow>
          if e = Keys_CouldNotReadKey then Ok (h, auth_user, enc_reject C ar enc) else Err e
      | Panic \<Rightarrow> Panic
      | Diverge \<Rightarrow> Diverge)))))"

definition auth_keyboard_interactive_request ::
  "deps \<Rightarrow> 'h handler \<Rightarrow> 'h \<Rightarrow> bytes \<Rightarrow> nat \<Rightarrow> bytes \<Rightarrow> auth_state \<Rightarrow> ('h \<times> auth_state) res" where
  "auth_keyboard_interactive_request D H h buf p user st =
     (let C = d_codec D; enc = snd st in
      rbind (waiting_auth enc) (\<lambda>ar.
      rbind (read_string C buf p) (\<lambda>(_, p1).
      rbind (read_string C buf p1) (\<lambda>(sm, _).
      rbind (from_utf8 sm) (\<lambda>submethods.
      let ar1 = ar\<lparr> ar_current := Some (CR_KeyboardInteractive submethods) \<rparr> in
      rbind (h_auth_keyboard_interactive H h user submethods None) (\<lambda>(h', auth).
      rbind (reply_userauth_info_response C ar1 (e_write enc) auth) (\<lambda>(accepted, ar2, wr).
      Ok (h', user, enc\<lparr> e_write := wr,
        e_state := (if accepted then InitCompression else WaitingAuthRequest ar2) \<rparr>))))))))"

definition server_read_auth_request ::
  "deps \<Rightarrow> 'h handler \<Rightarrow> 'h \<Rightarrow> bytes \<Rightarrow> auth_state \<Rightarrow> ('h \<times> auth_state) res" where
  "server_read_auth_request D H h buf st =
     (let C = d_codec D in
      rbind (read_string C buf 1) (\<lambda>(u, p1).
      rbind (from_utf8 u) (\<lambda>user.
      rbind (read_string C buf p1) (\<lambda>(service_name, p2).
      rbind (read_string C buf p2) (\<lambda>(m, p3).
      if service_name = ascii ''ssh-connection'' then
        if m = ascii ''password'' then auth_password_request D H h buf p3 user st
        else if m = ascii ''publickey'' then server_read_auth_request_pk D H h buf p3 user st
        else if m = ascii ''keyboard-interactive'' then
          auth_keyboard_interactive_request D H h buf p3 user st
        else
          rbind (waiting_auth (snd st)) (\<lambda>ar. Ok (h, fst st, enc_reject C ar (snd st)))
      else Err (Thrussh E_Inconsistent))))))"

text \<open>
  \<^verbatim>\<open>read_userauth_info_response\<close>: the answers to a challenge. Besides the handler, the user, the
  request and the queue, it returns whether the client was accepted.
\<close>

definition read_userauth_info_response ::
  "deps \<Rightarrow> 'h handler \<Rightarrow> 'h \<Rightarrow> bytes \<Rightarrow> auth_request \<Rightarrow> bytes \<Rightarrow> bytes \<Rightarrow>
   ('h \<times> bool \<times> auth_request \<times> bytes) res" where
  "read_userauth_info_response D H h wr ar user b =
     (let C = d_codec D in
      case ar_current ar of
        Some (CR_KeyboardInteractive submethods) \<Rightarrow>
          rbind (read_u32 C b 1) (\<lambda>(n, p).
          rbind (h_auth_keyboard_interactive H h user submethods
                   (Some \<lparr> rs_buf = b, rs_pos = p, rs_n = n \<rparr>)) (\<lambda>(h', auth).
          rmap (\<lambda>(accepted, ar', wr'). (h', accepted, ar', wr'))
            (reply_userauth_info_response C ar wr auth)))
      | _ \<Rightarrow> (case reject_auth_request C wr ar of (wr', ar') \<Rightarrow> Ok (h, False, ar', wr')))"

end
