(* ===== verification/Server.thy ===== *)
theory Server
  imports Server_Channels Server_Auth
begin

text \<open>
  The server's processing of packets: \<^verbatim>\<open>server_read_encrypted\<close> of
  \<^verbatim>\<open>src/src/server/encrypted.rs\<close>, and \<^verbatim>\<open>reply\<close>, \<^verbatim>\<open>read_ssh_id\<close> and the loop of \<^verbatim>\<open>run_stream\<close>
  of \<^verbatim>\<open>src/src/server/mod.rs\<close>.
\<close>

section \<open>Packets of an encrypted connection\<close>

text \<open>A KEXINIT of the client, while encrypted.\<close>

definition server_rekey_init :: "deps \<Rightarrow> world \<Rightarrow> bytes \<Rightarrow> encrypted \<Rightarrow> server_session \<Rightarrow> server_session res" where
  "server_rekey_init D W buf enc s =
     (let c = ss_common s; cfg = config c; enc0 = enc\<lparr> e_rekey := None \<rparr> in
      case e_rekey enc of
        Some (Kex_KexInit ki) \<Rightarrow>
          rbind (server_parse D W cfg (cs_cipher c) ki buf (write_buffer c)) (\<lambda>(k, wb).
          server_flush D W (ss_set_common
            (c\<lparr> cs_encrypted := Some (enc0\<lparr> e_rekey := Some k \<rparr>), write_buffer := wb \<rparr>) s))
      | _ \<Rightarrow>
          (case e_exchange enc of
             Some ex \<Rightarrow>
               rbind (read_kex (d_codec D) server_select buf (sc_preferred cfg)) (\<lambda>algo.
               rbind (server_parse D W cfg (cs_cipher c)
                        (received_rekey ex algo (e_session_id enc)) buf (write_buffer c)) (\<lambda>(k, wb).
               Ok (ss_set_common (c\<lparr> cs_encrypted := Some (enc0\<lparr> e_exchange := None,
                 e_rekey := Some k \<rparr>), write_buffer := wb \<rparr>) s)))
           | None \<Rightarrow> Ok (ss_set_encrypted enc0 s)))"

text \<open>A packet that is not part of a key exchange.\<close>

definition server_read_service ::
  "deps \<Rightarrow> world \<Rightarrow> 'h handler \<Rightarrow> 'h \<Rightarrow> bytes \<Rightarrow> encrypted \<Rightarrow> server_session \<Rightarrow> 'h reply" where
  "server_read_service D W H h buf enc s =
     (let C = d_codec D; c = ss_common s; cfg = config c in
      rbind (index buf 0) (\<lambda>b0.
      case e_state enc of
        WaitingServiceRequest sent accepted \<Rightarrow>
          if b0 = MSG_SERVICE_REQUEST then
            rbind (read_string C buf 1) (\<lambda>(request, _).
            if request = ascii ''ssh-userauth'' then
              (case server_accept_service C (sc_auth_banner cfg) (sc_methods cfg) (e_write enc) of
                 (ar, wr) \<Rightarrow> Ok (h, ss_set_encrypted
                   (enc\<lparr> e_write := wr, e_state := WaitingAuthRequest ar \<rparr>) s))
            else Ok (h, s))
          else Ok (h, s)
      | WaitingAuthRequest ar \<Rightarrow>
          if b0 = MSG_USERAUTH_REQUEST then
            rbind (server_read_auth_request D H h buf (auth_user c, enc)) (\<lambda>(h', user, enc').
            let enc'' = (case e_state enc' of
                  InitCompression \<Rightarrow> enc'\<lparr> e_decompress :=
                    init_decompress (d_flate D) (client_compression enc') (e_decompress enc') \<rparr>
                | _ \<Rightarrow> enc')
            in Ok (h', ss_set_common (c\<lparr> auth_user := user, cs_encrypted := Some enc'' \<rparr>) s))
          else if b0 = MSG_USERAUTH_INFO_RESPONSE then
            rbind (read_userauth_info_response D H h (e_write enc) ar (auth_user c) buf)
              (\<lambda>(h', accepted, ar', wr).
              let enc' = enc\<lparr> e_write := wr, e_state := WaitingAuthRequest ar' \<rparr>;
                  enc'' = (if accepted then
                      (case e_state enc' of
                         InitCompression \<Rightarrow> enc'\<lparr> e_decompress :=
                           init_decompress (d_flate D) (client_compression enc') (e_decompress enc') \<rparr>
                       | _ \<Rightarrow> enc')
                    else enc')
              in Ok (h', ss_set_encrypted enc'' s))
          else Ok (h, s)
      | InitCompression \<Rightarrow>
          server_read_authenticated D W H h buf (ss_set_encrypted
            (enc\<lparr> e_compress := init_compress (d_flate D) (server_compression enc) (e_compress enc),
                 e_state := Authenticated \<rparr>) s)
      | Authenticated \<Rightarrow> server_read_authenticated D W H h buf s))"

definition server_read_encrypted ::
  "deps \<Rightarrow> world \<Rightarrow> 'h handler \<Rightarrow> 'h \<Rightarrow> bytes \<Rightarrow> server_session \<Rightarrow> 'h reply" where
  "server_read_encrypted D W H h buf s =
     (let c = ss_common s; cfg = config c in
      case cs_encrypted c of
        None \<Rightarrow> Panic
      | Some enc \<Rightarrow>
      rbind (index buf 0) (\<lambda>b0.
      if b0 = MSG_KEXINIT then rmap (\<lambda>s'. (h, s')) (server_rekey_init D W buf enc s)
      else case e_rekey enc of
        Some (Kex_KexDh kd) \<Rightarrow>
          rbind (kexdh_parse D W cfg (cs_cipher c) kd buf (write_buffer c)) (\<lambda>(k, wb).
          Ok (h, ss_set_common (c\<lparr> cs_encrypted := Some (enc\<lparr> e_rekey := Some k \<rparr>),
                   write_buffer := wb \<rparr>) s))
      | Some (Kex_NewKeys nk) \<Rightarrow>
          if b0 \<noteq> MSG_NEWKEYS then Err (Thrussh E_Kex)
          else Ok (h, ss_set_common (cs_newkeys nk
                 (c\<lparr> cs_encrypted := Some (enc\<lparr> e_rekey := None \<rparr>) \<rparr>)) s)
      | _ \<Rightarrow> server_read_service D W H h buf enc s))"

section \<open>Every packet\<close>

definition server_reply ::
  "deps \<Rightarrow> world \<Rightarrow> 'h handler \<Rightarrow> 'h \<Rightarrow> bytes \<Rightarrow> server_session \<Rightarrow> 'h reply" where
  "server_reply D W H h buf s =
     (let c = ss_common s; cfg = config c in
      case cs_encrypted c of
        Some _ \<Rightarrow> server_read_encrypted D W H h buf s
      | None \<Rightarrow>
        (case cs_kex c of
           Some (Kex_KexInit ki) \<Rightarrow>
             rbind (if ki_algo ki \<noteq> None then Ok True
                    else rmap (\<lambda>b0. b0 = MSG_KEXINIT) (index buf 0)) (\<lambda>go.
             if go then
               rbind (server_parse D W cfg (cs_cipher c) ki buf (write_buffer c)) (\<lambda>(k, wb).
               Ok (h, ss_set_common (c\<lparr> cs_kex := Some k, write_buffer := wb \<rparr>) s))
             else Ok (h, s))
         | Some (Kex_KexDh kd) \<Rightarrow>
             rbind (kexdh_parse D W cfg (cs_cipher c) kd buf (write_buffer c)) (\<lambda>(k, wb).
             Ok (h, ss_set_common (c\<lparr> cs_kex := Some k, write_buffer := wb \<rparr>) s))
         | Some (Kex_NewKeys nk) \<Rightarrow>
             rbind (index buf 0) (\<lambda>b0.
             if b0 \<noteq> MSG_NEWKEYS then Err (Thrussh E_Kex)
             else Ok (h, ss_set_common (cs_set_encrypted (w_now W)
               (WaitingServiceRequest False False) nk (c\<lparr> cs_kex := None \<rparr>)) s))
         | _ \<Rightarrow> Ok (h, s)))"

section \<open>The connection\<close>

text \<open>\<^verbatim>\<open>read_ssh_id\<close>, after the client's identification was read, and the session of \<^verbatim>\<open>run_stream\<close>.\<close>

definition server_session_new ::
  "deps \<Rightarrow> world \<Rightarrow> server_config \<Rightarrow> bytes \<Rightarrow> server_session res" where
  "server_session_new D W cfg sshid =
     (let ex = exchange_new\<lparr> client_id := sshid, server_id := sc_server_id cfg \<rparr>;
          ki = \<lparr> ki_algo = None, ki_exchange = ex, ki_session_id = None, ki_sent = False \<rparr>
      in rbind (server_write D W cfg CLEAR_PAIR ki sshbuffer_new) (\<lambda>(ki', wb).
         Ok \<lparr> ss_common = \<lparr> auth_user = [], config = cfg, cs_encrypted = None,
                cs_auth_method = None, write_buffer = wb, cs_kex = Some (Kex_KexInit ki'),
                cs_cipher = CLEAR_PAIR, cs_wants_reply = False, disconnected = False \<rparr>,
              ss_target_window_size = sc_window_size cfg \<rparr>))"

text \<open>
  The branch of \<^verbatim>\<open>select!\<close> for a packet, on the buffer that \<^verbatim>\<open>cipher::read\<close> leaves: the result of the
  read itself is not looked at.
\<close>

definition server_on_packet ::
  "deps \<Rightarrow> world \<Rightarrow> 'h handler \<Rightarrow> 'h \<Rightarrow> bytes \<Rightarrow> server_session \<Rightarrow> ('h \<times> server_session) round res" where
  "server_on_packet D W H h buffer s =
     (if length buffer < 5 then Ok Break
      else
        case (case ss_encrypted s of
                Some enc \<Rightarrow>
                  (case decompress_packet (d_flate D) (e_decompress enc) (drop 5 buffer) of
                     (r, d') \<Rightarrow> (r, ss_set_encrypted (enc\<lparr> e_decompress := d' \<rparr>) s))
              | None \<Rightarrow> (Ok (drop 5 buffer), s)) of
          (Ok buf, s1) \<Rightarrow>
            (case buf of
               [] \<Rightarrow> Ok (Continue (h, s1))
             | b0 # _ \<Rightarrow>
                 if b0 = MSG_DISCONNECT then Ok Break
                 else if b0 \<le> 4 then Ok (Continue (h, s1))
                 else rmap Done (server_reply D W H h buf s1))
        | (Err e, s1) \<Rightarrow> Ok Break
        | (Panic, s1) \<Rightarrow> Panic
        | (Diverge, s1) \<Rightarrow> Diverge)"

text \<open>The branch for a message of the application.\<close>

fun server_on_message ::
  "deps \<Rightarrow> channel_id \<Rightarrow> channel_msg \<Rightarrow> server_session \<Rightarrow> server_session res" where
  "server_on_message D ch (CM_Data data) s = server_data (d_codec D) ch data s"
| "server_on_message D ch (CM_ExtendedData data ext) s = server_extended_data (d_codec D) ch ext data s"
| "server_on_message D ch CM_Eof s = Ok (server_eof (d_codec D) ch s)"
| "server_on_message D ch (CM_XonXoff client_can_do) s =
     server_xon_xoff_request (d_codec D) ch client_can_do s"
| "server_on_message D ch (CM_ExitStatus exit_status) s =
     server_exit_status_request (d_codec D) ch exit_status s"
| "server_on_message D ch (CM_ExitSignal signal_name core_dumped error_message lang_tag) s =
     server_exit_signal_request (d_codec D) ch signal_name core_dumped error_message lang_tag s"
| "server_on_message D ch (CM_WindowAdjusted new_size) s = Ok s"
| "server_on_message D ch CM_Success s = Ok s"

text \<open>The end of a round: flush, send everything that is encrypted, and forget it.\<close>

definition server_end_round ::
  "deps \<Rightarrow> world \<Rightarrow> server_session \<Rightarrow> (bytes \<times> server_session) res" where
  "server_end_round D W s =
     rbind (server_flush D W s) (\<lambda>s1.
       let c = ss_common s1 in
       Ok (sb_buffer (write_buffer c),
           ss_set_common (c\<lparr> write_buffer := (write_buffer c)\<lparr> sb_buffer := [] \<rparr> \<rparr>) s1))"

text \<open>
  One round that reads a packet from the bytes the client has sent. The result is the bytes sent
  and the state, with the rest of the input and the read buffer, which is cleared by a complete
  round only.
\<close>

definition server_read_round ::
  "deps \<Rightarrow> world \<Rightarrow> 'h handler \<Rightarrow> bytes \<Rightarrow> sshbuffer \<Rightarrow> 'h \<Rightarrow> server_session \<Rightarrow>
   (bytes \<times> bytes \<times> sshbuffer \<times> 'h \<times> server_session) round res" where
  "server_read_round D W H input rb h s =
     (case cipher_read (d_codec D) (d_sodium D) (cs_cipher (ss_common s)) input rb of
        (r, input', rb') \<Rightarrow>
      if r = Panic then Panic
      else rbind (server_on_packet D W H h (sb_buffer rb') s) (\<lambda>rd.
        case rd of
          Break \<Rightarrow> Ok Break
        | Continue (h', s') \<Rightarrow> Ok (Continue ([], input', rb', h', s'))
        | Done (h', s') \<Rightarrow>
            rbind (server_end_round D W s') (\<lambda>(sent, s'').
            Ok (Done (sent, input', rb'\<lparr> sb_buffer := [] \<rparr>, h', s'')))))"

text \<open>One round that takes a message of the application; such rounds wait while keys are exchanged.\<close>

definition server_message_round ::
  "deps \<Rightarrow> world \<Rightarrow> channel_id \<Rightarrow> channel_msg \<Rightarrow> server_session \<Rightarrow> (bytes \<times> server_session) res" where
  "server_message_round D W ch m s =
     (if server_is_rekeying s then Ok ([], s)
      else rbind (server_on_message D ch m s) (server_end_round D W))"

end
