(* ===== verification/Server_Auth_Props.thy ===== *)
theory Server_Auth_Props
  imports Server Session_Props
begin

text \<open>
  Who is let in: which sessions can become authenticated, and what a client can make the server
  do before that. An application sees a session through its public operations only; the
  interface \<open>server_app\<close> states that, with what the application remembers of its answers.
\<close>

section \<open>The public operations of a session\<close>

text \<open>
  One call of a public method of \<^verbatim>\<open>server::Session\<close>: what a handler can do to the session it
  is given, since every field of it is private.
\<close>

inductive session_op :: "deps \<Rightarrow> server_session \<Rightarrow> server_session \<Rightarrow> bool" for D where
  so_flush: "server_flush D W s = Ok s' \<Longrightarrow> session_op D s s'"
| so_flush_pending: "server_flush_pending (d_codec D) ch s = Ok (s', n) \<Longrightarrow> session_op D s s'"
| so_disconnect: "session_op D s (server_disconnect (d_codec D) reason desc lang s)"
| so_request_success: "session_op D s (server_request_success (d_codec D) s)"
| so_request_failure: "session_op D s (server_request_failure (d_codec D) s)"
| so_channel_success: "server_channel_success (d_codec D) ch s = Ok s' \<Longrightarrow> session_op D s s'"
| so_channel_failure: "server_channel_failure (d_codec D) ch s = Ok s' \<Longrightarrow> session_op D s s'"
| so_open_failure: "session_op D s (server_channel_open_failure (d_codec D) ch why desc lang s)"
| so_close: "session_op D s (server_close (d_codec D) ch s)"
| so_eof: "session_op D s (server_eof (d_codec D) ch s)"
| so_data: "server_data (d_codec D) ch data s = Ok s' \<Longrightarrow> session_op D s s'"
| so_ext_data: "server_extended_data (d_codec D) ch ext data s = Ok s' \<Longrightarrow> session_op D s s'"
| so_xon_xoff: "server_xon_xoff_request (d_codec D) ch b s = Ok s' \<Longrightarrow> session_op D s s'"
| so_exit_status: "server_exit_status_request (d_codec D) ch st s = Ok s' \<Longrightarrow> session_op D s s'"
| so_exit_signal:
    "server_exit_signal_request (d_codec D) ch sg core err lang s = Ok s' \<Longrightarrow> session_op D s s'"
| so_forwarded:
    "server_channel_open_forwarded_tcpip (d_codec D) a p oa op s = Ok (ch, s') \<Longrightarrow> session_op D s s'"

text \<open>What none of them touches: the user and the progress of the authentication.\<close>

definition auth_view :: "server_session \<Rightarrow> bytes \<times> encrypted_state option" where
  "auth_view s = (auth_user (ss_common s), map_option e_state (ss_encrypted s))"

text \<open>Channels exist only once the client is authenticated.\<close>

definition channels_guarded :: "encrypted \<Rightarrow> bool" where
  "channels_guarded enc \<longleftrightarrow> (e_state enc = Authenticated \<or> channels enc = Map.empty)"

definition ss_guarded :: "server_session \<Rightarrow> bool" where
  "ss_guarded s \<longleftrightarrow> (\<forall>enc. ss_encrypted s = Some enc \<longrightarrow> channels_guarded enc)"

text \<open>An operation on the encrypted state that keeps both.\<close>

definition keeps :: "encrypted \<Rightarrow> encrypted \<Rightarrow> bool" where
  "keeps enc enc' \<longleftrightarrow> e_state enc' = e_state enc \<and> (channels_guarded enc \<longrightarrow> channels_guarded enc')"

definition ss_keeps :: "server_session \<Rightarrow> server_session \<Rightarrow> bool" where
  "ss_keeps s s' \<longleftrightarrow> auth_view s' = auth_view s \<and> (ss_guarded s \<longrightarrow> ss_guarded s')"

named_theorems keep \<open>operations that keep the progress of the authentication\<close>

lemma keeps_refl [simp, keep]: "keeps enc enc"
  by (simp add: keeps_def)

lemma keeps_trans: "keeps e e' \<Longrightarrow> keeps e' e'' \<Longrightarrow> keeps e e''"
  by (simp add: keeps_def)

lemma keepsI [keep]:
  "e_state enc' = e_state enc \<Longrightarrow> channels enc' = channels enc \<Longrightarrow> keeps enc enc'"
  by (simp add: keeps_def channels_guarded_def)

lemma keeps_upd:
  assumes "channels enc ch = Some c" and "e_state enc' = e_state enc"
    and "channels enc' = (channels enc)(ch \<mapsto> c')"
  shows "keeps enc enc'"
  using assms by (auto simp: keeps_def channels_guarded_def)

lemma ss_keeps_refl [simp]: "ss_keeps s s"
  by (simp add: ss_keeps_def)

lemma ss_keeps_trans: "ss_keeps s t \<Longrightarrow> ss_keeps t u \<Longrightarrow> ss_keeps s u"
  by (simp add: ss_keeps_def)

lemma ss_keepsI:
  assumes "auth_user (ss_common s') = auth_user (ss_common s)"
    and "ss_encrypted s = Some enc" and "ss_encrypted s' = Some enc'" and "keeps enc enc'"
  shows "ss_keeps s s'"
  using assms by (simp add: ss_keeps_def auth_view_def ss_guarded_def keeps_def)

lemma ss_keeps_enc:
  "ss_encrypted s = Some enc \<Longrightarrow> keeps enc enc' \<Longrightarrow> ss_keeps s (ss_set_encrypted enc' s)"
  by (rule ss_keepsI) (simp_all add: ss_set_encrypted_def)

lemma ss_keeps_common:
  "ss_encrypted s = Some enc \<Longrightarrow> cs_encrypted c = Some enc' \<Longrightarrow> e_state enc' = e_state enc \<Longrightarrow>
   channels enc' = channels enc \<Longrightarrow> auth_user c = auth_user (ss_common s) \<Longrightarrow>
   ss_keeps s (ss_set_common c s)"
  by (auto simp: ss_keeps_def auth_view_def ss_guarded_def channels_guarded_def ss_set_common_def)

lemma ss_keeps_same:
  "auth_user (ss_common s') = auth_user (ss_common s) \<Longrightarrow> ss_encrypted s' = ss_encrypted s \<Longrightarrow> ss_keeps s s'"
  by (simp add: ss_keeps_def auth_view_def ss_guarded_def)

section \<open>Each operation keeps them\<close>

lemma enc_push_keeps [keep]: "keeps enc (enc_push C body enc)"
  by (rule keepsI) (simp_all add: enc_push_def)

lemma enc_flush_keeps:
  "enc_flush D now lim cipher wb enc = Ok (enc', wb', b) \<Longrightarrow>
   e_state enc' = e_state enc \<and> channels enc' = channels enc"
  by (cases "flush_loop D cipher (e_write enc) (e_write_cursor enc) (e_compress enc) wb")
    (auto simp: enc_flush_def Let_def)

lemma server_flush_keeps:
  assumes "server_flush D W s = Ok s'" shows "ss_keeps s s'"
proof (cases "ss_encrypted s")
  case None
  with assms show ?thesis by (simp add: server_flush_def)
next
  case (Some enc)
  with assms obtain enc1 wb1 b where f: "enc_flush D (w_now W) (sc_limits (ss_config s))
      (cs_cipher (ss_common s)) (write_buffer (ss_common s)) enc = Ok (enc1, wb1, b)"
    by (auto simp: server_flush_def Let_def rbind_eq_Ok)
  obtain enc' where "ss_encrypted s' = Some enc'" and "e_state enc' = e_state enc1"
    and "channels enc' = channels enc1" and "auth_user (ss_common s') = auth_user (ss_common s)"
    using assms Some f
    by (auto simp: server_flush_def Let_def rbind_eq_Ok ss_set_common_def split: if_splits option.splits)
  with enc_flush_keeps [OF f] Some show ?thesis
    by (auto intro!: ss_keepsI keepsI)
qed

lemma enc_channel_reply_keeps: "enc_channel_reply C m ch enc = Ok enc' \<Longrightarrow> keeps enc enc'"
  unfolding enc_channel_reply_def enc_push_def
  by (auto simp: rassert_eq_Ok intro: keeps_upd split: option.splits if_splits)

lemma enc_channel_request_keeps: "enc_channel_request C ch name args enc = Ok enc' \<Longrightarrow> keeps enc enc'"
  unfolding enc_channel_request_def
  by (auto simp: rassert_eq_Ok intro: keep split: option.splits)

lemma ss_enc_res_keeps:
  assumes "ss_enc_res f s = Ok s'" and "\<And>enc enc'. f enc = Ok enc' \<Longrightarrow> keeps enc enc'"
  shows "ss_keeps s s'"
  using assms unfolding ss_enc_res_def
  by (auto simp: rmap_eq_Ok intro: ss_keeps_enc split: option.splits)

lemma ss_with_enc_keeps: "(\<And>enc. keeps enc (f enc)) \<Longrightarrow> ss_keeps s (ss_with_enc f s)"
  unfolding ss_with_enc_def by (auto intro: ss_keeps_enc split: option.splits)

lemma enc_byte_keeps [keep]: "keeps enc (enc_byte C ch m enc)"
  unfolding enc_byte_def by (auto intro: keepsI split: option.splits)

lemma cs_byte_keeps: "ss_keeps s (ss_set_common (cs_byte C ch m (ss_common s)) s)"
proof (cases "ss_encrypted s")
  case None
  then show ?thesis by (simp add: cs_byte_def ss_set_common_def)
next
  case (Some enc)
  then show ?thesis
    by (intro ss_keepsI [OF _ _ _ enc_byte_keeps]) (simp_all add: cs_byte_def ss_set_common_def)
qed

lemma cs_disconnect_keeps: "ss_keeps s (server_disconnect C reason desc lang s)"
proof (cases "ss_encrypted s")
  case None
  then show ?thesis
    by (intro ss_keeps_same) (simp_all add: server_disconnect_def cs_disconnect_def ss_set_common_def Let_def)
next
  case (Some enc)
  then show ?thesis
    by (cases "disconnected (ss_common s)")
      (auto simp: server_disconnect_def cs_disconnect_def ss_set_common_def Let_def
        intro!: ss_keepsI keepsI)
qed

lemma request_reply_keeps:
  "ss_keeps s (server_request_success C s)" "ss_keeps s (server_request_failure C s)"
  unfolding server_request_success_def server_request_failure_def
  by (auto simp: ss_set_common_def enc_push_def intro!: ss_keepsI keepsI split: option.splits)

lemma flush_pending_keeps: "flush_pending C ch enc = Ok (enc', n) \<Longrightarrow> keeps enc enc'"
  unfolding flush_pending_def
  by (auto simp: rmap_eq_Ok intro: keeps_upd split: option.splits)

lemma enc_data_keeps: "enc_data C ch buf enc = Ok enc' \<Longrightarrow> keeps enc enc'"
  unfolding enc_data_def
  by (auto simp: rassert_eq_Ok rmap_eq_Ok intro: keeps_upd split: option.splits if_splits)

lemma enc_extended_data_keeps: "enc_extended_data C ch ext buf enc = Ok enc' \<Longrightarrow> keeps enc enc'"
  unfolding enc_extended_data_def Let_def
  by (auto simp: rassert_eq_Ok rmap_eq_Ok rbind_eq_Ok intro: keeps_upd split: option.splits if_splits)

lemma new_channel_keeps:
  "new_channel w m enc = Ok (ch, enc') \<Longrightarrow> e_state enc = Authenticated \<Longrightarrow> keeps enc enc'"
  unfolding new_channel_def
  by (auto simp: keeps_def channels_guarded_def split: option.splits)

lemma forwarded_keeps:
  assumes "server_channel_open_forwarded_tcpip C a p oa op s = Ok (ch, s')" shows "ss_keeps s s'"
proof -
  from assms obtain enc enc1 body where enc: "ss_encrypted s = Some enc"
    and st: "e_state enc = Authenticated"
    and n: "new_channel (sc_window_size (ss_config s)) (sc_maximum_packet_size (ss_config s)) enc = Ok (ch, enc1)"
    and s': "s' = ss_set_encrypted (enc_push C body enc1) s"
    unfolding server_channel_open_forwarded_tcpip_def Let_def
    by (auto simp: rmap_eq_Ok split: option.splits if_splits)
  from keeps_trans [OF new_channel_keeps [OF n st] enc_push_keeps]
  have "keeps enc (enc_push C body enc1)" .
  with enc show ?thesis unfolding s' by (rule ss_keeps_enc)
qed

lemma session_op_keeps: "session_op D s s' \<Longrightarrow> ss_keeps s s'"
proof (induction rule: session_op.induct)
  case (so_flush W s s')
  then show ?case by (rule server_flush_keeps)
next
  case (so_flush_pending ch s s' n)
  then show ?case
    by (auto simp: server_flush_pending_def rmap_eq_Ok intro: ss_keeps_enc flush_pending_keeps
        split: option.splits)
next
  case (so_data ch data s s')
  then show ?case
    by (auto simp: server_data_def rmap_eq_Ok intro: ss_keeps_enc enc_data_keeps split: option.splits)
next
  case (so_ext_data ch ext data s s')
  then show ?case
    by (auto simp: server_extended_data_def rmap_eq_Ok intro: ss_keeps_enc enc_extended_data_keeps
        split: option.splits)
qed (auto intro: request_reply_keeps cs_disconnect_keeps forwarded_keeps cs_byte_keeps ss_with_enc_keeps
      enc_push_keeps ss_enc_res_keeps enc_channel_reply_keeps enc_channel_request_keeps
    simp: server_channel_success_def server_channel_failure_def server_channel_open_failure_def
      server_close_def server_eof_def server_xon_xoff_request_def server_exit_status_request_def
      server_exit_signal_request_def)


section \<open>What an authenticated session means\<close>

text \<open>
  \<open>A\<close> are the users the application has accepted. While the server waits for a request, only a
  pending offer of a key counts; once the authentication is over, the user must be accepted.
\<close>

definition state_ok :: "bytes set \<Rightarrow> bytes \<Rightarrow> encrypted_state \<Rightarrow> bool" where
  "state_ok A user st =
     (case st of
        WaitingServiceRequest a b \<Rightarrow> True
      | WaitingAuthRequest ar \<Rightarrow> sent_pk_ok ar \<longrightarrow> user \<in> A
      | _ \<Rightarrow> user \<in> A)"

definition auth_inv :: "bytes set \<Rightarrow> server_session \<Rightarrow> bool" where
  "auth_inv A s \<longleftrightarrow> ss_guarded s \<and>
     (\<forall>enc. ss_encrypted s = Some enc \<longrightarrow> state_ok A (auth_user (ss_common s)) (e_state enc))"

lemma state_ok_simps [simp]:
  "state_ok A u (WaitingServiceRequest a b)"
  "state_ok A u (WaitingAuthRequest ar) = (sent_pk_ok ar \<longrightarrow> u \<in> A)"
  "state_ok A u InitCompression = (u \<in> A)"
  "state_ok A u Authenticated = (u \<in> A)"
  by (simp_all add: state_ok_def)

lemma state_ok_mono: "state_ok A u st \<Longrightarrow> A \<subseteq> A' \<Longrightarrow> state_ok A' u st"
  by (cases st) auto

lemma auth_inv_mono: "auth_inv A s \<Longrightarrow> A \<subseteq> A' \<Longrightarrow> auth_inv A' s"
  unfolding auth_inv_def by (blast intro: state_ok_mono)

lemma auth_inv_keeps: "auth_inv A s \<Longrightarrow> ss_keeps s s' \<Longrightarrow> auth_inv A s'"
  unfolding auth_inv_def ss_keeps_def auth_view_def
  by (auto simp: map_option_case split: option.splits)

lemma auth_inv_enc:
  assumes "auth_inv A s" and "ss_encrypted s = Some enc" and "keeps enc enc'"
    and "auth_user (ss_common s') = auth_user (ss_common s)" and "ss_encrypted s' = Some enc'"
  shows "auth_inv A s'"
  using auth_inv_keeps [OF assms(1) ss_keepsI] assms(2-) by blast

lemma sent_pk_ok_reject [simp]:
  "reject_auth_request C wr ar = (wr', ar') \<Longrightarrow> sent_pk_ok ar' = False"
  by (auto simp: reject_auth_request_def sent_pk_ok_def)

lemma enc_reject_state:
  "\<exists>ar'. e_state (enc_reject C ar enc) = WaitingAuthRequest ar' \<and> \<not> sent_pk_ok ar'"
  "channels (enc_reject C ar enc) = channels enc"
  by (auto simp: enc_reject_def reject_auth_request_def sent_pk_ok_def)

lemma state_ok_reject [simp]: "state_ok A u (e_state (enc_reject C ar enc))"
  using enc_reject_state(1) [of C ar enc] by auto

lemma enc_accept_sel [simp]:
  "e_state (enc_accept C enc) = InitCompression" "channels (enc_accept C enc) = channels enc"
  by (simp_all add: enc_accept_def)

lemmas enc_reject_channels [simp] = enc_reject_state(2)

section \<open>The interface of an application\<close>

text \<open>
  \<open>acc h\<close> are the users the application in the state \<open>h\<close> has accepted, \<open>ok h\<close> is a property of
  its state that calls keep: the calls for the channels of a client need it only when somebody
  was accepted. What the application does to a session it does by public operations.
\<close>

locale server_app =
  fixes D :: deps and H :: "'h handler" and acc :: "'h \<Rightarrow> bytes set" and ok :: "'h \<Rightarrow> bool"
  assumes password: "ok h \<Longrightarrow> h_auth_password H h u p = Ok (h', a) \<Longrightarrow>
        ok h' \<and> acc h \<subseteq> acc h' \<and> (a = Auth_Accept \<longrightarrow> u \<in> acc h')"
    and publickey: "ok h \<Longrightarrow> h_auth_publickey H h u k = Ok (h', a) \<Longrightarrow>
        ok h' \<and> acc h \<subseteq> acc h' \<and> (a = Auth_Accept \<longrightarrow> u \<in> acc h')"
    and interactive: "ok h \<Longrightarrow> h_auth_keyboard_interactive H h u sm r = Ok (h', a) \<Longrightarrow>
        ok h' \<and> acc h \<subseteq> acc h' \<and> (a = Auth_Accept \<longrightarrow> u \<in> acc h')"
    and adjust: "ok h \<Longrightarrow> h_adjust_window H h ch w = (h', w') \<Longrightarrow> ok h' \<and> acc h \<subseteq> acc h'"
    and event: "ok h \<Longrightarrow> acc h \<noteq> {} \<Longrightarrow> h_event H h e s = Ok (h', s') \<Longrightarrow>
        ok h' \<and> acc h \<subseteq> acc h' \<and> (session_op D)\<^sup>*\<^sup>* s s'"
    and forward: "ok h \<Longrightarrow> acc h \<noteq> {} \<Longrightarrow> h_tcpip_forward H h ad po s = Ok (h', s', b) \<Longrightarrow>
        ok h' \<and> acc h \<subseteq> acc h' \<and> (session_op D)\<^sup>*\<^sup>* s s'"
    and cancel: "ok h \<Longrightarrow> acc h \<noteq> {} \<Longrightarrow> h_cancel_tcpip_forward H h ad po s = Ok (h', s', b) \<Longrightarrow>
        ok h' \<and> acc h \<subseteq> acc h' \<and> (session_op D)\<^sup>*\<^sup>* s s'"
begin

text \<open>What a step of the server keeps: the state of the application and the authentication.\<close>

definition good :: "'h \<Rightarrow> server_session \<Rightarrow> bool" where
  "good h s \<longleftrightarrow> ok h \<and> auth_inv (acc h) s"

lemma ops_keep: "(session_op D)\<^sup>*\<^sup>* s s' \<Longrightarrow> ss_keeps s s'"
  by (induction rule: rtranclp_induct) (auto intro: ss_keeps_trans session_op_keeps)

lemma good_keeps: "good h s \<Longrightarrow> ss_keeps s s' \<Longrightarrow> good h s'"
  unfolding good_def by (blast intro: auth_inv_keeps)

lemma good_ops:
  assumes "good h s" and "ss_keeps s s1" and "ss_keeps t s'"
    and "ok h' \<and> acc h \<subseteq> acc h' \<and> (session_op D)\<^sup>*\<^sup>* s1 t"
  shows "good h' s'"
proof -
  have "ss_keeps s s'" using assms ops_keep ss_keeps_trans by blast
  moreover have "auth_inv (acc h') s" using assms unfolding good_def by (blast intro: auth_inv_mono)
  ultimately show ?thesis using assms(4) unfolding good_def by (blast intro: auth_inv_keeps)
qed

lemma good_event:
  assumes g: "good h s" and "acc h \<noteq> {}" and "ss_keeps s s1" and "h_event H h e s1 = Ok (h', s')"
  shows "good h' s'"
  using good_ops [OF g assms(3) ss_keeps_refl] event assms(2,4) g unfolding good_def by blast

lemma reply_info:
  assumes "reply_userauth_info_response C ar wr a = Ok (b, ar', wr')"
  shows "b = (a = Auth_Accept)" and "a \<noteq> Auth_Accept \<Longrightarrow> sent_pk_ok ar' \<Longrightarrow> sent_pk_ok ar"
  using assms by (cases a; auto split: prod.splits)+

lemma auth_request_step:
  assumes h: "ok h" and st: "state_ok (acc h) user0 (e_state enc)"
    and r: "server_read_auth_request D H h buf (user0, enc) = Ok (h', user', enc')"
  shows "ok h' \<and> acc h \<subseteq> acc h' \<and> channels enc' = channels enc \<and> state_ok (acc h') user' (e_state enc')"
proof -
  obtain p user m p3 where
    "(m = ascii ''password'' \<and> auth_password_request D H h buf p3 user (user0, enc) = Ok (h', user', enc')) \<or>
     server_read_auth_request_pk D H h buf p3 user (user0, enc) = Ok (h', user', enc') \<or>
     auth_keyboard_interactive_request D H h buf p3 user (user0, enc) = Ok (h', user', enc') \<or>
     (\<exists>ar. h' = h \<and> enc' = enc_reject (d_codec D) ar enc)"
    using r unfolding server_read_auth_request_def Let_def
    by (auto simp: rbind_eq_Ok split: if_splits)
  then show ?thesis
  proof (elim disjE)
    assume "m = ascii ''password'' \<and>
      auth_password_request D H h buf p3 user (user0, enc) = Ok (h', user', enc')"
    then obtain pw a ar where i: "h_auth_password H h user pw = Ok (h', a)"
      and "a = Auth_Accept \<and> user' = user \<and> enc' = enc_accept (d_codec D) enc \<or>
           user' = [] \<and> enc' = enc_reject (d_codec D) ar enc"
      unfolding auth_password_request_def Let_def
      by (fastforce simp: rbind_eq_Ok split: auth_answer.splits)
    then show ?thesis using password [OF h i] by auto
  next
    assume "auth_keyboard_interactive_request D H h buf p3 user (user0, enc) = Ok (h', user', enc')"
    then obtain sm a ar ar2 acc2 wr where
      i: "h_auth_keyboard_interactive H h user sm None = Ok (h', a)"
      and rp: "reply_userauth_info_response (d_codec D)
         (ar\<lparr> ar_current := Some (CR_KeyboardInteractive sm) \<rparr>) (e_write enc) a = Ok (acc2, ar2, wr)"
      and e: "user' = user" "enc' = enc\<lparr> e_write := wr,
        e_state := (if acc2 then InitCompression else WaitingAuthRequest ar2) \<rparr>"
      unfolding auth_keyboard_interactive_request_def Let_def
      by (auto simp: rbind_eq_Ok)
    show ?thesis
      using interactive [OF h i] reply_info [OF rp] e by (auto simp: sent_pk_ok_def)
  next
    assume "server_read_auth_request_pk D H h buf p3 user (user0, enc) = Ok (h', user', enc')"
    then obtain ar real algo key p4 where ar: "e_state enc = WaitingAuthRequest ar"
      and c: "(case parse_key (d_keys D) algo key of
          Ok pk \<Rightarrow> if real \<noteq> (0 :: u8) then auth_pk_real D H h buf p4 pk user ar (user0, enc)
                   else auth_pk_probe D H h algo key pk user ar (user0, enc)
        | Err e \<Rightarrow> if e = Keys_CouldNotReadKey then Ok (h, user0, enc_reject (d_codec D) ar enc) else Err e
        | Panic \<Rightarrow> Panic | Diverge \<Rightarrow> Diverge) = Ok (h', user', enc')"
      unfolding server_read_auth_request_pk_def Let_def waiting_auth_def
      by (auto simp only: rbind_eq_Ok prod.case split: encrypted_state.split_asm prod.split_asm) auto
    then obtain pk where
      "auth_pk_real D H h buf p4 pk user ar (user0, enc) = Ok (h', user', enc') \<or>
           auth_pk_probe D H h algo key pk user ar (user0, enc) = Ok (h', user', enc') \<or>
           (h' = h \<and> enc' = enc_reject (d_codec D) ar enc)"
      by (cases "parse_key (d_keys D) algo key") (auto split: if_splits)
    then show ?thesis
    proof (elim disjE)
      assume "auth_pk_probe D H h algo key pk user ar (user0, enc) = Ok (h', user', enc')"
      then obtain a where i: "h_auth_publickey H h user pk = Ok (h', a)"
        and "channels enc' = channels enc"
        and "a = Auth_Accept \<and> user' = user \<or> state_ok {} user' (e_state enc')"
        unfolding auth_pk_probe_def Let_def
        by (auto simp: rbind_eq_Ok split: if_splits)
      moreover from this have "user' \<in> acc h' \<or> state_ok {} user' (e_state enc')"
        using publickey [OF h i] by auto
      ultimately show ?thesis using publickey [OF h i]
        by (cases "e_state enc'") auto
    next
      assume a: "auth_pk_real D H h buf p4 pk user ar (user0, enc) = Ok (h', user', enc')"
      then obtain v where v: "(if sent_pk_ok ar \<and> user = user0 then Ok (h, user0, True)
             else if user0 = [] then
               rmap (\<lambda>(h', auth). (h', user, auth = Auth_Accept)) (h_auth_publickey H h user pk)
             else Ok (h, user0, False)) = Ok (h', user', v)"
        and e: "enc' = enc_reject (d_codec D) ar enc \<or> v \<and> enc' = enc_accept (d_codec D) enc"
        unfolding auth_pk_real_def Let_def
        by (auto simp: rbind_eq_Ok split: if_splits)
      consider "h' = h" "v \<longrightarrow> user' \<in> acc h'"
        | a where "h_auth_publickey H h user' pk = Ok (h', a)" "v \<longrightarrow> a = Auth_Accept"
        using v st ar by (auto simp: rmap_eq_Ok split: if_splits)
      then have "ok h' \<and> acc h \<subseteq> acc h' \<and> (v \<longrightarrow> user' \<in> acc h')"
        using h publickey [OF h] by cases blast+
      with e show ?thesis by auto
    qed (use h in auto)
  qed (use h in auto)
qed


text \<open>The answers to a challenge never finish the authentication.\<close>

lemma info_response_step:
  assumes h: "ok h" and st: "state_ok (acc h) user (WaitingAuthRequest ar)"
    and r: "read_userauth_info_response D H h wr ar user buf = Ok (h', b, ar', wr')"
  shows "ok h' \<and> acc h \<subseteq> acc h' \<and> state_ok (acc h') user (WaitingAuthRequest ar')"
proof (cases "\<exists>sm. ar_current ar = Some (CR_KeyboardInteractive sm)")
  case True
  then obtain sm where sm: "ar_current ar = Some (CR_KeyboardInteractive sm)" by blast
  with r obtain resp a where i: "h_auth_keyboard_interactive H h user sm resp = Ok (h', a)"
    and rp: "reply_userauth_info_response (d_codec D) ar wr a = Ok (b, ar', wr')"
    unfolding read_userauth_info_response_def Let_def by (auto simp: rbind_eq_Ok rmap_eq_Ok)
  from interactive [OF h i] reply_info [OF rp] st show ?thesis by auto
next
  case False
  with r have "h' = h" "\<not> sent_pk_ok ar'"
    unfolding read_userauth_info_response_def Let_def
    by (auto split: option.splits current_request.splits prod.splits)
  with h show ?thesis by simp
qed

lemma channel_open_step:
  assumes g: "good h s" and enc: "ss_encrypted s = Some enc" and st: "e_state enc = Authenticated"
    and r: "server_handle_channel_open D H h buf s = Ok (h', s')"
  shows "good h' s'"
proof -
  from g enc st have ne: "acc h \<noteq> {}" by (auto simp: good_def auth_inv_def)
  from r enc obtain ch enc1 where n: "new_channel_id enc = Ok (ch, enc1)"
    unfolding server_handle_channel_open_def Let_def by (auto simp: rbind_eq_Ok)
  then have st1: "e_state enc1 = Authenticated"
    using st by (auto simp: new_channel_id_def split: option.splits)
  have k1: "ss_keeps s (ss_set_encrypted enc1 s)"
    using enc st st1 by (auto intro!: ss_keeps_enc simp: keeps_def channels_guarded_def)
  have k2: "ss_keeps (ss_set_encrypted enc1 s) (confirm_channel_open C c (ss_set_encrypted enc1 s))" for C c
    unfolding confirm_channel_open_def ss_with_enc_def
    using st1 by (simp add: ss_set_encrypted_def)
      (rule ss_keepsI, simp, simp, simp, simp add: keeps_def channels_guarded_def)
  have e: "rpost (\<lambda>(h', s'). good h' s')
      (h_event H h e (confirm_channel_open C c (ss_set_encrypted enc1 s)))" for e C c
    using good_event [OF g ne ss_keeps_trans [OF k1 k2]] by (auto simp: rpost_def)
  have f: "good h (ss_with_enc (enc_push C body) (ss_set_encrypted enc1 s))" for C body
    using good_keeps [OF g ss_keeps_trans [OF k1 ss_with_enc_keeps [OF enc_push_keeps]]] .
  have "rpost (\<lambda>(h', s'). good h' s') (server_handle_channel_open D H h buf s)"
    unfolding server_handle_channel_open_def Let_def enc option.case n rbind.simps prod.case
    by (intro posts e) (simp add: f)
  with r show ?thesis by (auto dest: rpostD)
qed

lemma set_common_wants_keeps: "ss_keeps s (ss_set_common ((ss_common s)\<lparr> cs_wants_reply := b \<rparr>) s)"
  by (rule ss_keeps_same) (simp_all add: ss_set_common_def)

lemma channel_request_step:
  assumes g: "good h s" and ne: "acc h \<noteq> {}"
    and r: "server_channel_request D H h buf s = Ok (h', s')"
  shows "good h' s'"
proof -
  have k: "ss_keeps s (ss_with_enc (enc_wants_reply ch b) s)" for ch b
    by (rule ss_with_enc_keeps) (auto simp: enc_wants_reply_def intro: keeps_upd split: option.splits)
  have e: "rpost (\<lambda>(h', s'). good h' s') (h_event H h e (ss_with_enc (enc_wants_reply ch wr) s))" for e ch wr
    using good_event [OF g ne k] by (auto simp: rpost_def)
  have f: "good h (ss_with_enc (enc_push (d_codec D) [MSG_CHANNEL_FAILURE]) (ss_with_enc (enc_wants_reply ch wr) s))"
    for ch wr
    using good_keeps [OF g ss_keeps_trans [OF k ss_with_enc_keeps [OF enc_push_keeps]]] .
  have "rpost (\<lambda>(h', s'). good h' s') (server_channel_request D H h buf s)"
    unfolding server_channel_request_def Let_def
    by (intro posts e) (rule rpost_bind, rule e, rule rpost_bind, rule e, subst prod.case, rule f)
  with r show ?thesis by (auto dest: rpostD)
qed

lemma global_request_step:
  assumes g: "good h s" and ne: "acc h \<noteq> {}"
    and r: "server_global_request D H h buf s = Ok (h', s')"
  shows "good h' s'"
proof -
  obtain b ad po s1 t where k: "ss_keeps s s1"
    and "(h_tcpip_forward H h ad po s1 = Ok (h', t, b) \<or> h_cancel_tcpip_forward H h ad po s1 = Ok (h', t, b))
        \<and> s' = global_reply (d_codec D) b t \<or>
      h' = h \<and> s' = ss_with_enc (enc_push (d_codec D) [MSG_REQUEST_FAILURE]) s1"
    using r set_common_wants_keeps unfolding server_global_request_def Let_def
    by (fastforce simp: rbind_eq_Ok rmap_eq_Ok split: if_splits)
  then consider "ok h' \<and> acc h \<subseteq> acc h' \<and> (session_op D)\<^sup>*\<^sup>* s1 t" "s' = global_reply (d_codec D) b t"
    | "h' = h" "s' = ss_with_enc (enc_push (d_codec D) [MSG_REQUEST_FAILURE]) s1"
    using forward [OF _ ne] cancel [OF _ ne] g unfolding good_def by blast
  then show ?thesis
  proof cases
    case 1
    have "ss_keeps t (global_reply (d_codec D) b t)"
      unfolding global_reply_def by (rule ss_with_enc_keeps [OF enc_push_keeps])
    from good_ops [OF g k this 1(1)] 1(2) show ?thesis by simp
  next
    case 2
    then show ?thesis
      using good_keeps [OF g ss_keeps_trans [OF k ss_with_enc_keeps [OF enc_push_keeps]]] by simp
  qed
qed


lemma adjust_window_size_keeps: "keeps enc (fst (adjust_window_size C ch data target enc))"
  unfolding adjust_window_size_def Let_def
  by (auto intro: keeps_upd split: option.splits)

lemma server_adjust_window_step:
  assumes "server_adjust_window C H h ch data s = (h1, s1)" and "good h s"
  shows "ok h1 \<and> acc h \<subseteq> acc h1 \<and> ss_keeps s s1"
proof (cases "ss_encrypted s")
  case None
  with assms show ?thesis by (simp add: server_adjust_window_def good_def)
next
  case (Some enc)
  obtain enc' b where ad: "adjust_window_size C ch data (ss_target_window_size s) enc = (enc', b)"
    by (cases "adjust_window_size C ch data (ss_target_window_size s) enc")
  then have k: "keeps enc enc'" using adjust_window_size_keeps [of enc] by (metis fst_conv)
  have "ss_keeps s (ss_set_encrypted enc' s)" by (rule ss_keeps_enc [OF Some k])
  moreover have "ss_keeps t (t\<lparr> ss_target_window_size := w \<rparr>)" for t w
    by (rule ss_keeps_same) simp_all
  ultimately have k1: "ss_keeps s s1" using assms(1) Some ad
    by (auto simp: server_adjust_window_def Let_def intro: ss_keeps_trans split: if_splits prod.splits)
  show ?thesis
    using adjust [of h ch "ss_target_window_size s"] assms Some ad k1 unfolding good_def
    by (auto simp: server_adjust_window_def Let_def split: if_splits prod.splits)
qed

lemma channel_data_step:
  assumes g: "good h s" and ne: "acc h \<noteq> {}"
    and r: "server_channel_data D W H h buf s = Ok (h', s')"
  shows "good h' s'"
proof -
  have "rpost (\<lambda>(h', s'). good h' s')
      (rbind (server_flush D W s1) (\<lambda>s2. h_event H h1 e s2))"
    if a: "server_adjust_window C H h ch data s = (h1, s1)" for C ch data h1 s1 e
  proof (rule rpost_bind)
    fix s2 assume fl: "server_flush D W s1 = Ok s2"
    from server_adjust_window_step [OF a g] server_flush_keeps [OF fl] g have "good h1 s2"
      unfolding good_def by (blast intro: auth_inv_mono auth_inv_keeps)
    moreover have "acc h1 \<noteq> {}" using server_adjust_window_step [OF a g] ne by auto
    ultimately show "rpost (\<lambda>(h', s'). good h' s') (h_event H h1 e s2)"
      using good_event [OF _ _ ss_keeps_refl] by (auto simp: rpost_def)
  qed
  then have "rpost (\<lambda>(h', s'). good h' s') (server_channel_data D W H h buf s)"
    unfolding server_channel_data_def Let_def
    apply (intro rpost_bind [of "index buf 0"])
    by (intro posts) blast
  with r show ?thesis by (auto dest: rpostD)
qed

lemma window_adjust_step:
  assumes g: "good h s" and ne: "acc h \<noteq> {}"
    and r: "server_window_adjust D H h buf s = Ok (h', s')"
  shows "good h' s'"
proof -
  have k: "ss_encrypted s = Some enc \<Longrightarrow> enc_add_window ch amount enc = Ok (enc', w) \<Longrightarrow>
      ss_keeps s (ss_set_encrypted enc' s)" for enc ch amount enc' w
    by (rule ss_keeps_enc) (auto intro: keeps_upd simp: enc_add_window_def Let_def split: option.splits if_splits)
  have "rpost (\<lambda>(h', s'). good h' s') (h_event H h e s1)" if "ss_keeps s s1" for e s1
    using good_event [OF g ne that] by (auto simp: rpost_def)
  then have "rpost (\<lambda>(h', s'). good h' s') (server_window_adjust D H h buf s)"
    unfolding server_window_adjust_def Let_def by (intro posts) (auto intro: k)
  with r show ?thesis by (auto dest: rpostD)
qed

lemma authenticated_step:
  assumes g: "good h s" and enc: "ss_encrypted s = Some enc" and st: "e_state enc = Authenticated"
    and r: "server_read_authenticated D W H h buf s = Ok (h', s')"
  shows "good h' s'"
proof -
  from g enc st have ne: "acc h \<noteq> {}" by (auto simp: good_def auth_inv_def)
  have k: "ss_keeps s (ss_with_enc (\<lambda>enc. enc\<lparr> channels := (channels enc)(ch := None) \<rparr>) s)" for ch
    by (rule ss_with_enc_keeps) (auto simp: keeps_def channels_guarded_def)
  have c: "rpost (\<lambda>(h', s'). good h' s') (h_event H h e
      (ss_with_enc (\<lambda>enc. enc\<lparr> channels := (channels enc)(ch := None) \<rparr>) s))" for e ch
    using good_event [OF g ne k] by (auto simp: rpost_def)
  have e: "rpost (\<lambda>(h', s'). good h' s') (h_event H h e s)" for e
    using good_event [OF g ne ss_keeps_refl] by (auto simp: rpost_def)
  have "rpost (\<lambda>(h', s'). good h' s') (server_read_authenticated D W H h buf s)"
    unfolding server_read_authenticated_def Let_def
    apply (rule rpost_bind)
    apply (intro posts e c)
    using channel_open_step [OF g enc st] channel_data_step [OF g ne] window_adjust_step [OF g ne]
      channel_request_step [OF g ne] global_request_step [OF g ne] g
    by (auto simp: rpost_def)
  with r show ?thesis by (auto dest: rpostD)
qed


text \<open>The user and the state of the authentication of a session that is replaced as a whole.\<close>

lemma auth_invI:
  assumes "ss_encrypted s' = Some enc'" and "channels_guarded enc'"
    and "state_ok A (auth_user (ss_common s')) (e_state enc')"
  shows "auth_inv A s'"
  using assms by (simp add: auth_inv_def ss_guarded_def)

lemma read_service_step:
  assumes g: "good h s" and enc: "ss_encrypted s = Some enc"
    and r: "server_read_service D W H h buf enc s = Ok (h', s')"
  shows "good h' s'"
proof -
  let ?user = "auth_user (ss_common s)"
  let ?P = "\<lambda>(h', s'). good h' s'"
  have h: "ok h" and st: "state_ok (acc h) ?user (e_state enc)" and cg: "channels_guarded enc"
    using g enc by (auto simp: good_def auth_inv_def ss_guarded_def)
  have "rpost ?P (server_read_service D W H h buf enc s)"
  proof (cases "e_state enc")
    case (WaitingServiceRequest sent accepted)
    then have "channels enc = Map.empty" using cg by (simp add: channels_guarded_def)
    then have "auth_inv (acc h) (ss_set_encrypted (enc\<lparr> e_write := wr,
        e_state := WaitingAuthRequest \<lparr> ar_methods = ms, ar_partial_success = False,
          ar_current = None, ar_rejection_count = 0 \<rparr> \<rparr>) s)" for wr ms
      by (intro auth_invI) (auto simp: ss_set_encrypted_def channels_guarded_def sent_pk_ok_def)
    with g h WaitingServiceRequest show ?thesis
      unfolding server_read_service_def Let_def server_accept_service_def good_def
      by (auto simp: rpost_def rbind_eq_Ok split: if_splits)
  next
    case (WaitingAuthRequest ar)
    then have ce: "channels enc = Map.empty" using cg by (simp add: channels_guarded_def)
    have a: "good h' (ss_set_common ((ss_common s)\<lparr> auth_user := user, cs_encrypted := Some enc'' \<rparr>) s)"
      if "server_read_auth_request D H h buf (?user, enc) = Ok (h', user, enc')"
        and "enc'' = (case e_state enc' of
          InitCompression \<Rightarrow> enc'\<lparr> e_decompress :=
            init_decompress (d_flate D) (client_compression enc') (e_decompress enc') \<rparr>
        | _ \<Rightarrow> enc')" for h' user enc' enc''
    proof -
      have "channels enc'' = Map.empty" "e_state enc'' = e_state enc'"
        using auth_request_step [OF h st that(1)] ce that(2)
        by (auto split: encrypted_state.splits)
      then show ?thesis using auth_request_step [OF h st that(1)] unfolding good_def
        by (auto intro!: auth_invI simp: ss_set_common_def channels_guarded_def)
    qed
    have i: "good h' (ss_set_encrypted (enc\<lparr> e_write := wr, e_state := WaitingAuthRequest ar' \<rparr>) s)"
      if "read_userauth_info_response D H h (e_write enc) ar ?user buf = Ok (h', b, ar', wr)" for h' b ar' wr
      using info_response_step [OF h _ that] st WaitingAuthRequest ce unfolding good_def
      by (auto intro!: auth_invI simp: ss_set_encrypted_def channels_guarded_def)
    show ?thesis
      unfolding server_read_service_def WaitingAuthRequest encrypted_state.case Let_def
      apply (rule rpost_bind)
      apply (intro posts)
      using a i g by auto
  next
    case InitCompression
    let ?s1 = "ss_set_encrypted (enc\<lparr> e_compress := init_compress (d_flate D) (server_compression enc)
        (e_compress enc), e_state := Authenticated \<rparr>) s"
    have g1: "good h ?s1" using st h InitCompression unfolding good_def
      by (auto intro!: auth_invI simp: ss_set_encrypted_def channels_guarded_def)
    have e1: "ss_encrypted ?s1 = Some (enc\<lparr> e_compress := init_compress (d_flate D) (server_compression enc)
        (e_compress enc), e_state := Authenticated \<rparr>)" by (simp add: ss_set_encrypted_def)
    show ?thesis
      unfolding server_read_service_def InitCompression encrypted_state.case Let_def
      using authenticated_step [OF g1 e1] by (intro rpost_bind) (auto simp: rpost_def)
  next
    case Authenticated
    then show ?thesis
      unfolding server_read_service_def Authenticated encrypted_state.case Let_def
      using authenticated_step [OF g enc Authenticated] by (intro rpost_bind) (auto simp: rpost_def)
  qed
  with r show ?thesis by (auto dest: rpostD)
qed

lemma rekey_init_keeps:
  assumes enc: "ss_encrypted s = Some enc" and r: "server_rekey_init D W buf enc s = Ok s'"
  shows "ss_keeps s s'"
proof -
  have k: "ss_keeps s (ss_set_common ((ss_common s)\<lparr> cs_encrypted := Some (enc\<lparr> e_rekey := None,
      e_exchange := ex, e_rekey := k \<rparr>), write_buffer := wb \<rparr>) s)"
    "ss_keeps s (ss_set_common ((ss_common s)\<lparr> cs_encrypted := Some (enc\<lparr> e_rekey := None,
      e_rekey := k \<rparr>), write_buffer := wb \<rparr>) s)"
    "ss_keeps s (ss_set_encrypted (enc\<lparr> e_rekey := None \<rparr>) s)" for ex k wb
      apply (rule ss_keeps_common [OF enc], simp, simp, simp, simp)
     apply (rule ss_keeps_common [OF enc], simp, simp, simp, simp)
    by (rule ss_keeps_enc [OF enc keepsI]) simp_all
  have f: "rpost (ss_keeps s) (server_flush D W t)" if "ss_keeps s t" for t
    using server_flush_keeps ss_keeps_trans that unfolding rpost_def by blast
  have x: "rpost (ss_keeps s) (case e_exchange enc of
      Some ex \<Rightarrow>
        rbind (read_kex (d_codec D) server_select buf (sc_preferred (ss_config s))) (\<lambda>algo.
        rbind (server_parse D W (ss_config s) (cs_cipher (ss_common s))
          (received_rekey ex algo (e_session_id enc)) buf (write_buffer (ss_common s))) (\<lambda>(k, wb).
        Ok (ss_set_common ((ss_common s)\<lparr> cs_encrypted := Some (enc\<lparr> e_rekey := None,
          e_exchange := None, e_rekey := Some k \<rparr>), write_buffer := wb \<rparr>) s)))
    | None \<Rightarrow> Ok (ss_set_encrypted (enc\<lparr> e_rekey := None \<rparr>) s))"
    by (intro posts k) (rule rpost_bind, intro posts k)
  have "rpost (ss_keeps s) (server_rekey_init D W buf enc s)"
  proof (cases "\<exists>ki. e_rekey enc = Some (Kex_KexInit ki)")
    case True
    then obtain ki where "e_rekey enc = Some (Kex_KexInit ki)" by blast
    then show ?thesis unfolding server_rekey_init_def Let_def by (simp, intro posts f k(2) [simplified])
  next
    case False
    then show ?thesis unfolding server_rekey_init_def Let_def
      using x by (auto split: option.split kex.split)
  qed
  with r show ?thesis by (auto dest: rpostD)
qed


text \<open>Every packet, and every round of the connection.\<close>

lemma read_encrypted_step:
  assumes g: "good h s" and enc: "ss_encrypted s = Some enc"
    and r: "server_read_encrypted D W H h buf s = Ok (h', s')"
  shows "good h' s'"
proof -
  have k: "good h (ss_set_common ((ss_common s)\<lparr> cs_encrypted := Some (enc\<lparr> e_rekey := k \<rparr>),
      write_buffer := wb \<rparr>) s)" for k wb
    by (rule good_keeps [OF g ss_keeps_common [OF enc]], simp, simp, simp, simp)
  have n: "good h (ss_set_common (cs_newkeys nk ((ss_common s)\<lparr> cs_encrypted :=
      Some (enc\<lparr> e_rekey := None \<rparr>) \<rparr>)) s)" for nk
    unfolding cs_newkeys_def
    by (simp, rule good_keeps [OF g ss_keeps_common [OF enc]], simp, simp, simp, simp)
  have i: "rpost (\<lambda>(h', s'). good h' s') (rmap (\<lambda>s'. (h, s')) (server_rekey_init D W buf enc s))"
    using good_keeps [OF g rekey_init_keeps [OF enc]] by (auto simp: rpost_def rmap_eq_Ok)
  have v: "rpost (\<lambda>(h', s'). good h' s') (server_read_service D W H h buf enc s)"
    using read_service_step [OF g enc] by (auto simp: rpost_def)
  have "rpost (\<lambda>(h', s'). good h' s') (server_read_encrypted D W H h buf s)"
    unfolding server_read_encrypted_def Let_def enc option.case
    apply (rule rpost_bind)
    apply (rule rpost_if [OF i])
    apply (cases "e_rekey enc")
     apply (simp add: v)
    by (auto simp: rpost_def rbind_eq_Ok read_service_step [OF g enc] k n split: kex.splits if_splits)
  with r show ?thesis by (auto dest: rpostD)
qed

lemma reply_step:
  assumes g: "good h s" and r: "server_reply D W H h buf s = Ok (h', s')"
  shows "good h' s'"
proof (cases "ss_encrypted s")
  case (Some enc)
  with read_encrypted_step [OF g Some] r show ?thesis by (simp add: server_reply_def)
next
  case None
  have k: "good h (ss_set_common ((ss_common s)\<lparr> cs_kex := k, write_buffer := wb \<rparr>) s)" for k wb
    using g None by (auto simp: good_def auth_inv_def ss_guarded_def ss_set_common_def)
  have n: "good h (ss_set_common (cs_set_encrypted now (WaitingServiceRequest False False) nk c) s)"
    for now nk c
    using g by (auto simp: good_def cs_set_encrypted_def encrypted_new_def ss_set_common_def
        channels_guarded_def intro!: auth_invI)
  have "rpost (\<lambda>(h', s'). good h' s') (server_reply D W H h buf s)"
    unfolding server_reply_def Let_def None option.case
    apply (cases "cs_kex (ss_common s)")
     apply (simp add: g)
    by (auto simp: rpost_def rbind_eq_Ok rmap_eq_Ok k n g split: kex.splits if_splits)
  with r show ?thesis by (auto dest: rpostD)
qed

lemma on_packet_step:
  assumes g: "good h s" and r: "server_on_packet D W H h buffer s = Ok rd"
  shows "rd = Break \<or> (\<exists>h' s'. (rd = Continue (h', s') \<or> rd = Done (h', s')) \<and> good h' s')"
proof -
  define dec where "dec = (case ss_encrypted s of
      Some enc \<Rightarrow> (case decompress_packet (d_flate D) (e_decompress enc) (drop 5 buffer) of
         (r, d') \<Rightarrow> (r, ss_set_encrypted (enc\<lparr> e_decompress := d' \<rparr>) s))
    | None \<Rightarrow> (Ok (drop 5 buffer), s))"
  have "ss_keeps s (ss_set_encrypted (enc\<lparr> e_decompress := d \<rparr>) s)" if "ss_encrypted s = Some enc" for enc d
    by (rule ss_keeps_enc [OF that keepsI]) simp_all
  then have "ss_keeps s (snd dec)" unfolding dec_def by (auto split: option.splits prod.splits)
  then have g1: "good h (snd dec)" by (rule good_keeps [OF g])
  show ?thesis
    using r reply_step [OF g1] g1 unfolding server_on_packet_def dec_def [symmetric]
    by (cases dec) (auto simp: rmap_eq_Ok split: if_splits res.splits list.splits)
qed

lemma on_message_keeps: "server_on_message D ch m s = Ok s' \<Longrightarrow> ss_keeps s s'"
  by (cases m) (auto intro!: session_op_keeps [of D] intro: session_op.intros)

lemma end_round_keeps: "server_end_round D W s = Ok (sent, s') \<Longrightarrow> ss_keeps s s'"
  unfolding server_end_round_def Let_def
  by (auto simp: rbind_eq_Ok ss_set_common_def intro!: ss_keeps_trans [OF server_flush_keeps ss_keeps_same])

end

section \<open>Runs of the server\<close>

text \<open>
  What can happen to a connection: a round that reads from the stream, with any bytes of the
  client and any content of the read buffer, a round that takes a message of the application, or
  sending what is queued. The clock and the random numbers may differ in every round.
\<close>

inductive server_run ::
  "deps \<Rightarrow> 'h handler \<Rightarrow> 'h \<times> server_session \<Rightarrow> 'h \<times> server_session \<Rightarrow> bool" for D H hs0 where
  start: "server_run D H hs0 hs0"
| send: "server_run D H hs0 (h, s) \<Longrightarrow> server_end_round D W s = Ok (sent, s') \<Longrightarrow>
    server_run D H hs0 (h, s')"
| packet: "server_run D H hs0 (h, s) \<Longrightarrow>
    server_read_round D W H input rb h s = Ok (Done (sent, input', rb', h', s')) \<Longrightarrow>
    server_run D H hs0 (h', s')"
| skipped: "server_run D H hs0 (h, s) \<Longrightarrow>
    server_read_round D W H input rb h s = Ok (Continue (sent, input', rb', h', s')) \<Longrightarrow>
    server_run D H hs0 (h', s')"
| message: "server_run D H hs0 (h, s) \<Longrightarrow>
    server_message_round D W ch m s = Ok (sent, s') \<Longrightarrow> server_run D H hs0 (h, s')"

text \<open>Every connection begins without encryption, and so without channels or an authenticated user.\<close>

lemma session_new_unencrypted: "server_session_new D W cfg sshid = Ok s \<Longrightarrow> ss_encrypted s = None"
  unfolding server_session_new_def Let_def by (auto simp: rbind_eq_Ok)

lemma unencrypted_inv: "ss_encrypted s = None \<Longrightarrow> auth_inv A s"
  by (simp add: auth_inv_def ss_guarded_def)

text \<open>The packets of a client one after the other, each in a round of its own.\<close>

fun feed :: "deps \<Rightarrow> world \<Rightarrow> 'h handler \<Rightarrow> bytes list \<Rightarrow> 'h \<times> server_session \<Rightarrow> ('h \<times> server_session) option" where
  "feed D W H [] hs = Some hs"
| "feed D W H (p # ps) (h, s) =
     (case server_read_round D W H [] \<lparr> sb_buffer = replicate 5 0 @ p, sb_len = 0, sb_bytes = 0,
         sb_seqn = 0 \<rparr> h s of
        Ok (Done (sent, input', rb', hs')) \<Rightarrow> feed D W H ps hs'
      | _ \<Rightarrow> None)"

lemma feed_run:
  "feed D W H ps hs = Some hs' \<Longrightarrow> server_run D H hs0 hs \<Longrightarrow> server_run D H hs0 hs'"
proof (induction ps arbitrary: hs)
  case (Cons p ps)
  then show ?case
    by (cases hs) (auto intro!: Cons.IH intro: server_run.packet
        split: res.split_asm round.split_asm prod.split_asm)
qed simp

lemma server_read_round_cases:
  "server_read_round D W H input rb h s = Ok (Done (sent, input', rb', h', s')) \<Longrightarrow>
   \<exists>buffer s1. server_on_packet D W H h buffer s = Ok (Done (h', s1)) \<and>
     server_end_round D W s1 = Ok (sent, s')"
  "server_read_round D W H input rb h s = Ok (Continue (sent, input', rb', h', s')) \<Longrightarrow>
   \<exists>buffer. server_on_packet D W H h buffer s = Ok (Continue (h', s'))"
  unfolding server_read_round_def
  by (auto simp: rbind_eq_Ok split: prod.split_asm if_split_asm)
    (rename_tac rd, case_tac rd, auto simp: rbind_eq_Ok)+

context server_app
begin

lemma run_good:
  assumes "server_run D H hs0 hs" and "good (fst hs0) (snd hs0)"
  shows "good (fst hs) (snd hs)"
  using assms
proof (induction rule: server_run.induct)
  case start
  then show ?case .
next
  case (send h s W sent s')
  then show ?case using good_keeps end_round_keeps by fastforce
next
  case (packet h s W input rb sent input' rb' h' s')
  obtain buffer s1 where rd: "server_on_packet D W H h buffer s = Ok (Done (h', s1))"
    and e: "server_end_round D W s1 = Ok (sent, s')"
    using server_read_round_cases(1) [OF packet.hyps(2)] by blast
  from on_packet_step [OF _ rd] packet have "good h' s1" by fastforce
  with end_round_keeps [OF e] show ?case using good_keeps by simp
next
  case (skipped h s W input rb sent input' rb' h' s')
  obtain buffer where rd: "server_on_packet D W H h buffer s = Ok (Continue (h', s'))"
    using server_read_round_cases(2) [OF skipped.hyps(2)] by blast
  with on_packet_step [OF _ rd] skipped show ?case by fastforce
next
  case (message h s W ch m sent s')
  show ?case
  proof (cases "server_is_rekeying s")
    case True
    with message show ?thesis by (simp add: server_message_round_def)
  next
    case False
    with message.hyps(2) obtain s1 where m: "server_on_message D ch m s = Ok s1"
      and e: "server_end_round D W s1 = Ok (sent, s')"
      by (auto simp: server_message_round_def rbind_eq_Ok)
    with message show ?thesis using good_keeps [OF _ ss_keeps_trans [OF on_message_keeps [OF m] end_round_keeps [OF e]]]
      by simp
  qed
qed

end


section \<open>An application that keeps a log\<close>

text \<open>
  Any application can be made to keep a log of its answers to authentication requests and of the
  calls it got on behalf of an authenticated client, newest first.
\<close>

datatype log_entry = L_Auth bytes auth_answer | L_Call

definition logged :: "'h handler \<Rightarrow> ('h \<times> log_entry list) handler" where
  "logged H = \<lparr>
     h_auth_password = (\<lambda>(h, l) u p.
       rmap (\<lambda>(h', a). ((h', L_Auth u a # l), a)) (h_auth_password H h u p)),
     h_auth_publickey = (\<lambda>(h, l) u k.
       rmap (\<lambda>(h', a). ((h', L_Auth u a # l), a)) (h_auth_publickey H h u k)),
     h_auth_keyboard_interactive = (\<lambda>(h, l) u sm r.
       rmap (\<lambda>(h', a). ((h', L_Auth u a # l), a)) (h_auth_keyboard_interactive H h u sm r)),
     h_adjust_window = (\<lambda>(h, l) ch w. case h_adjust_window H h ch w of (h', w') \<Rightarrow> ((h', l), w')),
     h_event = (\<lambda>(h, l) e s. rmap (\<lambda>(h', s'). ((h', L_Call # l), s')) (h_event H h e s)),
     h_tcpip_forward = (\<lambda>(h, l) ad po s.
       rmap (\<lambda>(h', s', b). ((h', L_Call # l), s', b)) (h_tcpip_forward H h ad po s)),
     h_cancel_tcpip_forward = (\<lambda>(h, l) ad po s.
       rmap (\<lambda>(h', s', b). ((h', L_Call # l), s', b)) (h_cancel_tcpip_forward H h ad po s)) \<rparr>"

definition accepted_in :: "log_entry list \<Rightarrow> bytes set" where
  "accepted_in l = {u. L_Auth u Auth_Accept \<in> set l}"

text \<open>Every call comes after an acceptance.\<close>

fun justified :: "log_entry list \<Rightarrow> bool" where
  "justified [] = True"
| "justified (L_Auth u a # l) = justified l"
| "justified (L_Call # l) = (accepted_in l \<noteq> {} \<and> justified l)"

text \<open>An application that only uses the public operations of a session.\<close>

definition well_behaved :: "deps \<Rightarrow> 'h handler \<Rightarrow> bool" where
  "well_behaved D H \<longleftrightarrow>
     (\<forall>h e s h' s'. h_event H h e s = Ok (h', s') \<longrightarrow> (session_op D)\<^sup>*\<^sup>* s s') \<and>
     (\<forall>h ad po s h' s' b. h_tcpip_forward H h ad po s = Ok (h', s', b) \<longrightarrow> (session_op D)\<^sup>*\<^sup>* s s') \<and>
     (\<forall>h ad po s h' s' b. h_cancel_tcpip_forward H h ad po s = Ok (h', s', b) \<longrightarrow> (session_op D)\<^sup>*\<^sup>* s s')"

lemma accepted_in_simps [simp]:
  "accepted_in (L_Call # l) = accepted_in l"
  "accepted_in (L_Auth u a # l) = (if a = Auth_Accept then insert u (accepted_in l) else accepted_in l)"
  by (auto simp: accepted_in_def)

lemma logged_app:
  assumes "well_behaved D H"
  shows "server_app D (logged H) (\<lambda>(h, l). accepted_in l) (\<lambda>(h, l). justified l)"
proof -
  note ops = assms [unfolded well_behaved_def]
  show ?thesis
    apply unfold_locales
    subgoal by (auto simp: logged_def rmap_eq_Ok split: prod.splits)
    subgoal by (auto simp: logged_def rmap_eq_Ok split: prod.splits)
    subgoal by (auto simp: logged_def rmap_eq_Ok split: prod.splits)
    subgoal by (auto simp: logged_def split: prod.splits)
    subgoal using ops by (auto simp: logged_def rmap_eq_Ok split: prod.splits)
    subgoal using ops by (auto simp: logged_def rmap_eq_Ok split: prod.splits) blast
    subgoal using ops by (auto simp: logged_def rmap_eq_Ok split: prod.splits) blast
    done
qed

lemma default_event_op: "default_event (d_codec D) h e s = Ok (h', s') \<Longrightarrow> (session_op D)\<^sup>*\<^sup>* s s'"
  by (cases e) (auto simp: rmap_eq_Ok intro: so_flush_pending)

lemma default_well_behaved: "well_behaved D (default_handler (d_codec D))"
  using default_event_op by (fastforce simp: well_behaved_def default_handler_def)

interpretation default_app: server_app D "logged (default_handler (d_codec D))"
  "\<lambda>(h, l). accepted_in l" "\<lambda>(h, l). justified l" for D
  by (rule logged_app [OF default_well_behaved])

text \<open>
  C1. Only users the application has accepted get in. Whatever packets a client sends, in any
  order, and whatever the application does with the public operations of the session: when the
  connection is authenticated, the application has accepted the user the session is recorded for;
  before that the session has no channels, and the application is never called on behalf of a
  client it has not accepted.
\<close>

theorem only_accepted_users:
  assumes "well_behaved D H" and "server_run D (logged H) ((h0, []), s0) ((h, l), s)"
    and "ss_encrypted s0 = None" and "ss_encrypted s = Some enc"
  shows "justified l \<and>
    (e_state enc \<noteq> Authenticated \<longrightarrow> channels enc = Map.empty) \<and>
    (e_state enc \<in> {InitCompression, Authenticated} \<longrightarrow>
       L_Auth (auth_user (ss_common s)) Auth_Accept \<in> set l)"
proof -
  note app = logged_app [OF assms(1)]
  have "server_app.good (\<lambda>(h, l). accepted_in l) (\<lambda>(h, l). justified l) (h0, []) s0"
    using unencrypted_inv [OF assms(3)] by (simp add: server_app.good_def [OF app])
  then have "justified l \<and> auth_inv (accepted_in l) s"
    using server_app.run_good [OF app assms(2)] by (simp add: server_app.good_def [OF app])
  then show ?thesis
    using assms(4)
    by (auto simp: auth_inv_def ss_guarded_def channels_guarded_def
        accepted_in_def)
qed

definition demo_config :: server_config where
  "demo_config = \<lparr> sc_server_id = [], sc_methods = ms_all, sc_auth_banner = None,
     sc_auth_rejection_time = 1, sc_keys = [],
     sc_limits = \<lparr> rekey_write_limit = 500, rekey_read_limit = 500, rekey_time_limit = 500 \<rparr>,
     sc_window_size = 20, sc_maximum_packet_size = 20,
     sc_preferred = \<lparr> pf_kex = [], pf_key = [], pf_cipher = [], pf_mac = [], pf_compression = [] \<rparr>,
     sc_max_auth_attempts = 10, sc_connection_timeout = None \<rparr>"

definition demo_session :: server_session where
  "demo_session = \<lparr> ss_common = \<lparr> auth_user = [], config = demo_config, cs_encrypted = None,
     cs_auth_method = None, write_buffer = sshbuffer_new, cs_kex = Some (Kex_NewKeys demo_new_keys),
     cs_cipher = CLEAR_PAIR, cs_wants_reply = False, disconnected = False \<rparr>,
     ss_target_window_size = 20 \<rparr>"

definition demo_now :: world where
  "demo_now = \<lparr> w_rand = (\<lambda>n. Ok (replicate n 1)), w_now = 0 \<rparr>"

text \<open>An application that lets in everybody who knows the password \<open>[7]\<close>.\<close>

definition demo_app :: "unit handler" where
  "demo_app = (default_handler rfc_codec)\<lparr>
     h_auth_password := (\<lambda>h user password.
       Ok (h, if password = [7] then Auth_Accept else Auth_Reject)) \<rparr>"

lemma demo_app_well_behaved: "well_behaved demo_deps demo_app"
proof -
  have d: "d_codec demo_deps = rfc_codec" by (simp add: demo_deps_def)
  show ?thesis
    using default_event_op [of demo_deps, unfolded d]
    by (fastforce simp: well_behaved_def demo_app_def default_handler_def)
qed

text \<open>A client that ends the key exchange, asks for the service, logs in and opens a channel.\<close>

definition demo_packets :: "bytes list" where
  "demo_packets = [
     [MSG_NEWKEYS],
     [MSG_SERVICE_REQUEST] @ rfc_string (ascii ''ssh-userauth''),
     [MSG_USERAUTH_REQUEST] @ rfc_string (ascii ''a'') @ rfc_string (ascii ''ssh-connection'') @
       rfc_string (ascii ''password'') @ [0] @ rfc_string [7],
     [MSG_CHANNEL_OPEN] @ rfc_string (ascii ''session'') @ rfc_u32_be 0 @ rfc_u32_be 20 @ rfc_u32_be 20]"

definition demo_outcome :: "((unit \<times> log_entry list) \<times> server_session) option" where
  "demo_outcome = feed demo_deps demo_now (logged demo_app) demo_packets (((), []), demo_session)"

lemma demo_outcome_authenticated:
  "case demo_outcome of
     Some ((h, l), s) \<Rightarrow> (case ss_encrypted s of
        Some enc \<Rightarrow> e_state enc = Authenticated \<and> auth_user (ss_common s) = ascii ''a'' \<and> length l = 2
      | None \<Rightarrow> False)
   | None \<Rightarrow> False"
  by code_simp

theorem only_accepted_users_witness:
  "\<exists>l. justified l \<and> L_Auth (ascii ''a'') Auth_Accept \<in> set l \<and> length l = 2"
proof -
  obtain l s enc where o: "demo_outcome = Some (((), l), s)" and e: "ss_encrypted s = Some enc"
    and st: "e_state enc = Authenticated" "auth_user (ss_common s) = ascii ''a''" "length l = 2"
    using demo_outcome_authenticated by (auto split: option.splits)
  from o have run: "server_run demo_deps (logged demo_app) (((), []), demo_session) (((), l), s)"
    unfolding demo_outcome_def by (rule feed_run) (rule server_run.start)
  have "ss_encrypted demo_session = None" by (simp add: demo_session_def)
  from only_accepted_users [OF demo_app_well_behaved run this e] st show ?thesis by auto
qed

end
