(* ===== verification/Automaton.thy ===== *)
theory Automaton
  imports Msg "HOL-Library.Sublist"
begin

text \<open>
  Runs of an automaton whose steps are labelled with what is read, and the phases of a connection.
  An automaton that leads to each state on one way only, apart from steps that stay, makes the
  labels on this way a subsequence of what was read: the interface \<open>automaton\<close>, which both sides of
  the protocol provide.
\<close>

inductive labelled_run :: "('p \<Rightarrow> 'b \<Rightarrow> 'p \<Rightarrow> bool) \<Rightarrow> 'p \<Rightarrow> 'b list \<Rightarrow> 'p \<Rightarrow> bool" for step p where
  no_label: "labelled_run step p [] p"
| more: "labelled_run step p bs q \<Longrightarrow> step q b r \<Longrightarrow> labelled_run step p (bs @ [b]) r"

locale automaton =
  fixes step :: "'p \<Rightarrow> 'b \<Rightarrow> 'p \<Rightarrow> bool" and way :: "'p \<Rightarrow> 'b list"
  assumes way_step: "step p b q \<Longrightarrow> way q = way p \<or> way q = way p @ [b]"
begin

lemma run_way: "labelled_run step p bs q \<Longrightarrow> way p = [] \<Longrightarrow> subseq (way q) bs"
proof (induction rule: labelled_run.induct)
  case no_label
  then show ?case by simp
next
  case (more bs q b r)
  with way_step [OF more.hyps(2)] show ?case
    by (metis list_emb_prefix subseq_append)
qed

end

text \<open>
  The phases: before the key exchange and outside of it, its three steps, the service, the
  authentication, and what comes after it.
\<close>

datatype phase = Idle | Exchange_Init | Exchange_DH | Exchange_Keys | Service | Authentication | Accepted | Connection

text \<open>The label is the first byte of a packet.\<close>

lemma first_byte [simp]: "index (b # buf) 0 = Ok b"
  by (simp add: index_def)

end
