(* ===== verification/Server_Phases.thy ===== *)
theory Server_Phases
  imports Server_Auth_Props Kex_Props Automaton
begin

text \<open>
  The protocol of a connection as an automaton, as RFC 4253 and RFC 4252 have it for a server, and
  that the server implements it: every packet either leaves the phase as it is or leads to the
  next one, which takes the packet the protocol has there.
\<close>

section \<open>The automaton\<close>

text \<open>The steps, labelled with the type of the packet.\<close>

inductive phase_step :: "phase \<Rightarrow> u8 \<Rightarrow> phase \<Rightarrow> bool" where
  stay: "phase_step p b p"
| init: "phase_step Exchange_Init MSG_KEXINIT Exchange_DH"
| dh: "phase_step Exchange_DH MSG_KEX_ECDH_INIT Exchange_Keys"
| keys: "phase_step Exchange_Keys MSG_NEWKEYS Service"
| service: "phase_step Service MSG_SERVICE_REQUEST Authentication"
| authenticated: "phase_step Authentication MSG_USERAUTH_REQUEST Accepted"
| connected: "b \<noteq> MSG_KEXINIT \<Longrightarrow> phase_step Accepted b Connection"

inductive_simps phase_step_init [simp]: "phase_step Exchange_Init b q"
inductive_simps phase_step_dh [simp]: "phase_step Exchange_DH b q"
inductive_simps phase_step_keys [simp]: "phase_step Exchange_Keys b q"
inductive_simps phase_step_service [simp]: "phase_step Service b q"
inductive_simps phase_step_authentication [simp]: "phase_step Authentication b q"
inductive_simps phase_step_accepted [simp]: "phase_step Accepted b q"

abbreviation phase_run :: "phase \<Rightarrow> u8 list \<Rightarrow> phase \<Rightarrow> bool" where
  "phase_run \<equiv> labelled_run phase_step"

text \<open>The packets that lead to a phase.\<close>

fun way_to :: "phase \<Rightarrow> u8 list" where
  "way_to Idle = []"
| "way_to Exchange_Init = []"
| "way_to Exchange_DH = [MSG_KEXINIT]"
| "way_to Exchange_Keys = [MSG_KEXINIT, MSG_KEX_ECDH_INIT]"
| "way_to Service = [MSG_KEXINIT, MSG_KEX_ECDH_INIT, MSG_NEWKEYS]"
| "way_to Authentication = [MSG_KEXINIT, MSG_KEX_ECDH_INIT, MSG_NEWKEYS, MSG_SERVICE_REQUEST]"
| "way_to p = [MSG_KEXINIT, MSG_KEX_ECDH_INIT, MSG_NEWKEYS, MSG_SERVICE_REQUEST, MSG_USERAUTH_REQUEST]"

interpretation server_automaton: automaton phase_step way_to
  by unfold_locales (erule phase_step.cases, auto)

lemma phase_run_way: "phase_run Exchange_Init bs q \<Longrightarrow> subseq (way_to q) bs"
  by (erule server_automaton.run_way) simp

section \<open>The phases of a session\<close>

fun kex_phase :: "kex option \<Rightarrow> phase" where
  "kex_phase (Some (Kex_KexInit ki)) = Exchange_Init"
| "kex_phase (Some (Kex_KexDh kd)) = Exchange_DH"
| "kex_phase (Some (Kex_NewKeys nk)) = Exchange_Keys"
| "kex_phase k = Idle"

fun state_phase :: "encrypted_state \<Rightarrow> phase" where
  "state_phase (WaitingServiceRequest sent accepted) = Service"
| "state_phase (WaitingAuthRequest ar) = Authentication"
| "state_phase InitCompression = Accepted"
| "state_phase Authenticated = Connection"

definition phase_of :: "server_session \<Rightarrow> phase" where
  "phase_of s = (case ss_encrypted s of
     None \<Rightarrow> kex_phase (cs_kex (ss_common s)) | Some enc \<Rightarrow> state_phase (e_state enc))"

text \<open>What keeps the state of an encrypted session keeps the phase.\<close>

definition same_state :: "server_session \<Rightarrow> server_session \<Rightarrow> bool" where
  "same_state s s' \<longleftrightarrow> map_option e_state (ss_encrypted s') = map_option e_state (ss_encrypted s)"

lemma same_state_refl [simp]: "same_state s s"
  by (simp add: same_state_def)

lemma same_state_trans: "same_state s t \<Longrightarrow> same_state t u \<Longrightarrow> same_state s u"
  by (simp add: same_state_def)

lemma keeps_same: "ss_keeps s s' \<Longrightarrow> same_state s s'"
  by (simp add: ss_keeps_def auth_view_def same_state_def)

lemma ops_same: "(session_op D)\<^sup>*\<^sup>* s s' \<Longrightarrow> same_state s s'"
  by (induction rule: rtranclp_induct) (auto intro: same_state_trans keeps_same session_op_keeps)

lemma same_state_with_enc:
  "(\<And>enc. e_state (f enc) = e_state enc) \<Longrightarrow> same_state s (ss_with_enc f s)"
  by (simp add: same_state_def ss_with_enc_def ss_set_encrypted_def split: option.split)

lemma same_state_set:
  "ss_encrypted s = Some enc \<Longrightarrow> e_state enc' = e_state enc \<Longrightarrow> same_state s (ss_set_encrypted enc' s)"
  by (simp add: same_state_def ss_set_encrypted_def)

lemma phase_of_same:
  "same_state s s' \<Longrightarrow> ss_encrypted s = Some enc \<Longrightarrow> phase_of s' = state_phase (e_state enc)"
  by (auto simp: same_state_def phase_of_def)

section \<open>An authenticated client\<close>

text \<open>Whatever it sends, the connection stays what it is.\<close>

lemma adjust_window_state: "adjust_window_size C ch data target enc = (enc', b) \<Longrightarrow> e_state enc' = e_state enc"
  by (auto simp: adjust_window_size_def Let_def split: option.splits if_splits)

locale obedient_app =
  fixes D :: deps and H :: "'h handler"
  assumes event: "h_event H h e s = Ok (h', s') \<Longrightarrow> (session_op D)\<^sup>*\<^sup>* s s'"
    and forward: "h_tcpip_forward H h ad po s = Ok (h', s', b) \<Longrightarrow> (session_op D)\<^sup>*\<^sup>* s s'"
    and cancel: "h_cancel_tcpip_forward H h ad po s = Ok (h', s', b) \<Longrightarrow> (session_op D)\<^sup>*\<^sup>* s s'"
begin

lemma event_same:
  "same_state s s1 \<Longrightarrow> rpost (\<lambda>(h', s'). same_state s s') (h_event H h e s1)"
  unfolding rpost_def by (auto dest!: event ops_same intro: same_state_trans)

lemma open_request_same: "rpost (\<lambda>(h', s'). same_state s s') (server_handle_channel_open D H h buf s)"
proof -
  have k: "same_state s (ss_set_encrypted enc1 s)"
    if "ss_encrypted s = Some enc" "new_channel_id enc = Ok (ch, enc1)" for enc ch enc1
    by (rule same_state_set [OF that(1)]) (use that(2) in \<open>auto simp: new_channel_id_def split: option.splits\<close>)
  have c: "same_state s (confirm_channel_open C c s1)" if "same_state s s1" for C c s1
    unfolding confirm_channel_open_def by (rule same_state_trans [OF that same_state_with_enc]) simp
  have f: "same_state s (ss_with_enc (enc_push C body) s1)" if "same_state s s1" for C body s1
    by (rule same_state_trans [OF that same_state_with_enc]) (simp add: enc_push_def)
  show ?thesis
    unfolding server_handle_channel_open_def Let_def
    by (intro posts event_same c k) (auto intro!: f k)
qed

lemma channel_request_same: "rpost (\<lambda>(h', s'). same_state s s') (server_channel_request D H h buf s)"
proof -
  have k: "same_state s (ss_with_enc (enc_wants_reply ch b) s)" for ch b
    by (rule same_state_with_enc) (simp add: enc_wants_reply_def split: option.split)
  have f: "same_state s (ss_with_enc (enc_push C body) (ss_with_enc (enc_wants_reply ch b) s))" for C body ch b
    by (rule same_state_trans [OF k same_state_with_enc]) (simp add: enc_push_def)
  note e = event_same [OF k]
  show ?thesis
    unfolding server_channel_request_def Let_def
    by (intro posts e) (rule rpost_bind, rule e, rule rpost_bind, rule e, subst prod.case, rule f)
qed

lemma global_request_same: "rpost (\<lambda>(h', s'). same_state s s') (server_global_request D H h buf s)"
proof -
  have k: "same_state s (ss_set_common ((ss_common s)\<lparr> cs_wants_reply := b \<rparr>) s)" for b
    by (simp add: same_state_def ss_set_common_def)
  have g: "same_state t (ss_with_enc (enc_push C body) t)" for t C body
    by (rule same_state_with_enc) (simp add: enc_push_def)
  have gr: "same_state s t \<Longrightarrow> same_state s (global_reply C b t)" for t C b
    unfolding global_reply_def by (erule same_state_trans [OF _ g])
  have r: "rpost (\<lambda>(h', s'). same_state s s') (rmap (\<lambda>(h', s2, result). (h', global_reply C result s2)) r)"
    if "\<And>h' t b. r = Ok (h', t, b) \<Longrightarrow> same_state s t" for r :: "('h \<times> server_session \<times> bool) res" and C
    using that by (auto simp: rpost_def rmap_eq_Ok intro!: gr)
  show ?thesis
    unfolding server_global_request_def Let_def
    by (intro posts r) (auto intro: same_state_trans [OF k] ops_same g dest: forward cancel)
qed

lemma channel_data_same: "rpost (\<lambda>(h', s'). same_state s s') (server_channel_data D W H h buf s)"
proof -
  have a: "same_state s s1" if "server_adjust_window C H h ch data s = (h1, s1)" for C ch data h1 s1
    using that
    by (auto simp: server_adjust_window_def Let_def same_state_def ss_set_encrypted_def dest: adjust_window_state
        split: option.splits prod.splits if_splits)
  have "rpost (\<lambda>(h', s'). same_state s s') (rbind (server_flush D W s1) (\<lambda>s2. h_event H h1 e s2))"
    if "server_adjust_window C H h ch data s = (h1, s1)" for C ch data h1 s1 e
    using a [OF that] by (intro rpost_bind event_same) (auto intro: same_state_trans keeps_same server_flush_keeps)
  then show ?thesis
    unfolding server_channel_data_def Let_def
    apply (intro rpost_bind [of "index buf 0"])
    by (intro posts) blast
qed

lemma window_adjust_same: "rpost (\<lambda>(h', s'). same_state s s') (server_window_adjust D H h buf s)"
proof -
  have k: "same_state s (ss_set_encrypted enc' s)"
    if "ss_encrypted s = Some enc" "enc_add_window ch amount enc = Ok (enc', w)" for enc ch amount enc' w
    by (rule same_state_set [OF that(1)])
      (use that(2) in \<open>auto simp: enc_add_window_def Let_def split: option.splits if_splits\<close>)
  show ?thesis
    unfolding server_window_adjust_def Let_def by (intro posts event_same) (auto intro: k)
qed

lemma read_authenticated_same: "rpost (\<lambda>(h', s'). same_state s s') (server_read_authenticated D W H h buf s)"
proof -
  have k: "same_state s (ss_with_enc (\<lambda>enc. enc\<lparr> channels := (channels enc)(ch := None) \<rparr>) s)" for ch
    by (rule same_state_with_enc) simp
  show ?thesis
    unfolding server_read_authenticated_def Let_def
    apply (rule rpost_bind)
    by (intro posts event_same k open_request_same channel_data_same window_adjust_same channel_request_same
        global_request_same same_state_refl) simp
qed

section \<open>Every packet\<close>

text \<open>A request to be authenticated is accepted or not, and a challenge is never finished.\<close>

lemma reply_info_states:
  "reply_userauth_info_response C ar wr a = Ok (b, ar', wr') \<Longrightarrow> b = (a = Auth_Accept)"
  by (cases a) (auto split: prod.splits)

lemma auth_request_states:
  assumes "server_read_auth_request D H h buf (user0, enc) = Ok (h', user', enc')"
  shows "state_phase (e_state enc') \<in> {Authentication, Accepted}"
proof -
  let ?P = "\<lambda>(h', user', enc'). state_phase (e_state enc') \<in> {Authentication, Accepted}"
  have j: "state_phase (e_state (enc_reject C ar enc)) = Authentication" for C ar
    using enc_reject_state(1) [of C ar enc] by auto
  have a: "rpost ?P (auth_password_request D H h buf p user (user0, enc))" for p user
    unfolding auth_password_request_def Let_def
    by (auto simp: rpost_def rbind_eq_Ok j split: auth_answer.split_asm)
  have r: "rpost ?P (auth_pk_real D H h buf p k user ar (user0, enc))" for p k user ar
    unfolding auth_pk_real_def Let_def
    by (auto simp: rpost_def rbind_eq_Ok j split: if_splits)
  have q: "rpost ?P (auth_pk_probe D H h algo key k user ar (user0, enc))" for algo key k user ar
    unfolding auth_pk_probe_def Let_def
    by (auto simp: rpost_def rbind_eq_Ok j split: if_splits)
  have b: "rpost ?P (server_read_auth_request_pk D H h buf p user (user0, enc))" for p user
    unfolding server_read_auth_request_pk_def Let_def prod.case
    by (intro rpost_bind posts, split res.split) (auto intro: r [simplified] q [simplified] simp: j split: prod.splits)
  have c: "rpost ?P (auth_keyboard_interactive_request D H h buf p user (user0, enc))" for p user
    unfolding auth_keyboard_interactive_request_def Let_def
    by (auto simp: rpost_def rbind_eq_Ok)
  have "rpost ?P (server_read_auth_request D H h buf (user0, enc))"
    unfolding server_read_auth_request_def Let_def
    by (intro rpost_bind posts) (auto intro: a [simplified] b [simplified] c [simplified] rpost_bind simp: j split: prod.splits)
  with assms show ?thesis by (auto dest: rpostD)
qed

lemma same_enc_step:
  assumes "same_state s s'" and "ss_encrypted s = Some enc"
  shows "phase_step (phase_of s) b (phase_of s')"
  using phase_of_same [OF assms] assms(2) by (simp add: phase_of_def stay)

lemma read_service_phase:
  assumes enc: "ss_encrypted s = Some enc" and b: "b \<noteq> MSG_KEXINIT"
  shows "rpost (\<lambda>(h', s'). phase_step (phase_of s) b (phase_of s')) (server_read_service D W H h (b # buf) enc s)"
    (is "rpost ?P _")
proof (cases "e_state enc")
  case (WaitingServiceRequest sent accepted)
  with enc show ?thesis
    unfolding server_read_service_def Let_def
    by (auto simp: rpost_def rbind_eq_Ok phase_of_def ss_set_encrypted_def stay phase_step.service
        split: if_splits prod.splits)
next
  case (WaitingAuthRequest ar)
  then have p: "phase_of s = Authentication" using enc by (simp add: phase_of_def)
  have a: "phase_of (ss_set_common ((ss_common s)\<lparr> auth_user := user, cs_encrypted := Some
      (case e_state enc' of InitCompression \<Rightarrow> enc'\<lparr> e_decompress :=
         init_decompress (d_flate D) (client_compression enc') (e_decompress enc') \<rparr> | _ \<Rightarrow> enc') \<rparr>) s)
      \<in> {Authentication, Accepted}"
    if "server_read_auth_request D H h buf' (auth_user (ss_common s), enc) = Ok (h', user, enc')"
    for h' user enc' buf'
    using auth_request_states [OF that]
    by (auto simp: phase_of_def ss_set_common_def split: encrypted_state.split)
  have i: "phase_of (ss_set_encrypted (enc\<lparr> e_write := wr, e_state := WaitingAuthRequest ar' \<rparr>) s) = Authentication"
    for wr ar' by (simp add: phase_of_def ss_set_encrypted_def)
  show ?thesis
    unfolding server_read_service_def WaitingAuthRequest encrypted_state.case Let_def
    using p by (auto simp: rpost_def rbind_eq_Ok i dest: a [simplified] split: if_splits)
next
  case InitCompression
  let ?s1 = "ss_set_encrypted (enc\<lparr> e_compress := init_compress (d_flate D) (server_compression enc)
      (e_compress enc), e_state := Authenticated \<rparr>) s"
  have "phase_of s' = Connection" if "same_state ?s1 s'" for s'
    using phase_of_same [OF that] by (simp add: ss_set_encrypted_def)
  then show ?thesis
    using InitCompression enc b read_authenticated_same [of ?s1 W h "b # buf"]
    by (auto simp: server_read_service_def rpost_def phase_of_def)
next
  case Authenticated
  then show ?thesis
    using enc read_authenticated_same [of s W h "b # buf"]
    by (auto simp: server_read_service_def rpost_def intro: same_enc_step)
qed

lemma read_encrypted_phase:
  assumes enc: "ss_encrypted s = Some enc"
  shows "rpost (\<lambda>(h', s'). phase_step (phase_of s) b (phase_of s')) (server_read_encrypted D W H h (b # buf) s)"
    (is "rpost ?P _")
proof -
  have k: "phase_of (ss_set_common ((ss_common s)\<lparr> cs_encrypted := Some (enc\<lparr> e_rekey := k \<rparr>),
      write_buffer := wb \<rparr>) s) = phase_of s" for k wb
    by (simp add: phase_of_def ss_set_common_def enc stay)
  have n: "phase_of (ss_set_common (cs_newkeys nk ((ss_common s)\<lparr> cs_encrypted :=
      Some (enc\<lparr> e_rekey := None \<rparr>) \<rparr>)) s) = phase_of s" for nk
    by (simp add: phase_of_def ss_set_common_def cs_newkeys_def enc stay)
  have i: "rpost ?P (rmap (\<lambda>s'. (h, s')) (server_rekey_init D W (b # buf) enc s))"
    using same_enc_step [OF keeps_same [OF default_app.rekey_init_keeps [OF enc]] enc]
    by (auto simp: rpost_def rmap_eq_Ok)
  show ?thesis
    unfolding server_read_encrypted_def Let_def enc option.case
    apply (rule rpost_bind)
    apply (rule rpost_if [OF i])
     apply simp
    apply (cases "e_rekey enc")
     apply (simp add: read_service_phase [OF enc])
    using read_service_phase [OF enc, of b W h buf]
    by (auto simp: rpost_def rbind_eq_Ok k n stay split: kex.splits if_splits)
qed

lemma reply_phase:
  "rpost (\<lambda>(h', s'). phase_step (phase_of s) b (phase_of s')) (server_reply D W H h (b # buf) s)"
proof (cases "ss_encrypted s")
  case (Some enc)
  with read_encrypted_phase [OF Some] show ?thesis by (simp add: server_reply_def)
next
  case None
  then show ?thesis
    unfolding server_reply_def Let_def
    by (cases "cs_kex (ss_common s)")
      (auto simp: rpost_def rbind_eq_Ok rmap_eq_Ok rassert_eq_Ok phase_of_def ss_set_common_def
        server_parse_def kexdh_parse_def cs_set_encrypted_def encrypted_new_def Let_def
        phase_step.intros split: kex.splits if_splits)
qed

end

section \<open>Traces\<close>

text \<open>
  The packet in the buffer, as the server will see it, and the runs of the server with the types of
  the packets it has handled.
\<close>

definition packet_in :: "deps \<Rightarrow> bytes \<Rightarrow> server_session \<Rightarrow> bytes res" where
  "packet_in D buffer s = (case ss_encrypted s of
     Some enc \<Rightarrow> fst (decompress_packet (d_flate D) (e_decompress enc) (drop 5 buffer))
   | None \<Rightarrow> Ok (drop 5 buffer))"

inductive server_trace ::
  "deps \<Rightarrow> 'h handler \<Rightarrow> 'h \<times> server_session \<Rightarrow> u8 list \<Rightarrow> 'h \<times> server_session \<Rightarrow> bool" for D H hs0 where
  start: "server_trace D H hs0 [] hs0"
| handled: "server_trace D H hs0 bs (h, s) \<Longrightarrow> packet_in D buffer s = Ok (b # buf) \<Longrightarrow>
    server_on_packet D W H h buffer s = Ok (Done (h', s')) \<Longrightarrow> server_trace D H hs0 (bs @ [b]) (h', s')"
| skipped: "server_trace D H hs0 bs (h, s) \<Longrightarrow>
    server_on_packet D W H h buffer s = Ok (Continue (h', s')) \<Longrightarrow> server_trace D H hs0 bs (h', s')"
| sent: "server_trace D H hs0 bs (h, s) \<Longrightarrow> server_end_round D W s = Ok (out, s') \<Longrightarrow>
    server_trace D H hs0 bs (h, s')"
| message: "server_trace D H hs0 bs (h, s) \<Longrightarrow> server_message_round D W ch m s = Ok (out, s') \<Longrightarrow>
    server_trace D H hs0 bs (h, s')"

lemma on_packet_cases:
  assumes "server_on_packet D W H h buffer s = Ok rd"
  obtains "rd = Break" | s1 where "phase_of s1 = phase_of s" and "rd = Continue (h, s1)"
  | s1 b buf h' s' where "phase_of s1 = phase_of s" and "packet_in D buffer s = Ok (b # buf)"
      and "server_reply D W H h (b # buf) s1 = Ok (h', s')" and "rd = Done (h', s')"
proof -
  define dec where "dec = (case ss_encrypted s of
      Some enc \<Rightarrow> (case decompress_packet (d_flate D) (e_decompress enc) (drop 5 buffer) of
         (r, d') \<Rightarrow> (r, ss_set_encrypted (enc\<lparr> e_decompress := d' \<rparr>) s))
    | None \<Rightarrow> (Ok (drop 5 buffer), s))"
  have p: "packet_in D buffer s = fst dec" "phase_of (snd dec) = phase_of s"
    unfolding dec_def packet_in_def
    by (auto simp: phase_of_def ss_set_encrypted_def split: option.split prod.split)
  show thesis
    using assms that p unfolding server_on_packet_def dec_def [symmetric]
    by (cases dec) (auto simp: rmap_eq_Ok split: if_splits res.splits list.splits)
qed

lemma end_round_phase:
  assumes "server_end_round D W s = Ok (out, s')" shows "phase_of s' = phase_of s"
proof (cases "ss_encrypted s")
  case None
  with assms show ?thesis
    by (auto simp: server_end_round_def server_flush_def Let_def rbind_eq_Ok phase_of_def ss_set_common_def)
next
  case (Some enc)
  from phase_of_same [OF keeps_same [OF default_app.end_round_keeps [OF assms]] Some] Some show ?thesis
    by (simp add: phase_of_def)
qed

lemma message_round_phase:
  assumes "server_message_round D W ch m s = Ok (out, s')" shows "phase_of s' = phase_of s"
proof (cases "server_is_rekeying s")
  case False
  then obtain enc where enc: "ss_encrypted s = Some enc"
    by (auto simp: server_is_rekeying_def split: option.splits)
  from False assms obtain s1 where m: "server_on_message D ch m s = Ok s1"
    and e: "server_end_round D W s1 = Ok (out, s')"
    by (auto simp: server_message_round_def rbind_eq_Ok)
  from phase_of_same [OF keeps_same [OF default_app.on_message_keeps [OF m]] enc] enc
  show ?thesis by (simp add: end_round_phase [OF e]) (simp add: phase_of_def)
qed (use assms in \<open>simp add: server_message_round_def\<close>)

context obedient_app
begin

lemma trace_phases:
  "server_trace D H hs0 bs hs \<Longrightarrow> phase_run (phase_of (snd hs0)) bs (phase_of (snd hs))"
proof (induction rule: server_trace.induct)
  case (handled bs h s buffer b buf W h' s')
  from handled.hyps(3) obtain s1 where p: "phase_of s1 = phase_of s"
    and r: "server_reply D W H h (b # buf) s1 = Ok (h', s')"
    by (rule on_packet_cases) (use handled.hyps(2) in auto)
  from rpostD [OF reply_phase r] p have "phase_step (phase_of s) b (phase_of s')" by simp
  with handled.IH show ?case by (auto intro: labelled_run.more)
next
  case (skipped bs h s W buffer h' s')
  from skipped.hyps(2) show ?case
    by (rule on_packet_cases) (use skipped.IH in auto)
qed (auto intro: labelled_run.no_label simp: end_round_phase message_round_phase)

end

lemma well_behaved_obedient: "well_behaved D H \<Longrightarrow> obedient_app D H"
  unfolding well_behaved_def by unfold_locales blast+

interpretation default_obedient: obedient_app D "default_handler (d_codec D)" for D
  by (rule well_behaved_obedient [OF default_well_behaved])

lemma session_new_phase: "server_session_new D W cfg sshid = Ok s \<Longrightarrow> phase_of s = Exchange_Init"
  unfolding server_session_new_def Let_def by (auto simp: rbind_eq_Ok phase_of_def)

text \<open>
  C4. The server implements the protocol. Whatever packets a client sends, in any order, and
  whatever the application does with the public operations of the session: the phase of the
  connection goes along the automaton of the protocol. In particular, a connection that began with
  the exchange of the identifications can reach a phase only by the packets that lead to it, in
  their order: no channel without a request to authenticate, no such request without the
  service, no service without a key exchange, whatever else came in between.
\<close>

theorem server_follows_protocol:
  assumes "well_behaved D H" and "server_trace D H (h0, s0) bs (h, s)"
  shows "phase_run (phase_of s0) bs (phase_of s) \<and>
    (server_session_new D W cfg sshid = Ok s0 \<longrightarrow> subseq (way_to (phase_of s)) bs)"
proof -
  have r: "phase_run (phase_of s0) bs (phase_of s)"
    using obedient_app.trace_phases [OF well_behaved_obedient [OF assms(1)] assms(2)] by simp
  moreover have "phase_of s0 = Exchange_Init" if "server_session_new D W cfg sshid = Ok s0"
    using session_new_phase [OF that] .
  ultimately show ?thesis using phase_run_way by auto
qed

section \<open>A connection from the beginning\<close>

text \<open>Packets handled one after the other, with their types.\<close>

fun handle_all ::
  "deps \<Rightarrow> world \<Rightarrow> 'h handler \<Rightarrow> bytes list \<Rightarrow> 'h \<times> server_session \<Rightarrow> (u8 list \<times> 'h \<times> server_session) option" where
  "handle_all D W H [] hs = Some ([], hs)"
| "handle_all D W H (p # ps) (h, s) =
     (case (packet_in D p s, server_on_packet D W H h p s) of
        (Ok (b # buf), Ok (Done hs')) \<Rightarrow> map_option (\<lambda>(bs, r). (b # bs, r)) (handle_all D W H ps hs')
      | _ \<Rightarrow> None)"

lemma handle_all_trace:
  "handle_all D W H ps hs = Some (bs', hs') \<Longrightarrow> server_trace D H hs0 bs hs \<Longrightarrow> server_trace D H hs0 (bs @ bs') hs'"
proof (induction ps arbitrary: hs bs bs')
  case (Cons p ps)
  obtain h s where hs: "hs = (h, s)" by (cases hs)
  from Cons.prems(1) hs obtain b buf h1 s1 bs1 where p: "packet_in D p s = Ok (b # buf)"
    and o: "server_on_packet D W H h p s = Ok (Done (h1, s1))"
    and r: "handle_all D W H ps (h1, s1) = Some (bs1, hs')" and b: "bs' = b # bs1"
    by (auto split: res.split_asm list.split_asm round.split_asm)
  from Cons.IH [OF r server_trace.handled [OF Cons.prems(2) [unfolded hs] p o]] b show ?case by simp
qed simp

definition demo_kexinit :: bytes where
  "demo_kexinit = (case write_kex rfc_codec demo_names (Ok (replicate 16 2)) [] of Ok b \<Rightarrow> b | _ \<Rightarrow> [])"

definition demo_exchange_config :: server_config where
  "demo_exchange_config = demo_config\<lparr> sc_preferred := demo_names, sc_keys := [demo_key] \<rparr>"

definition demo_first_session :: "server_session res" where
  "demo_first_session = server_session_new demo_deps (demo_world 1) demo_exchange_config [83]"

definition buffered :: "bytes list \<Rightarrow> bytes list" where
  "buffered ps = List.map (append (replicate 5 0)) ps"

text \<open>A client that asks for the service before it exchanges keys, and one that opens a channel too early.\<close>

lemma demo_first_outcome:
  "case demo_first_session of
     Ok s0 \<Rightarrow>
       (case handle_all demo_deps (demo_world 1) demo_app (buffered [[MSG_SERVICE_REQUEST], demo_kexinit]) ((), s0) of
          Some (bs, h, s) \<Rightarrow> bs = [MSG_SERVICE_REQUEST, MSG_KEXINIT] \<and> phase_of s = Exchange_DH
        | None \<Rightarrow> False)
   | _ \<Rightarrow> False"
  by code_simp

lemma demo_later_outcome:
  "case handle_all demo_deps demo_now demo_app
      (buffered (take 2 demo_packets @ [[MSG_CHANNEL_OPEN]] @ drop 2 demo_packets)) ((), demo_session) of
     Some (bs, h, s) \<Rightarrow> bs = [MSG_NEWKEYS, MSG_SERVICE_REQUEST, MSG_CHANNEL_OPEN, MSG_USERAUTH_REQUEST,
       MSG_CHANNEL_OPEN] \<and> phase_of s = Connection
   | None \<Rightarrow> False"
  by code_simp

lemma some_run:
  assumes "case r of Some (bs, h, s) \<Rightarrow> P bs h s | None \<Rightarrow> False"
  obtains bs h s where "r = Some (bs, h, s)" and "P bs h s"
  using assms by (cases r) auto

theorem server_follows_protocol_witness:
  "\<exists>s0 bs s bs' s'. server_session_new demo_deps (demo_world 1) demo_exchange_config [83] = Ok s0 \<and>
    bs = [MSG_SERVICE_REQUEST, MSG_KEXINIT] \<and> phase_of s = Exchange_DH \<and>
    phase_run Exchange_Init bs Exchange_DH \<and> subseq (way_to Exchange_DH) bs \<and>
    length bs' = 5 \<and> phase_of s' = Connection \<and> phase_run Exchange_Keys bs' Connection"
proof -
  obtain s0 where s0: "demo_first_session = Ok s0"
    by (rule ok_run [OF demo_first_outcome])
  note n = s0 [unfolded demo_first_session_def]
  obtain bs s where o: "handle_all demo_deps (demo_world 1) demo_app
      (buffered [[MSG_SERVICE_REQUEST], demo_kexinit]) ((), s0) = Some (bs, (), s)"
    and e: "bs = [MSG_SERVICE_REQUEST, MSG_KEXINIT]" "phase_of s = Exchange_DH"
    using demo_first_outcome [unfolded s0 res.case] by (elim some_run) auto
  obtain bs' s' where o': "handle_all demo_deps demo_now demo_app
      (buffered (take 2 demo_packets @ [[MSG_CHANNEL_OPEN]] @ drop 2 demo_packets)) ((), demo_session) = Some (bs', (), s')"
    and e': "length bs' = 5" "phase_of s' = Connection"
    by (rule some_run [OF demo_later_outcome]) auto
  have t: "server_trace demo_deps demo_app ((), s0) bs ((), s)"
    using handle_all_trace [OF o server_trace.start] by simp
  have t': "server_trace demo_deps demo_app ((), demo_session) bs' ((), s')"
    using handle_all_trace [OF o' server_trace.start] by simp
  have k: "phase_of demo_session = Exchange_Keys"
    by (simp add: phase_of_def demo_session_def)
  from server_follows_protocol [OF demo_app_well_behaved t, of "demo_world 1" demo_exchange_config "[83]"] n e(2)
  have "phase_run Exchange_Init bs Exchange_DH" "subseq (way_to Exchange_DH) bs"
    by (simp_all add: session_new_phase [OF n])
  moreover have "phase_run Exchange_Keys bs' Connection"
    using server_follows_protocol [OF demo_app_well_behaved t'] e'(2) k by simp
  ultimately show ?thesis using n e e' by blast
qed

end
