(* ===== verification/Event_Loop.thy ===== *)
theory Event_Loop
  imports Session Ssh_Read "HOL-Library.Stream"
begin

text \<open>
  The loop of a connection, as both sides have it: \<^verbatim>\<open>while !disconnected { select! { .. } .. }\<close>. One
  turn takes the branch that \<^verbatim>\<open>select!\<close> finds ready, so the order of the branches is an input, a
  stream of turns. A turn ends with the next one or leaves the loop; an error or a panic ends the
  function around the loop. What the turns keep, the loop keeps: the interface \<open>turn_invariant\<close>.
\<close>

section \<open>Branches and connections\<close>

text \<open>A packet, the timeout, or a message of the application.\<close>

datatype 'm branch = B_Read | B_Timeout | B_Message 'm

datatype 's after = Next 's | Leave 's

text \<open>
  The local variables of the loop: what the peer is still going to send before it closes, the read
  buffer, what was sent, the state of the handler and the session.
\<close>

record ('h, 's) conn =
  cn_input :: bytes
  cn_rb :: sshbuffer
  cn_out :: bytes
  cn_handler :: 'h
  cn_session :: 's

section \<open>The loop\<close>

partial_function (option) event_loop ::
  "('t \<Rightarrow> 's \<Rightarrow> 's after res) \<Rightarrow> ('s \<Rightarrow> bool) \<Rightarrow> 't stream \<Rightarrow> 's \<Rightarrow> 's res option" where
  "event_loop turn stop ts s =
     (if stop s then Some (Ok s)
      else case turn (shd ts) s of
             Ok a \<Rightarrow> (case a of
                 Next s' \<Rightarrow> event_loop turn stop (stl ts) s'
               | Leave s' \<Rightarrow> Some (Ok s'))
           | Err e \<Rightarrow> Some (Err e)
           | Panic \<Rightarrow> Some Panic
           | Diverge \<Rightarrow> Some Diverge)"

text \<open>The state at the head of the loop after some turns, if the loop gets so far.\<close>

primrec turns :: "('t \<Rightarrow> 's \<Rightarrow> 's after res) \<Rightarrow> ('s \<Rightarrow> bool) \<Rightarrow> nat \<Rightarrow> 't stream \<Rightarrow> 's \<Rightarrow> 's option" where
  "turns turn stop 0 ts s = Some s"
| "turns turn stop (Suc n) ts s =
     (if stop s then None
      else case turn (shd ts) s of Ok (Next s') \<Rightarrow> turns turn stop n (stl ts) s' | _ \<Rightarrow> None)"

section \<open>Before and after the loop\<close>

text \<open>
  What the packet layer reads: the first read, of the four bytes of a length, gets all that was read
  beyond the identification line.
\<close>

definition packet_stream :: "read_ssh_id_buffer \<Rightarrow> bytes list \<Rightarrow> bytes res" where
  "packet_stream sid rest =
     rmap (\<lambda>(first, stream). first @ concat (sr_r stream)) (ssh_poll_read \<lparr> sr_id = Some sid, sr_r = rest \<rparr> 4)"

text \<open>After the loop: what the peer still sends is read and dropped.\<close>

lemma cipher_read_consumes:
  "cipher_read C S pair input rb = (Ok n, input', rb') \<Longrightarrow> length input' < length input \<and> 4 \<le> n"
  by (auto simp: cipher_read_def read_exact_def Let_def split: prod.splits if_splits res.splits list.splits)

function drain :: "codec \<Rightarrow> sodium \<Rightarrow> cipher_pair \<Rightarrow> bytes \<Rightarrow> sshbuffer \<Rightarrow> unit res" where
  "drain C S pair input rb =
     (case cipher_read C S pair input (rb\<lparr> sb_buffer := [] \<rparr>) of
        (Ok n, input', rb') \<Rightarrow> if n \<noteq> 0 then drain C S pair input' rb' else Ok ()
      | (Err e, input', rb') \<Rightarrow> Err e
      | (Panic, input', rb') \<Rightarrow> Panic
      | (Diverge, input', rb') \<Rightarrow> Diverge)"
  by pat_completeness auto
termination
  by (relation "measure (\<lambda>(C, S, pair, input, rb). length input)")
    (auto dest: cipher_read_consumes [OF sym])

declare drain.simps [simp del]

lemma drain_never_Ok: "drain C S pair input rb \<noteq> Ok u"
proof (induction C S pair input rb rule: drain.induct)
  case (1 C S pair input rb)
  then show ?case
    by (subst drain.simps) (auto split: prod.split res.split dest: cipher_read_consumes)
qed

lemma cipher_read_end: "cipher_read C S pair [] rb = (Err Io_Error, [], rb)"
  by (simp add: cipher_read_def read_exact_def)

section \<open>What holds of every loop\<close>

lemma event_loop_induct [consumes 1, case_names stop again leave fail]:
  assumes "event_loop turn stop ts s = Some r"
    and "\<And>ts s. stop s \<Longrightarrow> P ts s (Ok s)"
    and "\<And>ts s s' r. \<not> stop s \<Longrightarrow> turn (shd ts) s = Ok (Next s') \<Longrightarrow> P (stl ts) s' r \<Longrightarrow> P ts s r"
    and "\<And>ts s s'. \<not> stop s \<Longrightarrow> turn (shd ts) s = Ok (Leave s') \<Longrightarrow> P ts s (Ok s')"
    and "\<And>ts s r. \<not> stop s \<Longrightarrow> (\<And>a. turn (shd ts) s \<noteq> Ok a) \<Longrightarrow> (\<And>x. r \<noteq> Ok x) \<Longrightarrow> P ts s r"
  shows "P ts s r"
proof -
  have "turn' = turn \<longrightarrow> stop' = stop \<longrightarrow> P ts s r" if "event_loop turn' stop' ts s = Some r" for turn' stop'
  proof (rule event_loop.raw_induct [rotated, OF that])
    fix loop turn' stop' ts s r
    assume IH: "\<And>turn' stop' ts s r. loop turn' stop' ts s = Some r \<Longrightarrow>
        turn' = turn \<longrightarrow> stop' = stop \<longrightarrow> P ts s r"
      and eq: "(if stop' s then Some (Ok s)
        else case turn' (shd ts) s of
               Ok a \<Rightarrow> (case a of
                   Next s' \<Rightarrow> loop turn' stop' (stl ts) s'
                 | Leave s' \<Rightarrow> Some (Ok s'))
             | Err e \<Rightarrow> Some (Err e)
             | Panic \<Rightarrow> Some Panic
             | Diverge \<Rightarrow> Some Diverge) = Some r"
    show "turn' = turn \<longrightarrow> stop' = stop \<longrightarrow> P ts s r"
    proof (intro impI)
      assume [simp]: "turn' = turn" "stop' = stop"
      show "P ts s r"
      proof (cases "stop s")
        case True
        with eq assms(2) [OF True, of ts] show ?thesis by auto
      next
        case False
        then show ?thesis using eq IH assms(3-5)
          by (auto split: res.split_asm after.split_asm)
      qed
    qed
  qed
  with assms(1) show ?thesis by blast
qed

text \<open>A turn that changes nothing keeps the loop busy for ever.\<close>

lemma event_loop_stuck:
  assumes "\<not> stop s" and "\<And>t. t \<in> sset ts \<Longrightarrow> turn t s = Ok (Next s)"
  shows "event_loop turn stop ts s = None"
proof (rule ccontr)
  assume "event_loop turn stop ts s \<noteq> None"
  then obtain r where r: "event_loop turn stop ts s = Some r" by blast
  have "\<not> (s' = s \<and> sset ts' \<subseteq> sset ts)" if "event_loop turn stop ts' s' = Some r" for ts' s'
    using that
  proof (induction rule: event_loop_induct)
    case (again ts' s' s'' r)
    show ?case
    proof
      assume a: "s' = s \<and> sset ts' \<subseteq> sset ts"
      then have "s'' = s" using assms(2) [of "shd ts'"] again.hyps(2) shd_sset [of ts'] by auto
      moreover have "sset (stl ts') \<subseteq> sset ts" using a stl_sset [of _ ts'] by auto
      ultimately show False using again.IH by blast
    qed
  next
    case (leave ts' s' s'')
    then show ?case using assms(2) [of "shd ts'"] shd_sset [of ts'] by auto
  next
    case (fail ts' s' r)
    then show ?case using assms(2) [of "shd ts'"] shd_sset [of ts'] by (metis subsetD)
  qed (use assms(1) in auto)
  with r show False by blast
qed

text \<open>What an evaluated turn says.\<close>

lemma next_turn:
  assumes "case r of Ok (Next c) \<Rightarrow> P c | _ \<Rightarrow> False"
  obtains c where "r = Ok (Next c)" and "P c"
  using assms by (cases r) (auto split: after.splits)

lemma leave_turn:
  assumes "case r of Ok (Leave c) \<Rightarrow> P c | _ \<Rightarrow> False"
  obtains c where "r = Ok (Leave c)" and "P c"
  using assms by (cases r) (auto split: after.splits)

locale turn_invariant =
  fixes turn :: "'t \<Rightarrow> 's \<Rightarrow> 's after res" and stop :: "'s \<Rightarrow> bool" and inv :: "'s \<Rightarrow> bool"
  assumes next_keeps: "inv s \<Longrightarrow> \<not> stop s \<Longrightarrow> turn t s = Ok (Next s') \<Longrightarrow> inv s'"
    and leave_keeps: "inv s \<Longrightarrow> \<not> stop s \<Longrightarrow> turn t s = Ok (Leave s') \<Longrightarrow> inv s'"
begin

lemma turns_keep: "turns turn stop n ts s = Some s' \<Longrightarrow> inv s \<Longrightarrow> inv s'"
  by (induction n arbitrary: ts s)
    (auto intro: next_keeps split: if_splits res.splits after.splits)

lemma loop_keeps:
  assumes "event_loop turn stop ts s = Some (Ok s')" and "inv s" shows "inv s'"
proof -
  have "r = Ok s' \<longrightarrow> inv s \<longrightarrow> inv s'" if "event_loop turn stop ts s = Some r" for r
    using that by (induction rule: event_loop_induct) (auto intro: next_keeps leave_keeps)
  with assms show ?thesis by blast
qed

end

end
