(* ===== verification/Server_Loop.thy ===== *)
theory Server_Loop
  imports Server_Phases Ssh_Read_Props Event_Loop
begin

text \<open>
  \<^verbatim>\<open>run_stream\<close> of \<^verbatim>\<open>src/src/server/mod.rs\<close> as a whole: the identification lines, the loop with the
  branches of its \<^verbatim>\<open>select!\<close>, and what is done after it.
\<close>

section \<open>The function\<close>

type_synonym 'h server_conn = "('h, server_session) conn"

text \<open>A turn: the clock and the random bytes it sees, and the branch that is ready first.\<close>

type_synonym server_turns = "(world \<times> (channel_id \<times> channel_msg) option branch) stream"

text \<open>
  Up to the loop. The peer's bytes come in pieces, as the transport delivers them.
\<close>

definition server_accept ::
  "deps \<Rightarrow> world \<Rightarrow> server_config \<Rightarrow> bytes list \<Rightarrow> 'h \<Rightarrow> 'h server_conn res" where
  "server_accept D W cfg pieces h =
     (case read_ssh_id read_ssh_id_buffer_new pieces of (line, sid, rest) \<Rightarrow>
      rbind line (\<lambda>sshid.
      rbind (server_session_new D W cfg sshid) (\<lambda>s0.
      rbind (server_end_round D W s0) (\<lambda>(sent, s).
      rmap (\<lambda>input.
          \<lparr> cn_input = input, cn_rb = sshbuffer_new,
            cn_out = sb_buffer (send_ssh_id (sc_server_id cfg) sshbuffer_new) @ sent,
            cn_handler = h, cn_session = s \<rparr>)
        (packet_stream sid rest)))))"

text \<open>
  The branch that is taken: without a delay there is no timeout, and messages of the application
  wait while keys are exchanged. A packet or the end of the stream comes at last.
\<close>

fun server_branch :: "nat option \<Rightarrow> server_session \<Rightarrow> 'm branch \<Rightarrow> 'm branch" where
  "server_branch delay s B_Read = B_Read"
| "server_branch delay s B_Timeout = (if delay = None then B_Read else B_Timeout)"
| "server_branch delay s (B_Message m) = (if server_is_rekeying s then B_Read else B_Message m)"

definition server_turn ::
  "deps \<Rightarrow> 'h handler \<Rightarrow> nat option \<Rightarrow> world \<times> (channel_id \<times> channel_msg) option branch \<Rightarrow>
   'h server_conn \<Rightarrow> 'h server_conn after res" where
  "server_turn D H delay turn c =
     (let (W, br) = turn; s = cn_session c in
      case server_branch delay s br of
        B_Read \<Rightarrow>
          (case cipher_read (d_codec D) (d_sodium D) (cs_cipher (ss_common s)) (cn_input c) (cn_rb c) of
             (r, input', rb') \<Rightarrow>
           rmap (\<lambda>rd. case rd of
               Break \<Rightarrow> Leave (c\<lparr> cn_input := input', cn_rb := rb' \<rparr>)
             | Continue (sent, input', rb', h', s') \<Rightarrow>
                 Next (c\<lparr> cn_input := input', cn_rb := rb', cn_handler := h', cn_session := s' \<rparr>)
             | Done (sent, input', rb', h', s') \<Rightarrow>
                 Next \<lparr> cn_input = input', cn_rb = rb', cn_out = cn_out c @ sent,
                        cn_handler = h', cn_session = s' \<rparr>)
             (server_read_round D W H (cn_input c) (cn_rb c) (cn_handler c) s))
      | B_Timeout \<Rightarrow> Ok (Leave c)
      | B_Message msg \<Rightarrow>
          rmap (\<lambda>(sent, s'). Next (c\<lparr> cn_rb := (cn_rb c)\<lparr> sb_buffer := [] \<rparr>,
                                     cn_out := cn_out c @ sent, cn_session := s' \<rparr>))
            (case msg of
               Some (ch, m) \<Rightarrow> server_message_round D W ch m s
             | None \<Rightarrow> server_end_round D W s))"

definition server_disconnected :: "'h server_conn \<Rightarrow> bool" where
  "server_disconnected c = disconnected (ss_common (cn_session c))"

abbreviation server_loop ::
  "deps \<Rightarrow> 'h handler \<Rightarrow> nat option \<Rightarrow> server_turns \<Rightarrow> 'h server_conn \<Rightarrow> 'h server_conn res option" where
  "server_loop D H delay \<equiv> event_loop (server_turn D H delay) server_disconnected"

definition server_run_stream ::
  "deps \<Rightarrow> 'h handler \<Rightarrow> server_config \<Rightarrow> world \<Rightarrow> bytes list \<Rightarrow> server_turns \<Rightarrow> 'h \<Rightarrow> 'h res option" where
  "server_run_stream D H cfg W pieces ts h =
     (case server_accept D W cfg pieces h of
        Ok c0 \<Rightarrow> map_option (\<lambda>r. rbind r (\<lambda>c.
            rmap (\<lambda>_. cn_handler c)
              (drain (d_codec D) (d_sodium D) (cs_cipher (ss_common (cn_session c))) (cn_input c) (cn_rb c))))
          (server_loop D H (sc_connection_timeout cfg) ts c0)
      | Err e \<Rightarrow> Some (Err e)
      | Panic \<Rightarrow> Some Panic
      | Diverge \<Rightarrow> Some Diverge)"

section \<open>What the loop keeps\<close>

text \<open>A turn is a round of the connection, so that what holds of all runs holds of the loop.\<close>

definition conn_of :: "'h server_conn \<Rightarrow> 'h \<times> server_session" where
  "conn_of c = (cn_handler c, cn_session c)"

definition in_run :: "deps \<Rightarrow> 'h handler \<Rightarrow> 'h \<times> server_session \<Rightarrow> 'h server_conn \<Rightarrow> bool" where
  "in_run D H hs0 c \<longleftrightarrow> server_run D H hs0 (conn_of c) \<and> (\<exists>bs. server_trace D H hs0 bs (conn_of c))"

lemma read_round_trace:
  assumes t: "server_trace D H hs0 bs (h, s)"
    and r: "server_read_round D W H input rb h s = Ok rd"
    and rd: "rd = Continue (sent, input', rb', h', s') \<or> rd = Done (sent, input', rb', h', s')"
  shows "\<exists>bs. server_trace D H hs0 bs (h', s')"
proof (cases rd)
  case (Continue c)
  with rd r obtain buffer where "server_on_packet D W H h buffer s = Ok (Continue (h', s'))"
    by (auto dest: server_read_round_cases(2))
  with t show ?thesis by (blast intro: server_trace.skipped)
next
  case (Done c)
  with rd r obtain buffer s1 where o: "server_on_packet D W H h buffer s = Ok (Done (h', s1))"
    and e: "server_end_round D W s1 = Ok (sent, s')"
    by (auto dest: server_read_round_cases(1))
  from o obtain b buf where "packet_in D buffer s = Ok (b # buf)"
    by (rule on_packet_cases) auto
  from server_trace.sent [OF server_trace.handled [OF t this o] e] show ?thesis by blast
qed (use rd in simp)

lemma server_turn_keeps:
  assumes c: "in_run D H hs0 c" and t: "server_turn D H delay turn c = Ok a"
    and a: "a = Next c' \<or> a = Leave c'"
  shows "in_run D H hs0 c'"
proof -
  obtain W br where turn: "turn = (W, br)" by (cases turn)
  obtain bs where r: "server_run D H hs0 (cn_handler c, cn_session c)"
    and tr: "server_trace D H hs0 bs (cn_handler c, cn_session c)"
    using c by (auto simp: in_run_def conn_of_def)
  show ?thesis
  proof (cases "server_branch delay (cn_session c) br")
    case B_Read
    obtain q input1 rb1 where q: "cipher_read (d_codec D) (d_sodium D) (cs_cipher (ss_common (cn_session c)))
        (cn_input c) (cn_rb c) = (q, input1, rb1)"
      by (cases "cipher_read (d_codec D) (d_sodium D) (cs_cipher (ss_common (cn_session c))) (cn_input c) (cn_rb c)")
    from t obtain rd where rd: "server_read_round D W H (cn_input c) (cn_rb c) (cn_handler c) (cn_session c) = Ok rd"
      by (auto simp: server_turn_def turn B_Read q rmap_eq_Ok)
    show ?thesis
    proof (cases rd)
      case Break
      with t a c show ?thesis by (auto simp: server_turn_def turn B_Read q rd in_run_def conn_of_def)
    next
      case (Continue x)
      obtain sent input' rb' h' s' where x: "x = (sent, input', rb', h', s')" by (cases x)
      from server_run.skipped [OF r rd [unfolded Continue x]] read_round_trace [OF tr rd] Continue x t a
      show ?thesis by (auto simp: server_turn_def turn B_Read q rd in_run_def conn_of_def)
    next
      case (Done x)
      obtain sent input' rb' h' s' where x: "x = (sent, input', rb', h', s')" by (cases x)
      from server_run.packet [OF r rd [unfolded Done x]] read_round_trace [OF tr rd] Done x t a
      show ?thesis by (auto simp: server_turn_def turn B_Read q rd in_run_def conn_of_def)
    qed
  next
    case B_Timeout
    with t a c show ?thesis by (auto simp: server_turn_def turn)
  next
    case (B_Message m)
    show ?thesis
    proof (cases m)
      case None
      with t a obtain sent s' where e: "server_end_round D W (cn_session c) = Ok (sent, s')"
        and c': "c' = c\<lparr> cn_rb := (cn_rb c)\<lparr> sb_buffer := [] \<rparr>, cn_out := cn_out c @ sent, cn_session := s' \<rparr>"
        by (auto simp: server_turn_def turn B_Message rmap_eq_Ok)
      from server_run.send [OF r e] server_trace.sent [OF tr e] show ?thesis
        by (auto simp: c' in_run_def conn_of_def)
    next
      case (Some msg)
      obtain ch m1 where "msg = (ch, m1)" by (cases msg)
      with Some t a obtain sent s' where e: "server_message_round D W ch m1 (cn_session c) = Ok (sent, s')"
        and c': "c' = c\<lparr> cn_rb := (cn_rb c)\<lparr> sb_buffer := [] \<rparr>, cn_out := cn_out c @ sent, cn_session := s' \<rparr>"
        by (auto simp: server_turn_def turn B_Message rmap_eq_Ok)
      from server_run.message [OF r e] server_trace.message [OF tr e] show ?thesis
        by (auto simp: c' in_run_def conn_of_def)
    qed
  qed
qed

interpretation server_turns: turn_invariant "server_turn D H delay" server_disconnected "in_run D H hs0"
  for D H delay hs0
  by unfold_locales (auto intro: server_turn_keeps)

lemma logged_well_behaved: "well_behaved D H \<Longrightarrow> well_behaved D (logged H)"
  unfolding well_behaved_def
  by (elim conjE, intro conjI allI impI) (auto simp: logged_def rmap_eq_Ok split: prod.split_asm, blast+)

lemma end_round_unencrypted:
  "ss_encrypted s = None \<Longrightarrow> \<exists>sent wb. server_end_round D W s = Ok (sent, ss_set_common ((ss_common s)\<lparr> write_buffer := wb \<rparr>) s)"
  by (auto simp: server_end_round_def server_flush_def Let_def)

lemma server_accept_start:
  assumes "server_accept D W cfg pieces h = Ok c0"
  shows "cn_handler c0 = h" and "phase_of (cn_session c0) = Exchange_Init" and "ss_encrypted (cn_session c0) = None"
proof -
  from assms obtain sshid s0 sent where n: "server_session_new D W cfg sshid = Ok s0"
    and e: "server_end_round D W s0 = Ok (sent, cn_session c0)" and h: "cn_handler c0 = h"
    by (auto simp: server_accept_def rbind_eq_Ok rmap_eq_Ok split: prod.splits)
  show "cn_handler c0 = h" by (fact h)
  show "phase_of (cn_session c0) = Exchange_Init"
    using end_round_phase [OF e] session_new_phase [OF n] by simp
  show "ss_encrypted (cn_session c0) = None"
    using end_round_unencrypted [OF session_new_unencrypted [OF n], of D W] e session_new_unencrypted [OF n]
    by (auto simp: ss_set_common_def)
qed

text \<open>
  C6. The server is safe from the first byte to the end of the loop. Whatever bytes a peer sends,
  in whatever pieces, and in whatever order \<^verbatim>\<open>select!\<close> takes packets, messages of the application
  and timeouts: every state at the head of the loop, and the one it is left with, is one of a run
  of the protocol that began without encryption, so that a client is authenticated only after the
  packets that lead there and as a user whom the application has accepted; and the application is
  not called for any other client.
\<close>

theorem connection_is_safe:
  assumes "well_behaved D H" and "server_accept D W cfg pieces (h0, []) = Ok c0"
    and "turns (server_turn D (logged H) delay) server_disconnected n ts c0 = Some c \<or>
      server_loop D (logged H) delay ts c0 = Some (Ok c)"
  shows "\<exists>bs. server_trace D (logged H) (conn_of c0) bs (conn_of c) \<and>
    subseq (way_to (phase_of (cn_session c))) bs \<and>
    justified (snd (cn_handler c)) \<and>
    (phase_of (cn_session c) \<in> {Accepted, Connection} \<longrightarrow>
       L_Auth (auth_user (ss_common (cn_session c))) Auth_Accept \<in> set (snd (cn_handler c)))"
proof -
  note start = server_accept_start [OF assms(2)]
  note app = logged_app [OF assms(1)]
  have "in_run D (logged H) (conn_of c0) c0"
    unfolding in_run_def by (blast intro: server_run.start server_trace.start)
  with assms(3) have "in_run D (logged H) (conn_of c0) c"
    using server_turns.turns_keep server_turns.loop_keeps by blast
  then obtain bs where run: "server_run D (logged H) (conn_of c0) (conn_of c)"
    and tr: "server_trace D (logged H) (conn_of c0) bs (conn_of c)"
    by (auto simp: in_run_def)
  have "subseq (way_to (phase_of (cn_session c))) bs"
    using obedient_app.trace_phases [OF well_behaved_obedient [OF logged_well_behaved [OF assms(1)]] tr]
      start(2) phase_run_way by (simp add: conn_of_def)
  moreover have "server_app.good (\<lambda>(h, l). accepted_in l) (\<lambda>(h, l). justified l) (h0, []) (cn_session c0)"
    using unencrypted_inv [OF start(3)] by (simp add: server_app.good_def [OF app])
  then have "justified (snd (cn_handler c)) \<and> auth_inv (accepted_in (snd (cn_handler c))) (cn_session c)"
    using server_app.run_good [OF app run] start(1)
    by (simp add: conn_of_def server_app.good_def [OF app] split: prod.splits)
  moreover have "phase_of s \<in> {Accepted, Connection} \<Longrightarrow> auth_inv A s \<Longrightarrow> auth_user (ss_common s) \<in> A" for A s
    by (auto simp: phase_of_def auth_inv_def split: option.splits elim!: kex_phase.elims state_phase.elims)
  ultimately show ?thesis using tr by (auto simp: accepted_in_def)
qed

section \<open>The end of a connection\<close>

text \<open>
  C14. No connection ends well. The declared result of \<^verbatim>\<open>run_stream\<close> is the handler, and the server
  drains the stream until a read returns zero; but a read never does, it fails at the end of the
  stream. So every connection that ends, ends with an error, or a panic, and the handler is lost:
  with the error of the stream where the client has nothing more to say.
\<close>

theorem run_stream_never_returns_handler:
  "server_run_stream D H cfg W pieces ts h \<noteq> Some (Ok h') \<and>
   (\<forall>c0 c. server_accept D W cfg pieces h = Ok c0 \<longrightarrow>
      server_loop D H (sc_connection_timeout cfg) ts c0 = Some (Ok c) \<longrightarrow> cn_input c = [] \<longrightarrow>
      server_run_stream D H cfg W pieces ts h = Some (Err Io_Error))"
proof -
  have "drain C S pair [] rb = Err Io_Error" for C S pair rb
    by (subst drain.simps) (simp add: cipher_read_end)
  then show ?thesis
    unfolding server_run_stream_def
    by (auto simp: rbind_eq_Ok rmap_eq_Ok drain_never_Ok split: res.splits)
qed

text \<open>
  The first packet is found in the stream: what was read with the identification line is not more
  than the first read takes.
\<close>

lemma accepted_stream:
  assumes "10 \<notin> set L" and "take 8 L = ascii ''SSH-2.0-''" and "length L + 2 \<le> 256" and "p \<noteq> []"
    and s0: "server_session_new D W cfg L = Ok s0"
  obtains c0 wb where "server_accept D W cfg [L @ [13, 10], p] h = Ok c0"
    and "cn_input c0 = p" and "cn_rb c0 = sshbuffer_new" and "cn_handler c0 = h"
    and "cn_session c0 = ss_set_common ((ss_common s0)\<lparr> write_buffer := wb \<rparr>) s0"
proof -
  obtain b where b: "read_ssh_id read_ssh_id_buffer_new ((L @ [13, 10] @ []) # [p]) = (Ok L, b, [p])"
    "rb_bytes_read b = length L + 2" "rb_total b = length L + 2 + length ([] :: bytes)"
    by (rule line_in_first_chunk [of L "[]" "[p]"]) (use assms(1-3) in auto)
  obtain sent wb where e: "server_end_round D W s0 =
      Ok (sent, ss_set_common ((ss_common s0)\<lparr> write_buffer := wb \<rparr>) s0)"
    using end_round_unencrypted [OF session_new_unencrypted [OF s0], of D W] by blast
  show thesis
    by (rule that [of "\<lparr> cn_input = p, cn_rb = sshbuffer_new,
          cn_out = sb_buffer (send_ssh_id (sc_server_id cfg) sshbuffer_new) @ sent, cn_handler = h,
          cn_session = ss_set_common ((ss_common s0)\<lparr> write_buffer := wb \<rparr>) s0 \<rparr>"])
      (use b s0 e in \<open>simp_all add: server_accept_def packet_stream_def ssh_poll_read_def\<close>)
qed

text \<open>
  C7. A client that has not even begun to exchange keys keeps a server busy for ever: it sends its
  identification and a packet to be ignored, and closes. The server skips the packet without
  clearing the buffer it was read into; the next read fails at the end of the stream, but its
  result is not looked at, and the packet still in the buffer is skipped again. Before keys are
  exchanged no message of the application is taken, so only a timeout could end this loop, and the
  timeout begins anew in every turn.
\<close>

theorem skipped_packet_spins:
  assumes laws: "codec_laws (d_codec D)"
    and id_line: "10 \<notin> set L" "take 8 L = ascii ''SSH-2.0-''" "length L + 2 \<le> 256"
    and packet: "cipher_write (d_codec D) (d_sodium D) CLEAR_PAIR (b # p) sshbuffer_new = Ok wb"
      "b \<le> 4" "b \<noteq> MSG_DISCONNECT" "length p + 257 < 2 ^ 32"
    and s0: "server_session_new D W cfg L = Ok s0"
    and ts: "\<forall>t \<in> sset ts. snd t \<noteq> B_Timeout"
  shows "server_run_stream D H cfg W [L @ [13, 10], sb_buffer wb] ts h = None"
proof -
  let ?turn = "server_turn D H (sc_connection_timeout cfg)"
  have cp: "cs_cipher (ss_common s0) = CLEAR_PAIR" "ss_encrypted s0 = None" "\<not> disconnected (ss_common s0)"
    using s0 unfolding server_session_new_def Let_def by (auto simp: rbind_eq_Ok)
  have "delivers D CLEAR_PAIR CLEAR_PAIR"
    using clear_packet_cipher [OF laws] by (intro packet_cipher_delivers) (simp add: CLEAR_PAIR_def)
  from delivered_packet [where p = "b # p" and rest = "[]" and rb = sshbuffer_new, OF this _ refl packet(1)] packet(4)
  obtain stream n rb where w: "sb_buffer wb = sb_buffer sshbuffer_new @ stream"
    and rd: "cipher_read (d_codec D) (d_sodium D) CLEAR_PAIR (stream @ []) sshbuffer_new = (Ok n, [], rb)"
    and body: "drop 5 (sb_buffer rb) = b # p"
    by auto
  have w: "sb_buffer wb = stream" using w by (simp add: sshbuffer_new_def)
  have ne: "stream \<noteq> []" using rd by (auto simp: cipher_read_end)
  obtain c0 wb' where c0: "server_accept D W cfg [L @ [13, 10], stream] h = Ok c0"
    "cn_input c0 = stream" "cn_rb c0 = sshbuffer_new" "cn_handler c0 = h"
    "cn_session c0 = ss_set_common ((ss_common s0)\<lparr> write_buffer := wb' \<rparr>) s0"
    by (rule accepted_stream [OF id_line ne s0])
  let ?c1 = "c0\<lparr> cn_input := [], cn_rb := rb \<rparr>"
  have on: "server_on_packet D W' H h (sb_buffer rb) (cn_session c0) = Ok (Continue (h, cn_session c0))" for W'
    using body packet(2,3) cp(2) length_drop [of 5 "sb_buffer rb"]
    by (simp add: server_on_packet_def c0(5) ss_set_common_def)
  have br: "server_branch (sc_connection_timeout cfg) (cn_session c0) (snd t) = B_Read" if "t \<in> sset ts" for t
    using ts that cp(2)
    by (cases "snd t") (auto simp: server_is_rekeying_def c0(5) ss_set_common_def)
  have cc: "cs_cipher (ss_common (cn_session c0)) = CLEAR_PAIR" by (simp add: c0(5) ss_set_common_def cp(1))
  have first: "?turn t c0 = Ok (Next ?c1)" if "t \<in> sset ts" for t
    using br [OF that] rd on c0(2-4) cc
    by (cases t) (simp add: server_turn_def server_read_round_def)
  have again: "?turn t ?c1 = Ok (Next ?c1)" if "t \<in> sset ts" for t
    using br [OF that] on c0(2-4) cc
    by (cases t) (simp add: server_turn_def server_read_round_def cipher_read_end)
  have nd: "\<not> server_disconnected c0" "\<not> server_disconnected ?c1"
    by (simp_all add: server_disconnected_def c0(5) ss_set_common_def cp(3))
  have "server_loop D H (sc_connection_timeout cfg) (stl ts) ?c1 = None"
  proof (rule event_loop_stuck)
    show "?turn t ?c1 = Ok (Next ?c1)" if "t \<in> sset (stl ts)" for t
      using stl_sset [OF that] by (rule again)
  qed (fact nd(2))
  then have "server_loop D H (sc_connection_timeout cfg) ts c0 = None"
    by (subst event_loop.simps) (simp add: nd(1) first shd_sset)
  then show ?thesis by (simp add: server_run_stream_def w c0(1))
qed

section \<open>Concrete connections\<close>

definition demo_line :: bytes where
  "demo_line = ascii ''SSH-2.0-x''"

definition demo_frame :: "bytes \<Rightarrow> bytes" where
  "demo_frame p = (case cipher_write rfc_codec demo_sodium CLEAR_PAIR p sshbuffer_new of
     Ok wb \<Rightarrow> sb_buffer wb | _ \<Rightarrow> [])"

definition demo_turn :: "world \<times> (channel_id \<times> channel_msg) option branch" where
  "demo_turn = (demo_world 1, B_Read)"

text \<open>A client that asks for the service and begins to exchange keys.\<close>

definition demo_accepted :: "bytes list \<Rightarrow> (unit \<times> log_entry list) server_conn res" where
  "demo_accepted ps = server_accept demo_deps (demo_world 1) demo_exchange_config
     [demo_line @ [13, 10], concat (List.map demo_frame ps)] ((), [])"

definition demo_step :: "(unit \<times> log_entry list) server_conn \<Rightarrow> (unit \<times> log_entry list) server_conn after res" where
  "demo_step = server_turn demo_deps (logged demo_app) None demo_turn"

lemma demo_turns_outcome:
  "case demo_accepted [[MSG_SERVICE_REQUEST], demo_kexinit] of
     Ok c0 \<Rightarrow> \<not> server_disconnected c0 \<and> (case demo_step c0 of
       Ok (Next c1) \<Rightarrow> \<not> server_disconnected c1 \<and> (case demo_step c1 of
         Ok (Next c2) \<Rightarrow> phase_of (cn_session c2) = Exchange_DH
       | _ \<Rightarrow> False)
     | _ \<Rightarrow> False)
   | _ \<Rightarrow> False"
  by code_simp

theorem connection_is_safe_witness:
  "\<exists>c0 c bs. demo_accepted [[MSG_SERVICE_REQUEST], demo_kexinit] = Ok c0 \<and>
    turns (server_turn demo_deps (logged demo_app) None) server_disconnected 2 (sconst demo_turn) c0 = Some c \<and>
    phase_of (cn_session c) = Exchange_DH \<and>
    server_trace demo_deps (logged demo_app) (conn_of c0) bs (conn_of c) \<and> subseq [MSG_KEXINIT] bs"
proof -
  obtain c0 where c0: "demo_accepted [[MSG_SERVICE_REQUEST], demo_kexinit] = Ok c0"
    and r: "\<not> server_disconnected c0 \<and> (case demo_step c0 of
       Ok (Next c1) \<Rightarrow> \<not> server_disconnected c1 \<and> (case demo_step c1 of
         Ok (Next c2) \<Rightarrow> phase_of (cn_session c2) = Exchange_DH
       | _ \<Rightarrow> False)
     | _ \<Rightarrow> False)"
    by (rule ok_run [OF demo_turns_outcome])
  obtain c1 where c1: "demo_step c0 = Ok (Next c1)"
    and r1: "\<not> server_disconnected c1 \<and> (case demo_step c1 of
         Ok (Next c2) \<Rightarrow> phase_of (cn_session c2) = Exchange_DH
       | _ \<Rightarrow> False)"
    by (rule next_turn [OF conjunct2 [OF r]])
  obtain c2 where c2: "demo_step c1 = Ok (Next c2)" and p: "phase_of (cn_session c2) = Exchange_DH"
    by (rule next_turn [OF conjunct2 [OF r1]])
  have t: "turns (server_turn demo_deps (logged demo_app) None) server_disconnected 2 (sconst demo_turn) c0 = Some c2"
    using conjunct1 [OF r] conjunct1 [OF r1] c1 c2 by (simp add: numeral_2_eq_2 demo_step_def)
  from connection_is_safe [OF demo_app_well_behaved c0 [unfolded demo_accepted_def] disjI1 [OF t]] p c0 t
  show ?thesis by auto
qed

text \<open>A client that closes after its identification.\<close>

lemma demo_silent_outcome:
  "case server_accept demo_deps (demo_world 1) demo_exchange_config [demo_line @ [13, 10]] () of
     Ok c0 \<Rightarrow> \<not> server_disconnected c0 \<and> (case server_turn demo_deps demo_app None demo_turn c0 of
       Ok (Leave c) \<Rightarrow> cn_input c = []
     | _ \<Rightarrow> False)
   | _ \<Rightarrow> False"
  by code_simp

theorem run_stream_never_returns_handler_witness:
  "server_run_stream demo_deps demo_app demo_exchange_config (demo_world 1) [demo_line @ [13, 10]]
     (sconst demo_turn) () = Some (Err Io_Error)"
proof -
  obtain c0 where c0: "server_accept demo_deps (demo_world 1) demo_exchange_config [demo_line @ [13, 10]] () = Ok c0"
    and r: "\<not> server_disconnected c0 \<and> (case server_turn demo_deps demo_app None demo_turn c0 of
       Ok (Leave c) \<Rightarrow> cn_input c = []
     | _ \<Rightarrow> False)"
    by (rule ok_run [OF demo_silent_outcome])
  obtain c where c: "server_turn demo_deps demo_app None demo_turn c0 = Ok (Leave c)" and i: "cn_input c = []"
    by (rule leave_turn [OF conjunct2 [OF r]])
  have "sc_connection_timeout demo_exchange_config = None"
    by (simp add: demo_exchange_config_def demo_config_def)
  then have "server_loop demo_deps demo_app (sc_connection_timeout demo_exchange_config) (sconst demo_turn) c0 = Some (Ok c)"
    using conjunct1 [OF r] c by (subst event_loop.simps) simp
  from conjunct2 [OF run_stream_never_returns_handler, rule_format, OF c0 this i] show ?thesis .
qed

lemma demo_ignored_outcome:
  "(case cipher_write rfc_codec demo_sodium CLEAR_PAIR [MSG_IGNORE, 0, 0, 0, 0] sshbuffer_new of Ok wb \<Rightarrow> True | _ \<Rightarrow> False) \<and>
   (case server_session_new demo_deps (demo_world 1) demo_exchange_config demo_line of Ok s0 \<Rightarrow> True | _ \<Rightarrow> False)"
  by code_simp

theorem skipped_packet_spins_witness:
  "\<exists>wb. cipher_write rfc_codec demo_sodium CLEAR_PAIR [MSG_IGNORE, 0, 0, 0, 0] sshbuffer_new = Ok wb \<and>
    server_run_stream demo_deps demo_app demo_exchange_config (demo_world 1)
      [demo_line @ [13, 10], sb_buffer wb] (sconst demo_turn) () = None"
proof -
  obtain wb where wb: "cipher_write rfc_codec demo_sodium CLEAR_PAIR [MSG_IGNORE, 0, 0, 0, 0] sshbuffer_new = Ok wb"
    by (rule ok_run [OF conjunct1 [OF demo_ignored_outcome]])
  obtain s0 where s0: "server_session_new demo_deps (demo_world 1) demo_exchange_config demo_line = Ok s0"
    by (rule ok_run [OF conjunct2 [OF demo_ignored_outcome]])
  have d: "d_codec demo_deps = rfc_codec" "d_sodium demo_deps = demo_sodium" by (simp_all add: demo_deps_def)
  have "server_run_stream demo_deps demo_app demo_exchange_config (demo_world 1)
      [demo_line @ [13, 10], sb_buffer wb] (sconst demo_turn) () = None"
    by (rule skipped_packet_spins [OF demo_deps_laws(1) _ _ _ _ _ _ _ s0, where b = MSG_IGNORE and p = "[0, 0, 0, 0]"])
      (use wb in \<open>simp_all add: d demo_line_def demo_turn_def\<close>)
  with wb show ?thesis by blast
qed

end
