(* ===== verification/Client_Session.thy ===== *)
theory Client_Session
  imports Client_Kex Pty
begin

text \<open>
  The client session of \<^verbatim>\<open>src/src/client/mod.rs\<close> with its messages and its application interface
  (the trait \<^verbatim>\<open>Handler\<close>), and the operations of \<^verbatim>\<open>src/src/client/session.rs\<close>.
\<close>

section \<open>Messages\<close>

text \<open>From the session to the \<^verbatim>\<open>Handle\<close> the application holds.\<close>

datatype client_reply =
    Reply_AuthSuccess
  | Reply_AuthFailure
  | Reply_ChannelOpenFailure
  | Reply_SignRequest public_key bytes

text \<open>From the session to the owner of a channel.\<close>

datatype open_channel_msg =
    OCM_Open channel_id u32 u32
  | OCM_Msg channel_msg

text \<open>
  From the handle and the channels to the session. The sending half of a queue that goes with an
  open request is a number, the name of the queue.
\<close>

type_synonym queue = nat

datatype client_msg =
    Msg_Authenticate bytes auth_method
  | Msg_Signed bytes
  | Msg_ChannelOpenSession queue
  | Msg_ChannelOpenX11 bytes u32 queue
  | Msg_ChannelOpenDirectTcpIp bytes u32 bytes u32 queue
  | Msg_TcpIpForward bool bytes u32
  | Msg_CancelTcpIpForward bool bytes u32
  | Msg_Disconnect disconnect_reason bytes bytes
  | Msg_Data channel_id bytes
  | Msg_ExtendedData channel_id bytes u32
  | Msg_Eof channel_id
  | Msg_RequestPty channel_id bool bytes u32 u32 u32 u32 "(pty \<times> u32) list"
  | Msg_RequestShell channel_id bool
  | Msg_Exec channel_id bool bytes
  | Msg_Signal channel_id sig
  | Msg_RequestSubsystem channel_id bool bytes
  | Msg_RequestX11 channel_id bool bool bytes bytes u32
  | Msg_SetEnv channel_id bool bytes bytes
  | Msg_WindowChange channel_id u32 u32 u32 u32

section \<open>The session\<close>

text \<open>
  \<open>cl_receiver\<close> are the messages the application is going to send, until all of its senders are
  dropped; \<open>cl_replies\<close> and \<open>cl_sent\<close> are what the session has sent to the handle and over the
  queues of the channels, in order. Sending to a handle that was dropped fails.
\<close>

record client_session =
  cl_common :: "client_config common_session"
  cl_receiver :: "client_msg list"
  cl_handle_alive :: bool
  cl_replies :: "client_reply list"
  cl_channels :: "channel_id \<rightharpoonup> queue"
  cl_sent :: "(queue \<times> open_channel_msg) list"
  cl_target_window_size :: u32

abbreviation cl_encrypted :: "client_session \<Rightarrow> encrypted option" where
  "cl_encrypted s \<equiv> cs_encrypted (cl_common s)"

abbreviation cl_config :: "client_session \<Rightarrow> client_config" where
  "cl_config s \<equiv> config (cl_common s)"

definition cl_set_common :: "client_config common_session \<Rightarrow> client_session \<Rightarrow> client_session" where
  "cl_set_common c s = s\<lparr> cl_common := c \<rparr>"

definition cl_set_encrypted :: "encrypted \<Rightarrow> client_session \<Rightarrow> client_session" where
  "cl_set_encrypted enc s = s\<lparr> cl_common := (cl_common s)\<lparr> cs_encrypted := Some enc \<rparr> \<rparr>"

text \<open>\<^verbatim>\<open>if let Some(ref mut enc) = self.common.encrypted { .. }\<close>\<close>

definition cl_with_enc :: "(encrypted \<Rightarrow> encrypted) \<Rightarrow> client_session \<Rightarrow> client_session" where
  "cl_with_enc f s = (case cl_encrypted s of None \<Rightarrow> s | Some enc \<Rightarrow> cl_set_encrypted (f enc) s)"

text \<open>\<^verbatim>\<open>self.sender.send(..).map_err(|_| Error::SendError)?\<close>\<close>

definition cl_reply :: "client_reply \<Rightarrow> client_session \<Rightarrow> client_session res" where
  "cl_reply m s =
     (if cl_handle_alive s then Ok (s\<lparr> cl_replies := cl_replies s @ [m] \<rparr>)
      else Err (Thrussh E_SendError))"

text \<open>\<^verbatim>\<open>if let Some(chan) = session.channels.get(&channel) { chan.send(..).unwrap_or(()) }\<close>\<close>

definition cl_send :: "channel_id \<Rightarrow> open_channel_msg \<Rightarrow> client_session \<Rightarrow> client_session" where
  "cl_send ch m s =
     (case cl_channels s ch of
        None \<Rightarrow> s
      | Some q \<Rightarrow> s\<lparr> cl_sent := cl_sent s @ [(q, m)] \<rparr>)"

definition client_is_rekeying :: "client_session \<Rightarrow> bool" where
  "client_is_rekeying s =
     (case cl_encrypted s of Some enc \<Rightarrow> e_rekey enc \<noteq> None | None \<Rightarrow> True)"

section \<open>Opening channels\<close>

text \<open>The three kinds of channels differ in their name and in what follows the parameters.\<close>

definition client_channel_open ::
  "codec \<Rightarrow> bytes \<Rightarrow> bytes \<Rightarrow> client_session \<Rightarrow> (channel_id \<times> client_session) res" where
  "client_channel_open C kind args s =
     (case cl_encrypted s of
        None \<Rightarrow> Err (Thrussh E_Inconsistent)
      | Some enc \<Rightarrow>
          if e_state enc = Authenticated then
            let cfg = cl_config s in
            rmap (\<lambda>(ch, enc1).
                    (ch, cl_set_encrypted (enc_push C ([MSG_CHANNEL_OPEN] @ ssh_string C kind @
                       u32_be C ch @ u32_be C (cc_window_size cfg) @
                       u32_be C (cc_maximum_packet_size cfg) @ args) enc1) s))
              (new_channel (cc_window_size cfg) (cc_maximum_packet_size cfg) enc)
          else Err (Thrussh E_NotAuthenticated))"

definition client_channel_open_session ::
  "codec \<Rightarrow> client_session \<Rightarrow> (channel_id \<times> client_session) res" where
  "client_channel_open_session C s = client_channel_open C (ascii ''session'') [] s"

definition client_channel_open_x11 ::
  "codec \<Rightarrow> bytes \<Rightarrow> u32 \<Rightarrow> client_session \<Rightarrow> (channel_id \<times> client_session) res" where
  "client_channel_open_x11 C originator_address originator_port s =
     client_channel_open C (ascii ''x11'')
       (ssh_string C originator_address @ u32_be C originator_port) s"

definition client_channel_open_direct_tcpip ::
  "codec \<Rightarrow> bytes \<Rightarrow> u32 \<Rightarrow> bytes \<Rightarrow> u32 \<Rightarrow> client_session \<Rightarrow> (channel_id \<times> client_session) res" where
  "client_channel_open_direct_tcpip C host_to_connect port_to_connect originator_address
      originator_port s =
     client_channel_open C (ascii ''direct-tcpip'')
       (ssh_string C host_to_connect @ u32_be C port_to_connect @
        ssh_string C originator_address @ u32_be C originator_port) s"

section \<open>Requests on a channel\<close>

text \<open>Nothing is sent for a channel that does not exist; one that is not confirmed has number 0.\<close>

definition enc_client_request ::
  "codec \<Rightarrow> channel_id \<Rightarrow> bytes \<Rightarrow> bool \<Rightarrow> bytes \<Rightarrow> encrypted \<Rightarrow> encrypted" where
  "enc_client_request C ch name want_reply args enc =
     (case channels enc ch of
        None \<Rightarrow> enc
      | Some c \<Rightarrow> enc_push C ([MSG_CHANNEL_REQUEST] @ u32_be C (recipient_channel c) @
                   ssh_string C name @ [if want_reply then 1 else 0] @ args) enc)"

text \<open>The encoded terminal modes, closed by the mode 0.\<close>

definition client_modes :: "codec \<Rightarrow> (pty \<times> u32) list \<Rightarrow> bytes" where
  "client_modes C modes = concat (map (\<lambda>(code, v). pty_code code # u32_be C v) modes) @ [0]"

definition client_request_pty ::
  "codec \<Rightarrow> channel_id \<Rightarrow> bool \<Rightarrow> bytes \<Rightarrow> u32 \<Rightarrow> u32 \<Rightarrow> u32 \<Rightarrow> u32 \<Rightarrow> (pty \<times> u32) list \<Rightarrow>
   client_session \<Rightarrow> client_session" where
  "client_request_pty C ch want_reply term_name col_width row_height pix_width pix_height modes s =
     cl_with_enc (enc_client_request C ch (ascii ''pty-req'') want_reply
       (ssh_string C term_name @ u32_be C col_width @ u32_be C row_height @ u32_be C pix_width @
        u32_be C pix_height @ u32_be C (as_u32 (1 + 5 * length modes)) @ client_modes C modes)) s"

definition client_request_x11 ::
  "codec \<Rightarrow> channel_id \<Rightarrow> bool \<Rightarrow> bool \<Rightarrow> bytes \<Rightarrow> bytes \<Rightarrow> u32 \<Rightarrow> client_session \<Rightarrow> client_session" where
  "client_request_x11 C ch want_reply single_connection x11_authentication_protocol
      x11_authentication_cookie x11_screen_number s =
     cl_with_enc (enc_client_request C ch (ascii ''x11-req'') want_reply
       ([if single_connection then 1 else 0] @ ssh_string C x11_authentication_protocol @
        ssh_string C x11_authentication_cookie @ u32_be C x11_screen_number)) s"

definition client_set_env ::
  "codec \<Rightarrow> channel_id \<Rightarrow> bool \<Rightarrow> bytes \<Rightarrow> bytes \<Rightarrow> client_session \<Rightarrow> client_session" where
  "client_set_env C ch want_reply variable_name variable_value s =
     cl_with_enc (enc_client_request C ch (ascii ''env'') want_reply
       (ssh_string C variable_name @ ssh_string C variable_value)) s"

definition client_request_shell ::
  "codec \<Rightarrow> bool \<Rightarrow> channel_id \<Rightarrow> client_session \<Rightarrow> client_session" where
  "client_request_shell C want_reply ch s =
     cl_with_enc (enc_client_request C ch (ascii ''shell'') want_reply []) s"

definition client_exec ::
  "codec \<Rightarrow> channel_id \<Rightarrow> bool \<Rightarrow> bytes \<Rightarrow> client_session \<Rightarrow> client_session" where
  "client_exec C ch want_reply command s =
     cl_with_enc (enc_client_request C ch (ascii ''exec'') want_reply (ssh_string C command)) s"

definition client_signal :: "codec \<Rightarrow> channel_id \<Rightarrow> sig \<Rightarrow> client_session \<Rightarrow> client_session" where
  "client_signal C ch sg s =
     cl_with_enc (enc_client_request C ch (ascii ''signal'') False (ssh_string C (sig_name sg))) s"

definition client_request_subsystem ::
  "codec \<Rightarrow> bool \<Rightarrow> channel_id \<Rightarrow> bytes \<Rightarrow> client_session \<Rightarrow> client_session" where
  "client_request_subsystem C want_reply ch name s =
     cl_with_enc (enc_client_request C ch (ascii ''subsystem'') want_reply (ssh_string C name)) s"

definition client_window_change ::
  "codec \<Rightarrow> channel_id \<Rightarrow> u32 \<Rightarrow> u32 \<Rightarrow> u32 \<Rightarrow> u32 \<Rightarrow> client_session \<Rightarrow> client_session" where
  "client_window_change C ch col_width row_height pix_width pix_height s =
     cl_with_enc (enc_client_request C ch (ascii ''window-change'') False
       (u32_be C col_width @ u32_be C row_height @ u32_be C pix_width @ u32_be C pix_height)) s"

section \<open>Global requests\<close>

definition enc_client_global_request ::
  "codec \<Rightarrow> bytes \<Rightarrow> bool \<Rightarrow> bytes \<Rightarrow> u32 \<Rightarrow> encrypted \<Rightarrow> encrypted" where
  "enc_client_global_request C name want_reply address port enc =
     enc_push C ([MSG_GLOBAL_REQUEST] @ ssh_string C name @ [if want_reply then 1 else 0] @
       ssh_string C address @ u32_be C port) enc"

definition client_tcpip_forward ::
  "codec \<Rightarrow> bool \<Rightarrow> bytes \<Rightarrow> u32 \<Rightarrow> client_session \<Rightarrow> client_session" where
  "client_tcpip_forward C want_reply address port s =
     cl_with_enc (enc_client_global_request C (ascii ''tcpip-forward'') want_reply address port) s"

definition client_cancel_tcpip_forward ::
  "codec \<Rightarrow> bool \<Rightarrow> bytes \<Rightarrow> u32 \<Rightarrow> client_session \<Rightarrow> client_session" where
  "client_cancel_tcpip_forward C want_reply address port s =
     cl_with_enc (enc_client_global_request C (ascii ''cancel-tcpip-forward'') want_reply
       address port) s"

section \<open>Data\<close>

definition cl_enc_or_panic ::
  "(encrypted \<Rightarrow> encrypted res) \<Rightarrow> client_session \<Rightarrow> client_session res" where
  "cl_enc_or_panic f s =
     (case cl_encrypted s of
        None \<Rightarrow> Panic
      | Some enc \<Rightarrow> rmap (\<lambda>enc'. cl_set_encrypted enc' s) (f enc))"

definition client_data ::
  "codec \<Rightarrow> channel_id \<Rightarrow> bytes \<Rightarrow> client_session \<Rightarrow> client_session res" where
  "client_data C ch data s = cl_enc_or_panic (enc_data C ch data) s"

definition client_eof :: "codec \<Rightarrow> channel_id \<Rightarrow> client_session \<Rightarrow> client_session res" where
  "client_eof C ch s = cl_enc_or_panic (\<lambda>enc. Ok (enc_eof C ch enc)) s"

definition client_extended_data ::
  "codec \<Rightarrow> channel_id \<Rightarrow> u32 \<Rightarrow> bytes \<Rightarrow> client_session \<Rightarrow> client_session res" where
  "client_extended_data C ch ext data s = cl_enc_or_panic (enc_extended_data C ch ext data) s"

definition client_disconnect ::
  "codec \<Rightarrow> disconnect_reason \<Rightarrow> bytes \<Rightarrow> bytes \<Rightarrow> client_session \<Rightarrow> client_session" where
  "client_disconnect C reason description language_tag s =
     cl_set_common (cs_disconnect C reason description language_tag (cl_common s)) s"

definition client_has_pending_data :: "client_session \<Rightarrow> channel_id \<Rightarrow> bool" where
  "client_has_pending_data s ch =
     (case cl_encrypted s of Some enc \<Rightarrow> has_pending_data ch enc | None \<Rightarrow> False)"

definition client_sender_window_size :: "client_session \<Rightarrow> channel_id \<Rightarrow> nat" where
  "client_sender_window_size s ch =
     (case cl_encrypted s of Some enc \<Rightarrow> enc_sender_window_size ch enc | None \<Rightarrow> 0)"

section \<open>Flushing\<close>

text \<open>\<^verbatim>\<open>Session::flush\<close>: encrypt the queue, and start a key exchange when a limit is reached.\<close>

definition client_flush :: "deps \<Rightarrow> world \<Rightarrow> client_session \<Rightarrow> client_session res" where
  "client_flush D W s =
     (let c = cl_common s; cfg = config c in
      case cs_encrypted c of
        None \<Rightarrow> Ok s
      | Some enc \<Rightarrow>
          rbind (enc_flush D (w_now W) (cc_limits cfg) (cs_cipher c) (write_buffer c) enc)
            (\<lambda>(enc1, wb1, again).
            if again \<and> e_rekey enc1 = None then
              (case e_exchange enc1 of
                 Some ex \<Rightarrow>
                   rbind (client_write D W cfg (cs_cipher c) (initiate_rekey ex (e_session_id enc1)) wb1)
                     (\<lambda>(ki, wb2).
                     Ok (cl_set_common (c\<lparr> cs_encrypted := Some (enc1\<lparr> e_exchange := None,
                            e_rekey := Some (Kex_KexInit ki) \<rparr>), write_buffer := wb2 \<rparr>) s))
               | None \<Rightarrow>
                   Ok (cl_set_common (c\<lparr> cs_encrypted := Some enc1, write_buffer := wb1 \<rparr>) s))
            else Ok (cl_set_common (c\<lparr> cs_encrypted := Some enc1, write_buffer := wb1 \<rparr>) s)))"

section \<open>The handler\<close>

text \<open>The calls of the handler that only report something about a session: one constructor each.\<close>

datatype client_event =
    CE_session_connected
  | CE_auth_banner bytes
  | CE_channel_open_confirmation channel_id u32 u32
  | CE_channel_success channel_id
  | CE_channel_close channel_id
  | CE_channel_eof channel_id
  | CE_channel_open_failure channel_id channel_open_failure bytes bytes
  | CE_channel_open_forwarded_tcpip channel_id bytes u32 bytes u32
  | CE_channel_open_forwarded_tcpip_client channel_id bytes u32 bytes u32 u32 u32
  | CE_data channel_id bytes
  | CE_extended_data channel_id u32 bytes
  | CE_xon_xoff channel_id bool
  | CE_exit_status channel_id u32
  | CE_exit_signal channel_id sig bool bytes bytes
  | CE_window_adjusted channel_id u32

text \<open>A handler, with its state \<open>'h\<close>. Every method takes the handler and gives it back.\<close>

record 'h client_handler =
  ch_check_server_key :: "'h \<Rightarrow> public_key \<Rightarrow> ('h \<times> bool) res"
  ch_adjust_window :: "'h \<Rightarrow> channel_id \<Rightarrow> u32 \<Rightarrow> 'h \<times> u32"
  ch_event :: "'h \<Rightarrow> client_event \<Rightarrow> client_session \<Rightarrow> ('h \<times> client_session) res"

type_synonym 'h creply = "('h \<times> client_session) res"

text \<open>
  The default methods reject every key and forward what happens to the owner of the channel.
  \<^verbatim>\<open>window_adjusted\<close> sends what was held back and reports what is left, with an overflow check.
\<close>

fun client_default_event ::
  "codec \<Rightarrow> 'h \<Rightarrow> client_event \<Rightarrow> client_session \<Rightarrow> ('h \<times> client_session) res" where
  "client_default_event C h (CE_channel_open_confirmation ch max_packet_size window_size) s =
     Ok (h, cl_send ch (OCM_Open ch max_packet_size window_size) s)"
| "client_default_event C h (CE_channel_success ch) s = Ok (h, cl_send ch (OCM_Msg CM_Success) s)"
| "client_default_event C h (CE_channel_close ch) s =
     Ok (h, s\<lparr> cl_channels := (cl_channels s)(ch := None) \<rparr>)"
| "client_default_event C h (CE_channel_eof ch) s = Ok (h, cl_send ch (OCM_Msg CM_Eof) s)"
| "client_default_event C h (CE_channel_open_failure ch reason description language) s =
     (let s1 = s\<lparr> cl_channels := (cl_channels s)(ch := None) \<rparr> in
      Ok (h, case cl_reply Reply_ChannelOpenFailure s1 of Ok s2 \<Rightarrow> s2 | _ \<Rightarrow> s1))"
| "client_default_event C h (CE_data ch data) s = Ok (h, cl_send ch (OCM_Msg (CM_Data data)) s)"
| "client_default_event C h (CE_extended_data ch ext data) s =
     Ok (h, cl_send ch (OCM_Msg (CM_ExtendedData data ext)) s)"
| "client_default_event C h (CE_xon_xoff ch client_can_do) s =
     Ok (h, cl_send ch (OCM_Msg (CM_XonXoff client_can_do)) s)"
| "client_default_event C h (CE_exit_status ch exit_status) s =
     Ok (h, cl_send ch (OCM_Msg (CM_ExitStatus exit_status)) s)"
| "client_default_event C h (CE_exit_signal ch signal_name core_dumped error_message lang_tag) s =
     Ok (h, cl_send ch (OCM_Msg (CM_ExitSignal signal_name core_dumped error_message lang_tag)) s)"
| "client_default_event C h (CE_window_adjusted ch new_size) s =
     rbind (case cl_encrypted s of
              None \<Rightarrow> Ok (s, new_size)
            | Some enc \<Rightarrow>
                rbind (flush_pending C ch enc) (\<lambda>(enc', n).
                if new_size < as_u32 n then Panic
                else Ok (cl_set_encrypted enc' s, new_size - as_u32 n))) (\<lambda>(s1, w).
     Ok (h, cl_send ch (OCM_Msg (CM_WindowAdjusted w)) s1))"
| "client_default_event C h e s = Ok (h, s)"

definition client_default_handler :: "codec \<Rightarrow> 'h client_handler" where
  "client_default_handler C = \<lparr>
     ch_check_server_key = (\<lambda>h key. Ok (h, False)),
     ch_adjust_window = (\<lambda>h ch window. (h, window)),
     ch_event = client_default_event C \<rparr>"

end
