(* ===== verification/Client_Auth.thy ===== *)
theory Client_Auth
  imports Client_Session
begin

text \<open>
  The client's side of the authentication dialogue (\<^verbatim>\<open>src/src/client/encrypted.rs\<close>): the
  requests it writes, the bytes it signs, and its answers to the messages of the server.
\<close>

section \<open>Requests\<close>

text \<open>\<^verbatim>\<open>write_auth_request\<close>: a password, or the question whether a key would do.\<close>

definition auth_probe :: "codec \<Rightarrow> keys_lib \<Rightarrow> bytes \<Rightarrow> bytes \<Rightarrow> bytes" where
  "auth_probe C K user name =
     [MSG_USERAUTH_REQUEST] @ ssh_string C user @ ssh_string C (ascii ''ssh-connection'') @
     ssh_string C (ascii ''publickey'') @ [0] @ ssh_string C name"

fun auth_request_body :: "codec \<Rightarrow> keys_lib \<Rightarrow> bytes \<Rightarrow> auth_method \<Rightarrow> bytes res" where
  "auth_request_body C K user (Method_Password password) =
     Ok ([MSG_USERAUTH_REQUEST] @ ssh_string C user @ ssh_string C (ascii ''ssh-connection'') @
         ssh_string C (ascii ''password'') @ [1] @ ssh_string C password)"
| "auth_request_body C K user (Method_PublicKey key) =
     push_key_pair C K key (auth_probe C K user (key_pair_name K key))"
| "auth_request_body C K user (Method_FuturePublicKey key) =
     push_public_key C K key (auth_probe C K user (public_key_name K key))"

definition write_auth_request ::
  "codec \<Rightarrow> keys_lib \<Rightarrow> bytes \<Rightarrow> auth_method \<Rightarrow> encrypted \<Rightarrow> encrypted res" where
  "write_auth_request C K user m enc =
     rmap (\<lambda>body. enc_push C body enc) (auth_request_body C K user m)"

text \<open>
  \<^verbatim>\<open>client_make_to_sign\<close>: the session identifier and the request that is signed, with the place
  where the request begins. \<open>push\<close> appends the key.
\<close>

definition client_make_to_sign ::
  "codec \<Rightarrow> bytes \<Rightarrow> bytes \<Rightarrow> bytes \<Rightarrow> (bytes \<Rightarrow> bytes res) \<Rightarrow> (nat \<times> bytes) res" where
  "client_make_to_sign C session_id user name push =
     (let b0 = ssh_string C session_id in
      rmap (\<lambda>b. (length b0, b))
        (push (b0 @ [MSG_USERAUTH_REQUEST] @ ssh_string C user @
           ssh_string C (ascii ''ssh-connection'') @ ssh_string C (ascii ''publickey'') @ [1] @
           ssh_string C name)))"

text \<open>\<^verbatim>\<open>client_send_signature\<close>\<close>

fun client_send_signature ::
  "codec \<Rightarrow> keys_lib \<Rightarrow> bytes \<Rightarrow> auth_method \<Rightarrow> encrypted \<Rightarrow> encrypted res" where
  "client_send_signature C K user (Method_PublicKey key) enc =
     rbind (client_make_to_sign C (e_session_id enc) user (key_pair_name K key)
              (push_key_pair C K key)) (\<lambda>(i0, buffer).
     rbind (add_self_signature K key buffer) (\<lambda>buffer'.
     rbind (slice_from buffer' i0) (\<lambda>body.
     Ok (enc_push C body enc))))"
| "client_send_signature C K user m enc = Ok enc"

text \<open>\<^verbatim>\<open>write_auth_request_if_needed\<close>: also whether the server is waiting for a request.\<close>

definition service_request :: bytes where
  "service_request = [5, 0, 0, 0, 0x0C] @ ascii ''ssh-userauth''"

definition write_auth_request_if_needed ::
  "deps \<Rightarrow> bytes \<Rightarrow> auth_method \<Rightarrow> client_session \<Rightarrow> (bool \<times> client_session) res" where
  "write_auth_request_if_needed D user m s =
     (let C = d_codec D; c = cl_common s in
      rmap (\<lambda>(is_waiting, c'). (is_waiting, cl_set_common
              (c'\<lparr> auth_user := user, cs_auth_method := Some m \<rparr>) s))
        (case cs_encrypted c of
           None \<Rightarrow> Ok (False, c)
         | Some enc \<Rightarrow>
             rbind (case e_state enc of
                      WaitingAuthRequest ar \<Rightarrow> Ok (True, enc, write_buffer c)
                    | WaitingServiceRequest sent accepted \<Rightarrow>
                        if \<not> sent
                        then rmap (\<lambda>wb. (accepted,
                                     enc\<lparr> e_state := WaitingServiceRequest True accepted \<rparr>, wb))
                               (cipher_write C (d_sodium D) (cs_cipher c) service_request (write_buffer c))
                        else Ok (accepted, enc, write_buffer c)
                    | InitCompression \<Rightarrow> Ok (False, enc, write_buffer c)
                    | Authenticated \<Rightarrow> Ok (False, enc, write_buffer c)) (\<lambda>(is_waiting, enc1, wb).
             rmap (\<lambda>enc2. (is_waiting, c\<lparr> cs_encrypted := Some enc2, write_buffer := wb \<rparr>))
               (if is_waiting then write_auth_request C (d_keys D) user m enc1 else Ok enc1))))"

section \<open>Messages of the server\<close>

text \<open>The methods a failure message lists; names that are not known are ignored.\<close>

definition methods_of :: "bytes list \<Rightarrow> method_set" where
  "methods_of names =
     foldl (\<lambda>y m. case ms_from_bytes m of Some f \<Rightarrow> ms_insert y f | None \<Rightarrow> y) 0 names"

text \<open>
  Waiting for the signature of the application: every other message that arrives meanwhile is
  dropped, and when no sender is left the loop never ends.
\<close>

fun await_signed :: "client_msg list \<Rightarrow> (bytes \<times> client_msg list) res" where
  "await_signed [] = Diverge"
| "await_signed (m # ms) = (case m of Msg_Signed data \<Rightarrow> Ok (data, ms) | _ \<Rightarrow> await_signed ms)"

text \<open>The answer to \<^verbatim>\<open>USERAUTH_PK_OK\<close>.\<close>

definition mark_pk_ok :: "auth_request \<Rightarrow> auth_request" where
  "mark_pk_ok ar =
     (case ar_current ar of
        Some (CR_PublicKey k a _) \<Rightarrow> ar\<lparr> ar_current := Some (CR_PublicKey k a True) \<rparr>
      | _ \<Rightarrow> ar)"

definition client_read_pk_ok ::
  "deps \<Rightarrow> auth_request \<Rightarrow> encrypted \<Rightarrow> client_session \<Rightarrow> client_session res" where
  "client_read_pk_ok D ar enc s =
     (let C = d_codec D; K = d_keys D; c = (cl_common s)\<lparr> cs_auth_method := None \<rparr>;
          enc1 = enc\<lparr> e_state := WaitingAuthRequest (mark_pk_ok ar) \<rparr>
      in case cs_auth_method (cl_common s) of
           Some (Method_PublicKey key) \<Rightarrow>
             rmap (\<lambda>enc2. cl_set_encrypted enc2 (cl_set_common c s))
               (client_send_signature C K (auth_user c) (Method_PublicKey key) enc1)
         | Some (Method_FuturePublicKey key) \<Rightarrow>
             rbind (client_make_to_sign C (e_session_id enc1) (auth_user c) (public_key_name K key)
                      (push_public_key C K key)) (\<lambda>(i, buffer).
             rbind (cl_reply (Reply_SignRequest key buffer) (cl_set_common c s)) (\<lambda>s1.
             rbind (await_signed (cl_receiver s1)) (\<lambda>(data, later).
             rbind (if length data \<noteq> length buffer
                    then rmap (\<lambda>body. enc_push C body enc1) (slice_from data i)
                    else Ok enc1) (\<lambda>enc2.
             Ok (cl_set_encrypted enc2 (s1\<lparr> cl_receiver := later \<rparr>))))))
         | _ \<Rightarrow> Ok (cl_set_encrypted enc1 (cl_set_common c s)))"

text \<open>\<^verbatim>\<open>WaitingServiceRequest\<close>\<close>

definition client_read_service ::
  "deps \<Rightarrow> bytes \<Rightarrow> bool \<Rightarrow> bool \<Rightarrow> encrypted \<Rightarrow> client_session \<Rightarrow> client_session res" where
  "client_read_service D buf sent accepted enc s =
     (let C = d_codec D; c = cl_common s in
      rbind (index buf 0) (\<lambda>b0.
      if b0 = MSG_SERVICE_ACCEPT then
        rbind (read_string C buf 1) (\<lambda>(service, _).
        if service = ascii ''ssh-userauth'' then
          let enc1 = enc\<lparr> e_state := WaitingServiceRequest sent True \<rparr> in
          case cs_auth_method c of
            Some m \<Rightarrow>
              rmap (\<lambda>enc2. cl_set_encrypted (enc2\<lparr> e_state := WaitingAuthRequest
                        \<lparr> ar_methods = ms_all, ar_partial_success = False, ar_current = None,
                          ar_rejection_count = 0 \<rparr> \<rparr>) s)
                (write_auth_request C (d_keys D) (auth_user c) m enc1)
          | None \<Rightarrow> Ok (cl_set_encrypted enc1 s)
        else Ok s)
      else Err (Thrussh E_Inconsistent)))"

text \<open>\<^verbatim>\<open>WaitingAuthRequest\<close>\<close>

definition client_read_auth ::
  "deps \<Rightarrow> 'h client_handler \<Rightarrow> 'h \<Rightarrow> bytes \<Rightarrow> auth_request \<Rightarrow> encrypted \<Rightarrow> client_session \<Rightarrow>
   'h creply" where
  "client_read_auth D H h buf ar enc s =
     (let C = d_codec D in
      rbind (index buf 0) (\<lambda>b0.
      if b0 = MSG_USERAUTH_SUCCESS then
        rmap (\<lambda>s1. (h, cl_set_encrypted (enc\<lparr> e_state := InitCompression,
                e_decompress := init_decompress (d_flate D) (server_compression enc)
                  (e_decompress enc) \<rparr>) s1))
          (cl_reply Reply_AuthSuccess s)
      else if b0 = MSG_USERAUTH_BANNER then
        rbind (read_string C buf 1) (\<lambda>(banner, _).
        if utf8_valid banner then ch_event H h (CE_auth_banner banner) s else Ok (h, s))
      else if b0 = MSG_USERAUTH_FAILURE then
        rbind (read_string C buf 1) (\<lambda>(remaining_methods, _).
        let methods = methods_of (split_commas remaining_methods);
            s1 = cl_set_encrypted (enc\<lparr> e_state := WaitingAuthRequest (ar\<lparr> ar_methods := methods \<rparr>) \<rparr>)
                   (cl_set_common ((cl_common s)\<lparr> cs_auth_method := None \<rparr>) s)
        in rbind (cl_reply Reply_AuthFailure s1) (\<lambda>s2.
           if methods = 0 then Err (Thrussh E_NoAuthMethod) else Ok (h, s2)))
      else if b0 = MSG_USERAUTH_PK_OK then rmap (\<lambda>s'. (h, s')) (client_read_pk_ok D ar enc s)
      else Err (Thrussh E_Inconsistent)))"

end
