(* ===== verification/Client_Channels.thy ===== *)
theory Client_Channels
  imports Client_Session
begin

text \<open>
  What the server says to an authenticated client: \<^verbatim>\<open>client_read_authenticated\<close>,
  \<^verbatim>\<open>client_handle_channel_open\<close> and the opening of forwarded channels of
  \<^verbatim>\<open>src/src/client/encrypted.rs\<close>.
\<close>

section \<open>Channels the server opens\<close>

definition client_confirm_channel_open ::
  "codec \<Rightarrow> bytes \<Rightarrow> u32 \<Rightarrow> u32 \<Rightarrow> client_config \<Rightarrow> bytes" where
  "client_confirm_channel_open C buffer remote_channel_no local_channel_no cfg =
     push_packet C buffer ([MSG_CHANNEL_OPEN_CONFIRMATION] @ u32_be C remote_channel_no @
       u32_be C local_channel_no @ u32_be C (cc_window_size cfg) @
       u32_be C (cc_maximum_packet_size cfg))"

definition client_confirm_open :: "codec \<Rightarrow> u32 \<Rightarrow> u32 \<Rightarrow> client_session \<Rightarrow> client_session" where
  "client_confirm_open C remote_channel_no local_channel_no s =
     cl_with_enc (\<lambda>enc. enc\<lparr> e_write := client_confirm_channel_open C (e_write enc)
       remote_channel_no local_channel_no (cl_config s) \<rparr>) s"

text \<open>
  The application's end of a channel (\<^verbatim>\<open>Channel\<close> of \<^verbatim>\<open>src/src/client/mod.rs\<close>): its number, the
  queue it receives from, and what it believes of packet size and window.
\<close>

record client_channel =
  chan_id :: channel_id
  chan_queue :: queue
  chan_max_packet_size :: u32
  chan_window_size :: u32

text \<open>\<open>q\<close> is the new queue between the session and the channel.\<close>

definition create_forwarded_tcpip_channel ::
  "codec \<Rightarrow> u32 \<Rightarrow> queue \<Rightarrow> u32 \<Rightarrow> u32 \<Rightarrow> client_session \<Rightarrow>
   (client_channel \<times> client_session) res" where
  "create_forwarded_tcpip_channel C remote_channel q window_size max_packet_size s =
     (case cl_encrypted s of
        None \<Rightarrow> Err (Thrussh E_Inconsistent)
      | Some enc \<Rightarrow>
          rbind (new_channel_id enc) (\<lambda>(ch, enc1).
          let c = \<lparr> recipient_channel = remote_channel, sender_channel = ch,
                    recipient_window_size = window_size,
                    sender_window_size = cc_window_size (cl_config s),
                    recipient_maximum_packet_size = max_packet_size,
                    sender_maximum_packet_size = cc_maximum_packet_size (cl_config s),
                    confirmed = True, ch_wants_reply = False, pending_data = [] \<rparr>;
              s1 = s\<lparr> cl_channels := (cl_channels s)(ch \<mapsto> q) \<rparr>;
              s2 = cl_set_encrypted (enc1\<lparr> channels := (channels enc1)(ch \<mapsto> c) \<rparr>) s1
          in Ok (\<lparr> chan_id = ch, chan_queue = q, chan_max_packet_size = max_packet_size,
                    chan_window_size = window_size \<rparr>,
                 client_confirm_open C remote_channel ch s2)))"

definition client_handle_channel_open ::
  "deps \<Rightarrow> 'h client_handler \<Rightarrow> 'h \<Rightarrow> bytes \<Rightarrow> client_session \<Rightarrow> 'h creply" where
  "client_handle_channel_open D H h buf s =
     (let C = d_codec D in
      rbind (read_string C buf 1) (\<lambda>(typ, p1).
      rbind (read_u32 C buf p1) (\<lambda>(sender, p2).
      rbind (read_u32 C buf p2) (\<lambda>(window, p3).
      rbind (read_u32 C buf p3) (\<lambda>(maxpacket, p4).
      if typ = ascii ''forwarded-tcpip'' then
        rbind (read_string C buf p4) (\<lambda>(address, p5).
        rbind (read_u32 C buf p5) (\<lambda>(port, p6).
        rbind (read_string C buf p6) (\<lambda>(orig_addr, p7).
        rbind (read_u32 C buf p7) (\<lambda>(orig_port, _).
        ch_event H h (CE_channel_open_forwarded_tcpip_client sender (utf8_lossy address) port
          (utf8_lossy orig_addr) orig_port window maxpacket) s))))
      else
        Ok (h, cl_with_enc (enc_push C ([MSG_CHANNEL_OPEN_FAILURE] @ u32_be C sender @ u32_be C 3 @
          ssh_string C (ascii ''Unknown channel type'') @ ssh_string C (ascii ''en''))) s))))))"

section \<open>Answers about channels\<close>

definition client_open_confirmation ::
  "deps \<Rightarrow> 'h client_handler \<Rightarrow> 'h \<Rightarrow> bytes \<Rightarrow> client_session \<Rightarrow> 'h creply" where
  "client_open_confirmation D H h buf s =
     (let C = d_codec D in
      rbind (read_u32 C buf 1) (\<lambda>(id_send, p1).
      rbind (read_u32 C buf p1) (\<lambda>(id_recv, p2).
      rbind (read_u32 C buf p2) (\<lambda>(window, p3).
      rbind (read_u32 C buf p3) (\<lambda>(max_packet, _).
      case cl_encrypted s of
        None \<Rightarrow> Err (Thrussh E_Inconsistent)
      | Some enc \<Rightarrow>
          (case channels enc id_send of
             None \<Rightarrow> Err (Thrussh E_Inconsistent)
           | Some c \<Rightarrow>
               ch_event H h (CE_channel_open_confirmation id_send max_packet window)
                 (cl_set_encrypted (enc\<lparr> channels := (channels enc)(id_send \<mapsto>
                    c\<lparr> recipient_channel := id_recv, recipient_window_size := window,
                      recipient_maximum_packet_size := max_packet, confirmed := True \<rparr>) \<rparr>) s)))))))"

definition cl_drop_channel :: "channel_id \<Rightarrow> client_session \<Rightarrow> client_session" where
  "cl_drop_channel ch s = cl_with_enc (\<lambda>enc. enc\<lparr> channels := (channels enc)(ch := None) \<rparr>) s"

definition client_open_failure ::
  "deps \<Rightarrow> 'h client_handler \<Rightarrow> 'h \<Rightarrow> bytes \<Rightarrow> client_session \<Rightarrow> 'h creply" where
  "client_open_failure D H h buf s =
     (let C = d_codec D in
      rbind (read_u32 C buf 1) (\<lambda>(ch, p1).
      rbind (read_u32 C buf p1) (\<lambda>(code, p2).
      rbind (runwrap (channel_open_failure_from_u32 code)) (\<lambda>reason_code.
      rbind (read_str C buf p2) (\<lambda>(descr, p3).
      rbind (read_str C buf p3) (\<lambda>(language, _).
      ch_event H h (CE_channel_open_failure ch reason_code descr language)
        (cl_drop_channel ch s)))))))"

section \<open>Data and windows\<close>

text \<open>
  The receiving side of the flow control: the window is enlarged to the size of the
  configuration, whatever target the application has chosen.
\<close>

definition client_adjust_window ::
  "codec \<Rightarrow> 'h client_handler \<Rightarrow> 'h \<Rightarrow> channel_id \<Rightarrow> bytes \<Rightarrow> client_session \<Rightarrow> 'h \<times> client_session" where
  "client_adjust_window C H h ch data s =
     (let target = cc_window_size (cl_config s) in
      case cl_encrypted s of
        None \<Rightarrow> (h, s)
      | Some enc \<Rightarrow>
          (case adjust_window_size C ch data target enc of
             (enc', adjusted) \<Rightarrow>
               if adjusted then
                 (case ch_adjust_window H h ch (cl_target_window_size s) of
                    (h', next_window) \<Rightarrow>
                      (h', (cl_set_encrypted enc' s)\<lparr> cl_target_window_size :=
                             (if 0 < next_window then next_window else cl_target_window_size s) \<rparr>))
               else (h, cl_set_encrypted enc' s)))"

definition client_channel_data ::
  "deps \<Rightarrow> 'h client_handler \<Rightarrow> 'h \<Rightarrow> bytes \<Rightarrow> client_session \<Rightarrow> 'h creply" where
  "client_channel_data D H h buf s =
     (let C = d_codec D in
      rbind (read_u32 C buf 1) (\<lambda>(ch, p1).
      rbind (read_string C buf p1) (\<lambda>(data, _).
      case client_adjust_window C H h ch data s of
        (h1, s1) \<Rightarrow> ch_event H h1 (CE_data ch data) s1)))"

definition client_channel_extended_data ::
  "deps \<Rightarrow> 'h client_handler \<Rightarrow> 'h \<Rightarrow> bytes \<Rightarrow> client_session \<Rightarrow> 'h creply" where
  "client_channel_extended_data D H h buf s =
     (let C = d_codec D in
      rbind (read_u32 C buf 1) (\<lambda>(ch, p1).
      rbind (read_u32 C buf p1) (\<lambda>(extended_code, p2).
      rbind (read_string C buf p2) (\<lambda>(data, _).
      case client_adjust_window C H h ch data s of
        (h1, s1) \<Rightarrow> ch_event H h1 (CE_extended_data ch extended_code data) s1))))"

definition client_window_adjust ::
  "deps \<Rightarrow> 'h client_handler \<Rightarrow> 'h \<Rightarrow> bytes \<Rightarrow> client_session \<Rightarrow> 'h creply" where
  "client_window_adjust D H h buf s =
     (let C = d_codec D in
      rbind (read_u32 C buf 1) (\<lambda>(ch, p1).
      rbind (read_u32 C buf p1) (\<lambda>(amount, _).
      case cl_encrypted s of
        None \<Rightarrow> ch_event H h (CE_window_adjusted ch 0) s
      | Some enc \<Rightarrow>
          rbind (enc_add_window ch amount enc) (\<lambda>(enc', w).
          ch_event H h (CE_window_adjusted ch w) (cl_set_encrypted enc' s)))))"

section \<open>Requests of the server\<close>

definition client_channel_request ::
  "deps \<Rightarrow> 'h client_handler \<Rightarrow> 'h \<Rightarrow> bytes \<Rightarrow> client_session \<Rightarrow> 'h creply" where
  "client_channel_request D H h buf s =
     (let C = d_codec D in
      rbind (read_u32 C buf 1) (\<lambda>(ch, p1).
      rbind (read_string C buf p1) (\<lambda>(req, p2).
      if req = ascii ''forwarded_tcpip'' then
        rbind (read_str C buf p2) (\<lambda>(a, p3).
        rbind (read_u32 C buf p3) (\<lambda>(b, p4).
        rbind (read_str C buf p4) (\<lambda>(c, p5).
        rbind (read_u32 C buf p5) (\<lambda>(d, _).
        ch_event H h (CE_channel_open_forwarded_tcpip ch a b c d) s))))
      else if req = ascii ''xon-xoff'' then
        rbind (read_byte C buf p2) (\<lambda>(_, p3).
        rbind (read_byte C buf p3) (\<lambda>(client_can_do, _).
        ch_event H h (CE_xon_xoff ch (client_can_do \<noteq> 0)) s))
      else if req = ascii ''exit-status'' then
        rbind (read_byte C buf p2) (\<lambda>(_, p3).
        rbind (read_u32 C buf p3) (\<lambda>(exit_status, _).
        ch_event H h (CE_exit_status ch exit_status) s))
      else if req = ascii ''exit-signal'' then
        rbind (read_byte C buf p2) (\<lambda>(_, p3).
        rbind (read_string C buf p3) (\<lambda>(name, p4).
        rbind (sig_from_name name) (\<lambda>signal_name.
        rbind (read_byte C buf p4) (\<lambda>(core_dumped, p5).
        rbind (read_str C buf p5) (\<lambda>(error_message, p6).
        rbind (read_str C buf p6) (\<lambda>(lang_tag, _).
        ch_event H h (CE_exit_signal ch signal_name (core_dumped \<noteq> 0) error_message lang_tag) s))))))
      else Ok (h, s))))"

section \<open>Every message to an authenticated client\<close>

definition client_read_authenticated ::
  "deps \<Rightarrow> 'h client_handler \<Rightarrow> 'h \<Rightarrow> bytes \<Rightarrow> client_session \<Rightarrow> 'h creply" where
  "client_read_authenticated D H h buf s =
     (let C = d_codec D in
      rbind (index buf 0) (\<lambda>b0.
      if b0 = MSG_CHANNEL_OPEN_CONFIRMATION then client_open_confirmation D H h buf s
      else if b0 = MSG_CHANNEL_CLOSE then
        rbind (read_u32 C buf 1) (\<lambda>(ch, _).
        ch_event H h (CE_channel_close ch) (cl_drop_channel ch s))
      else if b0 = MSG_CHANNEL_EOF then
        rbind (read_u32 C buf 1) (\<lambda>(ch, _). ch_event H h (CE_channel_eof ch) s)
      else if b0 = MSG_CHANNEL_OPEN_FAILURE then client_open_failure D H h buf s
      else if b0 = MSG_CHANNEL_DATA then client_channel_data D H h buf s
      else if b0 = MSG_CHANNEL_EXTENDED_DATA then client_channel_extended_data D H h buf s
      else if b0 = MSG_CHANNEL_REQUEST then client_channel_request D H h buf s
      else if b0 = MSG_CHANNEL_WINDOW_ADJUST then client_window_adjust D H h buf s
      else if b0 = MSG_GLOBAL_REQUEST then
        rbind (read_string C buf 1) (\<lambda>_. Ok (h, s))
      else if b0 = MSG_CHANNEL_SUCCESS then
        rbind (read_u32 C buf 1) (\<lambda>(ch, _). ch_event H h (CE_channel_success ch) s)
      else if b0 = MSG_CHANNEL_OPEN then client_handle_channel_open D H h buf s
      else Ok (h, s)))"

end
