(* ===== verification/Client.thy ===== *)
theory Client
  imports Client_Auth Client_Channels
begin

text \<open>
  The client's processing of packets: \<^verbatim>\<open>client_read_encrypted\<close> of
  \<^verbatim>\<open>src/src/client/encrypted.rs\<close>, and \<^verbatim>\<open>read_ssh_id\<close>, \<^verbatim>\<open>reply\<close> and the loop of \<^verbatim>\<open>run\<close> of
  \<^verbatim>\<open>src/src/client/mod.rs\<close>.
\<close>

section \<open>Packets of an encrypted connection\<close>

text \<open>A KEXINIT of the server, while encrypted.\<close>

definition client_rekey_init ::
  "deps \<Rightarrow> world \<Rightarrow> bytes \<Rightarrow> encrypted \<Rightarrow> client_session \<Rightarrow> client_session res" where
  "client_rekey_init D W buf enc s =
     (let c = cl_common s; cfg = config c; enc0 = enc\<lparr> e_rekey := None \<rparr> in
      case e_rekey enc of
        Some (Kex_KexInit ki) \<Rightarrow>
          rbind (client_parse D W cfg (cs_cipher c) ki buf (write_buffer c)) (\<lambda>(k, wb).
          client_flush D W (cl_set_common
            (c\<lparr> cs_encrypted := Some (enc0\<lparr> e_rekey := Some (Kex_KexDhDone k) \<rparr>),
               write_buffer := wb \<rparr>) s))
      | _ \<Rightarrow>
          (case e_exchange enc of
             Some ex \<Rightarrow>
               rbind (read_kex (d_codec D) client_select buf (cc_preferred cfg)) (\<lambda>algo.
               rbind (client_parse D W cfg (cs_cipher c) (received_rekey ex algo (e_session_id enc))
                        buf (write_buffer c)) (\<lambda>(k, wb).
               Ok (cl_set_common (c\<lparr> cs_encrypted := Some (enc0\<lparr> e_exchange := None,
                 e_rekey := Some (Kex_KexDhDone k) \<rparr>), write_buffer := wb \<rparr>) s)))
           | None \<Rightarrow> Ok (cl_set_encrypted enc0 s)))"

text \<open>A packet that is not part of a key exchange.\<close>

definition client_read_service_state ::
  "deps \<Rightarrow> 'h client_handler \<Rightarrow> 'h \<Rightarrow> bytes \<Rightarrow> encrypted \<Rightarrow> client_session \<Rightarrow> 'h creply" where
  "client_read_service_state D H h buf enc s =
     (case e_state enc of
        WaitingServiceRequest sent accepted \<Rightarrow>
          rmap (\<lambda>s'. (h, s')) (client_read_service D buf sent accepted enc s)
      | WaitingAuthRequest ar \<Rightarrow> client_read_auth D H h buf ar enc s
      | InitCompression \<Rightarrow> Panic
      | Authenticated \<Rightarrow> client_read_authenticated D H h buf s)"

definition client_read_encrypted ::
  "deps \<Rightarrow> world \<Rightarrow> 'h client_handler \<Rightarrow> 'h \<Rightarrow> bytes \<Rightarrow> client_session \<Rightarrow> 'h creply" where
  "client_read_encrypted D W H h buf s =
     (let c = cl_common s in
      rbind (index buf 0) (\<lambda>b0.
      case cs_encrypted c of
        None \<Rightarrow> if b0 = MSG_KEXINIT then Panic else Ok (h, s)
      | Some enc \<Rightarrow>
          if b0 = MSG_KEXINIT then rmap (\<lambda>s'. (h, s')) (client_rekey_init D W buf enc s)
          else case e_rekey enc of
            Some (Kex_KexDhDone kdd) \<Rightarrow>
              if ignore_guessed (kdd_names kdd) then
                Ok (h, cl_set_encrypted (enc\<lparr> e_rekey := Some (Kex_KexDhDone
                  (kdd\<lparr> kdd_names := (kdd_names kdd)\<lparr> ignore_guessed := False \<rparr> \<rparr>)) \<rparr>) s)
              else if b0 = MSG_KEX_ECDH_REPLY then
                rbind (server_key_check D (ch_check_server_key H) True h kdd buf) (\<lambda>(k, h').
                rbind (cipher_write (d_codec D) (d_sodium D) (cs_cipher c) [MSG_NEWKEYS]
                         (write_buffer c)) (\<lambda>wb.
                rmap (\<lambda>s'. (h', s'))
                  (client_flush D W (cl_set_common (c\<lparr> cs_encrypted := Some (enc\<lparr> e_rekey := Some k \<rparr>),
                     write_buffer := wb \<rparr>) s))))
              else Err (Thrussh E_Inconsistent)
          | Some (Kex_NewKeys nk) \<Rightarrow>
              if b0 \<noteq> MSG_NEWKEYS then Err (Thrussh E_Kex)
              else Ok (h, cl_set_common (cs_newkeys nk
                     (c\<lparr> cs_encrypted := Some (enc\<lparr> e_rekey := None, last_rekey := w_now W \<rparr>),
                        write_buffer := (write_buffer c)\<lparr> sb_bytes := 0 \<rparr> \<rparr>)) s)
          | _ \<Rightarrow> client_read_service_state D H h buf enc s))"

section \<open>Every packet\<close>

definition client_reply ::
  "deps \<Rightarrow> world \<Rightarrow> 'h client_handler \<Rightarrow> 'h \<Rightarrow> bytes \<Rightarrow> client_session \<Rightarrow> 'h creply" where
  "client_reply D W H h buf s =
     (let c = cl_common s; cfg = config c; c0 = c\<lparr> cs_kex := None \<rparr> in
      case cs_kex c of
        Some (Kex_KexInit ki) \<Rightarrow>
          rbind (if ki_algo ki \<noteq> None then Ok True
                 else rmap (\<lambda>b0. b0 = MSG_KEXINIT \<or> cs_encrypted c = None) (index buf 0)) (\<lambda>go.
          if go then
            rbind (client_parse D W cfg (cs_cipher c) ki buf (write_buffer c)) (\<lambda>(k, wb).
            rmap (\<lambda>s'. (h, s')) (client_flush D W
              (cl_set_common (c\<lparr> cs_kex := Some (Kex_KexDhDone k), write_buffer := wb \<rparr>) s)))
          else Ok (h, cl_set_common c0 s))
      | Some (Kex_KexDhDone kdd) \<Rightarrow>
          if ignore_guessed (kdd_names kdd) then
            Ok (h, cl_set_common (c\<lparr> cs_kex := Some (Kex_KexDhDone
              (kdd\<lparr> kdd_names := (kdd_names kdd)\<lparr> ignore_guessed := False \<rparr> \<rparr>)) \<rparr>) s)
          else
            rbind (index buf 0) (\<lambda>b0.
            if b0 = MSG_KEX_ECDH_REPLY then
              rbind (server_key_check D (ch_check_server_key H) False h kdd buf) (\<lambda>(k, h').
              rbind (cipher_write (d_codec D) (d_sodium D) (cs_cipher c) [MSG_NEWKEYS]
                       (write_buffer c)) (\<lambda>wb.
              rmap (\<lambda>s'. (h', s')) (client_flush D W
                (cl_set_common (c\<lparr> cs_kex := Some k, write_buffer := wb \<rparr>) s))))
            else Err (Thrussh E_Inconsistent))
      | Some (Kex_NewKeys nk) \<Rightarrow>
          rbind (index buf 0) (\<lambda>b0.
          if b0 \<noteq> MSG_NEWKEYS then Err (Thrussh E_Kex)
          else
            let first = (cs_encrypted c = None);
                c1 = cs_set_encrypted (w_now W) (WaitingServiceRequest first False) nk c0
            in rmap (\<lambda>wb. (h, cl_set_common (c1\<lparr> write_buffer := wb \<rparr>) s))
                 (if first
                  then cipher_write (d_codec D) (d_sodium D) (cs_cipher c1) service_request (write_buffer c1)
                  else Ok (write_buffer c1)))
      | Some (Kex_KexDh kd) \<Rightarrow> Ok (h, s)
      | None \<Rightarrow> client_read_encrypted D W H h buf s)"

section \<open>The connection\<close>

text \<open>
  The session of \<^verbatim>\<open>connect_stream\<close>, after the server's identification was read: the buffer with
  the client's own identification was sent, and \<^verbatim>\<open>read_ssh_id\<close> fills it with the KEXINIT.
\<close>

definition client_session_new ::
  "deps \<Rightarrow> world \<Rightarrow> client_config \<Rightarrow> bytes \<Rightarrow> client_msg list \<Rightarrow> client_session res" where
  "client_session_new D W cfg sshid messages =
     (let ex = exchange_new\<lparr> server_id := sshid, client_id := cc_client_id cfg \<rparr>;
          ki = \<lparr> ki_algo = None, ki_exchange = ex, ki_session_id = None, ki_sent = False \<rparr>;
          wb = (send_ssh_id (cc_client_id cfg) sshbuffer_new)\<lparr> sb_buffer := [] \<rparr>
      in rbind (client_write D W cfg CLEAR_PAIR ki wb) (\<lambda>(ki', wb').
         Ok \<lparr> cl_common = \<lparr> auth_user = [], config = cfg, cs_encrypted = None,
                cs_auth_method = None, write_buffer = wb', cs_kex = Some (Kex_KexInit ki'),
                cs_cipher = CLEAR_PAIR, cs_wants_reply = False, disconnected = False \<rparr>,
              cl_receiver = messages, cl_handle_alive = True, cl_replies = [],
              cl_channels = Map.empty, cl_sent = [],
              cl_target_window_size = cc_window_size cfg \<rparr>))"

text \<open>Flush, send everything that is encrypted, and forget it.\<close>

definition client_send_all ::
  "deps \<Rightarrow> world \<Rightarrow> client_session \<Rightarrow> (bytes \<times> client_session) res" where
  "client_send_all D W s =
     rbind (client_flush D W s) (\<lambda>s1.
       let c = cl_common s1 in
       Ok (sb_buffer (write_buffer c),
           cl_set_common (c\<lparr> write_buffer := (write_buffer c)\<lparr> sb_buffer := [] \<rparr> \<rparr>) s1))"

text \<open>
  \<^verbatim>\<open>connect_stream\<close> and the beginning of \<^verbatim>\<open>run\<close>: the handler is told of the session, and the
  KEXINIT is sent.
\<close>

definition client_connect ::
  "deps \<Rightarrow> world \<Rightarrow> 'h client_handler \<Rightarrow> client_config \<Rightarrow> bytes \<Rightarrow> client_msg list \<Rightarrow> 'h \<Rightarrow>
   (bytes \<times> 'h \<times> client_session) res" where
  "client_connect D W H cfg sshid messages h =
     rbind (client_session_new D W cfg sshid messages) (\<lambda>s.
     rbind (ch_event H h CE_session_connected s) (\<lambda>(h', s').
     rmap (\<lambda>(sent, s''). (sent, h', s'')) (client_send_all D W s')))"

text \<open>The end of a round, where an accepted client turns to compression and is authenticated.\<close>

definition client_end_round ::
  "deps \<Rightarrow> world \<Rightarrow> client_session \<Rightarrow> (bytes \<times> client_session) res" where
  "client_end_round D W s =
     rmap (\<lambda>(sent, s1). (sent, cl_with_enc (\<lambda>enc.
         case e_state enc of
           InitCompression \<Rightarrow>
             enc\<lparr> e_compress := init_compress (d_flate D) (client_compression enc) (e_compress enc),
                 e_state := Authenticated \<rparr>
         | _ \<Rightarrow> enc) s1))
       (client_send_all D W s)"

text \<open>The branch of \<^verbatim>\<open>select!\<close> for a packet, after a successful read.\<close>

definition client_on_packet ::
  "deps \<Rightarrow> world \<Rightarrow> 'h client_handler \<Rightarrow> 'h \<Rightarrow> bytes \<Rightarrow> client_session \<Rightarrow>
   ('h \<times> client_session) round res" where
  "client_on_packet D W H h buffer s =
     (if length buffer < 5 then Ok Break
      else
        case (case cl_encrypted s of
                Some enc \<Rightarrow>
                  (case decompress_packet (d_flate D) (e_decompress enc) (drop 5 buffer) of
                     (r, d') \<Rightarrow> (r, cl_set_encrypted (enc\<lparr> e_decompress := d' \<rparr>) s))
              | None \<Rightarrow> (Ok (drop 5 buffer), s)) of
          (Ok buf, s1) \<Rightarrow>
            (case buf of
               [] \<Rightarrow> Ok (Continue (h, s1))
             | b0 # _ \<Rightarrow>
                 if b0 = MSG_DISCONNECT then Ok Break
                 else if b0 \<le> 4 then Ok (Continue (h, s1))
                 else rmap Done (client_reply D W H h buf s1))
        | (Err e, s1) \<Rightarrow> Ok Break
        | (Panic, s1) \<Rightarrow> Panic
        | (Diverge, s1) \<Rightarrow> Diverge)"

text \<open>
  The branch for a message of the application. A channel that was opened is known by its queue.
\<close>

definition client_opened :: "queue \<Rightarrow> (channel_id \<times> client_session) res \<Rightarrow> client_session res" where
  "client_opened q r = rmap (\<lambda>(ch, s). s\<lparr> cl_channels := (cl_channels s)(ch \<mapsto> q) \<rparr>) r"

fun client_on_message :: "deps \<Rightarrow> client_msg \<Rightarrow> client_session \<Rightarrow> client_session res" where
  "client_on_message D (Msg_Authenticate user m) s =
     rmap snd (write_auth_request_if_needed D user m s)"
| "client_on_message D (Msg_Signed data) s = Ok s"
| "client_on_message D (Msg_ChannelOpenSession q) s =
     client_opened q (client_channel_open_session (d_codec D) s)"
| "client_on_message D (Msg_ChannelOpenX11 address port q) s =
     client_opened q (client_channel_open_x11 (d_codec D) address port s)"
| "client_on_message D (Msg_ChannelOpenDirectTcpIp host hport address port q) s =
     client_opened q (client_channel_open_direct_tcpip (d_codec D) host hport address port s)"
| "client_on_message D (Msg_TcpIpForward want_reply address port) s =
     Ok (client_tcpip_forward (d_codec D) want_reply address port s)"
| "client_on_message D (Msg_CancelTcpIpForward want_reply address port) s =
     Ok (client_cancel_tcpip_forward (d_codec D) want_reply address port s)"
| "client_on_message D (Msg_Disconnect reason description language_tag) s =
     Ok (client_disconnect (d_codec D) reason description language_tag s)"
| "client_on_message D (Msg_Data ch data) s = client_data (d_codec D) ch data s"
| "client_on_message D (Msg_Eof ch) s = client_eof (d_codec D) ch s"
| "client_on_message D (Msg_ExtendedData ch data ext) s =
     client_extended_data (d_codec D) ch ext data s"
| "client_on_message D (Msg_RequestPty ch want_reply term_name cw rh pw ph modes) s =
     Ok (client_request_pty (d_codec D) ch want_reply term_name cw rh pw ph modes s)"
| "client_on_message D (Msg_WindowChange ch cw rh pw ph) s =
     Ok (client_window_change (d_codec D) ch cw rh pw ph s)"
| "client_on_message D (Msg_RequestX11 ch want_reply single protocol cookie screen) s =
     Ok (client_request_x11 (d_codec D) ch want_reply single protocol cookie screen s)"
| "client_on_message D (Msg_SetEnv ch want_reply name val) s =
     Ok (client_set_env (d_codec D) ch want_reply name val s)"
| "client_on_message D (Msg_RequestShell ch want_reply) s =
     Ok (client_request_shell (d_codec D) want_reply ch s)"
| "client_on_message D (Msg_Exec ch want_reply command) s =
     Ok (client_exec (d_codec D) ch want_reply command s)"
| "client_on_message D (Msg_Signal ch sg) s = Ok (client_signal (d_codec D) ch sg s)"
| "client_on_message D (Msg_RequestSubsystem ch want_reply name) s =
     Ok (client_request_subsystem (d_codec D) want_reply ch name s)"

text \<open>
  One round that reads a packet: the bytes sent and the state, with the rest of the input and
  the read buffer. A failed read ends the loop.
\<close>

definition client_read_round ::
  "deps \<Rightarrow> world \<Rightarrow> 'h client_handler \<Rightarrow> bytes \<Rightarrow> sshbuffer \<Rightarrow> 'h \<Rightarrow> client_session \<Rightarrow>
   (bytes \<times> bytes \<times> sshbuffer \<times> 'h \<times> client_session) round res" where
  "client_read_round D W H input rb h s =
     (case cipher_read (d_codec D) (d_sodium D) (cs_cipher (cl_common s)) input rb of
        (Ok n, input', rb') \<Rightarrow>
          rbind (client_on_packet D W H h (sb_buffer rb') s) (\<lambda>rd.
            case rd of
              Break \<Rightarrow> Ok Break
            | Continue (h', s') \<Rightarrow> Ok (Continue ([], input', rb', h', s'))
            | Done (h', s') \<Rightarrow>
                rbind (client_end_round D W s') (\<lambda>(sent, s'').
                Ok (Done (sent, input', rb'\<lparr> sb_buffer := [] \<rparr>, h', s''))))
      | (Err e, input', rb') \<Rightarrow> Ok Break
      | (Panic, input', rb') \<Rightarrow> Panic
      | (Diverge, input', rb') \<Rightarrow> Diverge)"

text \<open>
  One round that takes a message of the application, or finds that all senders are gone; such
  rounds wait while keys are exchanged.
\<close>

definition client_message_round ::
  "deps \<Rightarrow> world \<Rightarrow> client_session \<Rightarrow> (bytes \<times> client_session) round res" where
  "client_message_round D W s =
     (if client_is_rekeying s then Ok (Continue ([], s))
      else case cl_receiver s of
        [] \<Rightarrow> Ok Break
      | m # later \<Rightarrow>
          rbind (client_on_message D m (s\<lparr> cl_receiver := later \<rparr>)) (\<lambda>s1.
          rmap Done (client_end_round D W s1)))"

end
