(* ===== verification/Client_Trust.thy ===== *)
theory Client_Trust
  imports Client Kex_Props
begin

text \<open>
  Whom a client trusts: which connections become encrypted, and when the application is called.
  As on the server, an application sees a session through public operations only; the interface
  \<open>client_app\<close> states that, with the keys the application has accepted.
\<close>

section \<open>The public operations of a session\<close>

text \<open>
  One call of a public method of \<^verbatim>\<open>client::Session\<close>, or of a default method of the trait
  \<^verbatim>\<open>Handler\<close>, which has access to the fields. A tunnel may also open a forwarded channel.
\<close>

inductive client_op :: "deps \<Rightarrow> client_session \<Rightarrow> client_session \<Rightarrow> bool" for D where
  co_session: "client_channel_open_session (d_codec D) s = Ok (ch, s') \<Longrightarrow> client_op D s s'"
| co_x11: "client_channel_open_x11 (d_codec D) a p s = Ok (ch, s') \<Longrightarrow> client_op D s s'"
| co_direct: "client_channel_open_direct_tcpip (d_codec D) a p a' p' s = Ok (ch, s') \<Longrightarrow> client_op D s s'"
| co_pty: "client_op D s (client_request_pty (d_codec D) ch w t cw rh pw ph modes s)"
| co_req_x11: "client_op D s (client_request_x11 (d_codec D) ch w single protocol cookie screen s)"
| co_env: "client_op D s (client_set_env (d_codec D) ch w name val s)"
| co_shell: "client_op D s (client_request_shell (d_codec D) w ch s)"
| co_exec: "client_op D s (client_exec (d_codec D) ch w command s)"
| co_signal: "client_op D s (client_signal (d_codec D) ch sg s)"
| co_subsystem: "client_op D s (client_request_subsystem (d_codec D) w ch name s)"
| co_window: "client_op D s (client_window_change (d_codec D) ch cw rh pw ph s)"
| co_forward: "client_op D s (client_tcpip_forward (d_codec D) w a p s)"
| co_cancel: "client_op D s (client_cancel_tcpip_forward (d_codec D) w a p s)"
| co_data: "client_data (d_codec D) ch data s = Ok s' \<Longrightarrow> client_op D s s'"
| co_eof: "client_eof (d_codec D) ch s = Ok s' \<Longrightarrow> client_op D s s'"
| co_ext_data: "client_extended_data (d_codec D) ch ext data s = Ok s' \<Longrightarrow> client_op D s s'"
| co_disconnect: "client_op D s (client_disconnect (d_codec D) reason desc lang s)"
| co_default: "client_default_event (d_codec D) () e s = Ok ((), s') \<Longrightarrow> client_op D s s'"
| co_tunnel: "create_forwarded_tcpip_channel (d_codec D) r q w m s = Ok (c, s') \<Longrightarrow> client_op D s s'"

text \<open>What none of them touches: the first key exchange and the session identifier.\<close>

definition trust_view :: "client_session \<Rightarrow> kex option \<times> bytes option" where
  "trust_view s = (cs_kex (cl_common s), map_option e_session_id (cl_encrypted s))"

definition cl_same :: "client_session \<Rightarrow> client_session \<Rightarrow> bool" where
  "cl_same s s' \<longleftrightarrow> trust_view s' = trust_view s"

text \<open>They leave the state of the protocol alone, too.\<close>

definition cl_still :: "client_session \<Rightarrow> client_session \<Rightarrow> bool" where
  "cl_still s s' \<longleftrightarrow> cl_same s s' \<and> map_option e_state (cl_encrypted s') = map_option e_state (cl_encrypted s)"

lemma cl_same_refl [simp]: "cl_same s s"
  by (simp add: cl_same_def)

lemma cl_same_trans: "cl_same s t \<Longrightarrow> cl_same t u \<Longrightarrow> cl_same s u"
  by (simp add: cl_same_def)

lemma cl_same_common:
  "cs_kex c = cs_kex (cl_common s) \<Longrightarrow>
   map_option e_session_id (cs_encrypted c) = map_option e_session_id (cl_encrypted s) \<Longrightarrow>
   cl_same s (cl_set_common c s)"
  by (simp add: cl_same_def trust_view_def cl_set_common_def)

lemma cl_same_enc:
  "cl_encrypted s = Some enc \<Longrightarrow> e_session_id enc' = e_session_id enc \<Longrightarrow> cl_same s (cl_set_encrypted enc' s)"
  by (simp add: cl_same_def trust_view_def cl_set_encrypted_def)

lemma cl_same_rest:
  "cl_common s' = cl_common s \<Longrightarrow> cl_same s s'"
  by (simp add: cl_same_def trust_view_def)

lemma cl_with_enc_same: "(\<And>enc. e_session_id (f enc) = e_session_id enc) \<Longrightarrow> cl_same s (cl_with_enc f s)"
  unfolding cl_with_enc_def by (auto intro: cl_same_enc split: option.split)

lemma cl_still_same: "cl_still s s' \<Longrightarrow> cl_same s s'"
  by (simp add: cl_still_def)

lemma cl_still_refl [simp]: "cl_still s s"
  by (simp add: cl_still_def)

lemma cl_still_trans: "cl_still s t \<Longrightarrow> cl_still t u \<Longrightarrow> cl_still s u"
  by (auto simp: cl_still_def intro: cl_same_trans)

lemma cl_still_common:
  "cs_kex c = cs_kex (cl_common s) \<Longrightarrow>
   map_option e_session_id (cs_encrypted c) = map_option e_session_id (cl_encrypted s) \<Longrightarrow>
   map_option e_state (cs_encrypted c) = map_option e_state (cl_encrypted s) \<Longrightarrow>
   cl_still s (cl_set_common c s)"
  unfolding cl_still_def by (simp add: cl_same_common) (simp add: cl_set_common_def)

lemma cl_still_enc:
  "cl_encrypted s = Some enc \<Longrightarrow> e_session_id enc' = e_session_id enc \<and> e_state enc' = e_state enc \<Longrightarrow>
   cl_still s (cl_set_encrypted enc' s)"
  unfolding cl_still_def by (simp add: cl_same_enc) (simp add: cl_set_encrypted_def)

lemma cl_still_rest: "cl_common s' = cl_common s \<Longrightarrow> cl_still s s'"
  by (simp add: cl_still_def cl_same_rest)

lemma cl_with_enc_still:
  "(\<And>enc. e_session_id (f enc) = e_session_id enc \<and> e_state (f enc) = e_state enc) \<Longrightarrow>
   cl_still s (cl_with_enc f s)"
  unfolding cl_with_enc_def by (auto intro: cl_still_enc split: option.split)

lemma cl_send_common [simp]: "cl_common (cl_send ch m s) = cl_common s"
  by (simp add: cl_send_def split: option.split)

section \<open>Each operation keeps them\<close>

named_theorems session_ids \<open>operations that keep the session identifier, and the state\<close>

abbreviation still_enc :: "encrypted \<Rightarrow> encrypted \<Rightarrow> bool" where
  "still_enc enc enc' \<equiv> e_session_id enc' = e_session_id enc \<and> e_state enc' = e_state enc"

lemma enc_push_id [session_ids]: "still_enc enc (enc_push C body enc)"
  by (simp add: enc_push_def)

lemma enc_request_id [session_ids]: "still_enc enc (enc_client_request C ch name w args enc)"
  unfolding enc_client_request_def by (simp add: enc_push_def split: option.split)

lemma enc_global_id [session_ids]: "still_enc enc (enc_client_global_request C name w a p enc)"
  unfolding enc_client_global_request_def by (simp add: enc_push_def)

lemma enc_eof_id [session_ids]: "still_enc enc (enc_eof C ch enc)"
  by (simp add: enc_eof_def enc_byte_def split: option.split)

lemma enc_data_id: "enc_data C ch buf enc = Ok enc' \<Longrightarrow> still_enc enc enc'"
  unfolding enc_data_def by (auto simp: rassert_eq_Ok rmap_eq_Ok split: option.splits if_splits)

lemma enc_extended_data_id: "enc_extended_data C ch ext buf enc = Ok enc' \<Longrightarrow> still_enc enc enc'"
  unfolding enc_extended_data_def Let_def
  by (auto simp: rassert_eq_Ok rmap_eq_Ok rbind_eq_Ok split: option.splits if_splits)

lemma flush_pending_id: "flush_pending C ch enc = Ok (enc', n) \<Longrightarrow> still_enc enc enc'"
  unfolding flush_pending_def by (auto simp: rmap_eq_Ok split: option.splits)

lemma new_channel_ids:
  "new_channel w m enc = Ok (ch, enc') \<Longrightarrow> still_enc enc enc'"
  "new_channel_id enc = Ok (ch, enc') \<Longrightarrow> still_enc enc enc'"
  unfolding new_channel_def new_channel_id_def by (auto split: option.splits)

lemma adjust_window_id: "still_enc enc (fst (adjust_window_size C ch data target enc))"
  unfolding adjust_window_size_def by (auto simp: Let_def split: option.split)

lemma enc_add_window_id: "enc_add_window ch n enc = Ok (enc', w) \<Longrightarrow> still_enc enc enc'"
  unfolding enc_add_window_def by (auto simp: Let_def split: option.splits if_splits)

lemma enc_flush_id: "enc_flush D now lim cipher wb enc = Ok (enc', wb', b) \<Longrightarrow> still_enc enc enc'"
  by (cases "flush_loop D cipher (e_write enc) (e_write_cursor enc) (e_compress enc) wb")
    (auto simp: enc_flush_def Let_def split: if_split_asm)

lemma cl_enc_or_panic_still:
  "cl_enc_or_panic f s = Ok s' \<Longrightarrow> (\<And>enc enc'. f enc = Ok enc' \<Longrightarrow> still_enc enc enc') \<Longrightarrow> cl_still s s'"
  unfolding cl_enc_or_panic_def by (auto simp: rmap_eq_Ok intro: cl_still_enc split: option.splits)

lemma channel_open_still:
  "client_channel_open C kind args s = Ok (ch, s') \<Longrightarrow> cl_still s s'"
  unfolding client_channel_open_def Let_def
  by (auto simp: rmap_eq_Ok session_ids new_channel_ids intro!: cl_still_enc split: option.splits if_splits)

lemma disconnect_still: "cl_still s (client_disconnect C reason desc lang s)"
  unfolding client_disconnect_def
  by (rule cl_still_common) (auto simp: cs_disconnect_def Let_def split: option.split)

lemma forwarded_still:
  "create_forwarded_tcpip_channel C r q w m s = Ok (c, s') \<Longrightarrow> cl_still s s'"
  unfolding create_forwarded_tcpip_channel_def client_confirm_open_def Let_def
  by (auto simp: rbind_eq_Ok cl_with_enc_def cl_set_encrypted_def cl_still_def cl_same_def trust_view_def
      dest: new_channel_ids split: option.splits)

lemma cl_reply_common: "cl_reply m s = Ok s' \<Longrightarrow> cl_common s' = cl_common s"
  unfolding cl_reply_def by (auto split: if_splits)

lemma default_event_still:
  "client_default_event C h e s = Ok (h', s') \<Longrightarrow> cl_still s s'"
  unfolding cl_still_def cl_same_def trust_view_def
  by (cases e) (auto simp: rbind_eq_Ok Let_def cl_set_encrypted_def
      dest!: cl_reply_common flush_pending_id split: option.splits if_splits res.splits)

lemma client_op_still: "client_op D s s' \<Longrightarrow> cl_still s s'"
  by (induction rule: client_op.induct)
    (auto simp: client_channel_open_session_def client_channel_open_x11_def
      client_channel_open_direct_tcpip_def client_request_pty_def client_request_x11_def
      client_set_env_def client_request_shell_def client_exec_def client_signal_def
      client_request_subsystem_def client_window_change_def client_tcpip_forward_def
      client_cancel_tcpip_forward_def client_data_def client_eof_def client_extended_data_def session_ids
      intro: channel_open_still disconnect_still forwarded_still default_event_still
      intro!: cl_with_enc_still
      elim!: cl_enc_or_panic_still dest: enc_data_id enc_extended_data_id)

lemma client_ops_still: "(client_op D)\<^sup>*\<^sup>* s s' \<Longrightarrow> cl_still s s'"
  by (induction rule: rtranclp_induct) (auto intro: cl_still_trans client_op_still)

lemma client_flush_still: "client_flush D W s = Ok s' \<Longrightarrow> cl_still s s'"
  unfolding client_flush_def Let_def
  by (auto simp: rbind_eq_Ok dest!: enc_flush_id intro!: cl_still_common split: option.splits if_splits)

lemma client_send_all_still: "client_send_all D W s = Ok (sent, s') \<Longrightarrow> cl_still s s'"
  unfolding client_send_all_def Let_def
  by (auto simp: rbind_eq_Ok intro!: cl_still_trans [OF client_flush_still cl_still_common])

lemmas client_op_same = client_op_still [THEN cl_still_same]
  and client_ops_same = client_ops_still [THEN cl_still_same]
  and client_flush_same = client_flush_still [THEN cl_still_same]
  and client_send_all_same = client_send_all_still [THEN cl_still_same]

lemma client_write_id:
  "client_write D W cfg cipher ki wb = Ok (ki', wb') \<Longrightarrow> ki_session_id ki' = ki_session_id ki"
  unfolding client_write_def by (auto simp: rbind_eq_Ok)

lemma client_parse_id:
  "client_parse D W cfg cipher ki buf wb = Ok (kdd, wb') \<Longrightarrow> kdd_session_id kdd = ki_session_id ki"
  unfolding client_parse_def Let_def
  by (auto simp: rbind_eq_Ok dest: client_write_id split: option.splits if_splits)

text \<open>Key re-exchanges, which leave the session as it is.\<close>

lemma client_rekey_init_still:
  assumes enc: "cl_encrypted s = Some enc"
  shows "rpost (cl_still s) (client_rekey_init D W buf enc s)"
proof -
  have k: "cl_still s (cl_set_common ((cl_common s)\<lparr> cs_encrypted := Some (enc\<lparr> e_rekey := None,
      e_exchange := ex, e_rekey := k \<rparr>), write_buffer := wb \<rparr>) s)"
    "cl_still s (cl_set_common ((cl_common s)\<lparr> cs_encrypted := Some (enc\<lparr> e_rekey := None,
      e_rekey := k \<rparr>), write_buffer := wb \<rparr>) s)"
    "cl_still s (cl_set_encrypted (enc\<lparr> e_rekey := None \<rparr>) s)" for ex k wb
    by (auto intro!: cl_still_common cl_still_enc [OF enc] simp: enc)
  have f: "rpost (cl_still s) (client_flush D W t)" if "cl_still s t" for t
    using client_flush_still cl_still_trans that unfolding rpost_def by blast
  have x: "rpost (cl_still s) (case e_exchange enc of
      Some ex \<Rightarrow>
        rbind (read_kex (d_codec D) client_select buf (cc_preferred (cl_config s))) (\<lambda>algo.
        rbind (client_parse D W (cl_config s) (cs_cipher (cl_common s))
          (received_rekey ex algo (e_session_id enc)) buf (write_buffer (cl_common s))) (\<lambda>(k, wb).
        Ok (cl_set_common ((cl_common s)\<lparr> cs_encrypted := Some (enc\<lparr> e_rekey := None,
          e_exchange := None, e_rekey := Some (Kex_KexDhDone k) \<rparr>), write_buffer := wb \<rparr>) s)))
    | None \<Rightarrow> Ok (cl_set_encrypted (enc\<lparr> e_rekey := None \<rparr>) s))"
    by (intro posts k) (rule rpost_bind, intro posts k)
  show ?thesis
  proof (cases "\<exists>ki. e_rekey enc = Some (Kex_KexInit ki)")
    case True
    then obtain ki where "e_rekey enc = Some (Kex_KexInit ki)" by blast
    then show ?thesis unfolding client_rekey_init_def Let_def by (simp, intro posts f k(2) [simplified])
  next
    case False
    then show ?thesis unfolding client_rekey_init_def Let_def
      using x by (auto split: option.split kex.split)
  qed
qed

section \<open>Messages to an authenticated client\<close>

text \<open>
  What an authenticated client is sent changes the session by operations of this kind and by calls
  of the application: a property that both keep is kept by every message.
\<close>

locale client_calls =
  fixes H :: "'h client_handler" and P :: "'h \<times> client_session \<Rightarrow> bool"
  assumes still: "P (h, s) \<Longrightarrow> cl_still s s' \<Longrightarrow> P (h, s')"
    and event: "P (h, s) \<Longrightarrow> cl_encrypted s \<noteq> None \<Longrightarrow> rpost P (ch_event H h e s)"
    and adjust: "P (h, s) \<Longrightarrow> ch_adjust_window H h ch w = (h', w') \<Longrightarrow> P (h', s)"
begin

lemma call:
  assumes "P (h, s)" and "cl_encrypted s = Some enc" and "cl_still s s1"
  shows "rpost P (ch_event H h e s1)"
proof (rule event [OF still [OF assms(1,3)]])
  show "cl_encrypted s1 \<noteq> None"
    using assms(2,3) by (auto simp: cl_still_def)
qed

lemma adjust_window_call:
  assumes g: "P (h, s)" and enc: "cl_encrypted s = Some enc"
    and a: "client_adjust_window C H h ch data s = (h1, s1)"
  shows "rpost P (ch_event H h1 e s1)"
proof -
  let ?r = "adjust_window_size C ch data (cc_window_size (cl_config s)) enc"
  have k': "cl_still s (cl_set_encrypted (fst ?r) s)"
    by (rule cl_still_enc [OF enc adjust_window_id])
  have k: "cl_still s ((cl_set_encrypted (fst ?r) s)\<lparr> cl_target_window_size := w \<rparr>)" for w
    by (rule cl_still_trans [OF k' cl_still_rest]) simp
  have "cl_still s s1 \<and> P (h1, s)"
    using g a k k' enc adjust [OF g]
    by (auto simp: client_adjust_window_def Let_def split: prod.splits if_splits)
  with call [OF _ enc] show ?thesis by blast
qed

lemma channel_messages_step:
  assumes g: "P (h, s)" and enc: "cl_encrypted s = Some enc"
  shows "rpost P (client_open_confirmation D H h buf s)"
    "rpost P (client_open_failure D H h buf s)"
    "rpost P (client_channel_data D H h buf s)"
    "rpost P (client_channel_extended_data D H h buf s)"
    "rpost P (client_window_adjust D H h buf s)"
    "rpost P (client_channel_request D H h buf s)"
    "rpost P (client_handle_channel_open D H h buf s)"
proof -
  note ev = call [OF g enc]
  have ad: "rpost P (case client_adjust_window (d_codec D) H h ch data s of
      (h1, s1) \<Rightarrow> ch_event H h1 (e ch data) s1)" for ch data e
    by (auto split: prod.split intro: adjust_window_call [OF g enc])
  have k: "cl_still s (cl_set_encrypted (enc\<lparr> channels := chs \<rparr>) s)" for chs
    by (rule cl_still_enc [OF enc]) simp
  have drop: "cl_still s (cl_drop_channel ch s)" for ch
    unfolding cl_drop_channel_def by (rule cl_with_enc_still) simp
  have push: "P (h, cl_with_enc (enc_push C body) s)" for C body
    by (rule still [OF g cl_with_enc_still]) (simp add: session_ids)
  show "rpost P (client_open_confirmation D H h buf s)"
    unfolding client_open_confirmation_def Let_def enc option.case by (intro posts ev k)
  show "rpost P (client_open_failure D H h buf s)"
    unfolding client_open_failure_def Let_def by (intro posts rpost_bind ev drop)
  show "rpost P (client_channel_data D H h buf s)"
    unfolding client_channel_data_def Let_def by (intro rpost_bind2 ad)
  show "rpost P (client_channel_extended_data D H h buf s)"
    unfolding client_channel_extended_data_def Let_def by (intro rpost_bind2 ad)
  show "rpost P (client_window_adjust D H h buf s)"
    unfolding client_window_adjust_def Let_def enc option.case
    by (intro rpost_bind2 ev cl_still_enc [OF enc]) (rule enc_add_window_id)
  show "rpost P (client_channel_request D H h buf s)"
    unfolding client_channel_request_def Let_def by (intro posts rpost_bind ev g cl_still_refl)
  show "rpost P (client_handle_channel_open D H h buf s)"
    unfolding client_handle_channel_open_def Let_def by (intro posts ev push cl_still_refl)
qed

lemma authenticated_step:
  assumes g: "P (h, s)" and enc: "cl_encrypted s = Some enc"
  shows "rpost P (client_read_authenticated D H h buf s)"
proof -
  have drop: "cl_still s (cl_drop_channel ch s)" for ch
    unfolding cl_drop_channel_def by (rule cl_with_enc_still) simp
  show ?thesis
    unfolding client_read_authenticated_def Let_def
    by (intro posts rpost_bind channel_messages_step [OF g enc] call [OF g enc] drop g cl_still_refl)
qed

end

section \<open>What an encrypted connection means\<close>

text \<open>
  \<open>A\<close> are the keys the application has accepted. A session identifier is vouched for when the
  owner of one of them has signed it.
\<close>

definition vouched :: "deps \<Rightarrow> public_key set \<Rightarrow> bytes \<Rightarrow> bool" where
  "vouched D A sid \<longleftrightarrow> (\<exists>key \<in> A. \<exists>sig. verify_server_auth (d_keys D) key sid sig)"

fun first_kex_ok :: "deps \<Rightarrow> public_key set \<Rightarrow> kex \<Rightarrow> bool" where
  "first_kex_ok D A (Kex_KexInit ki) = (ki_session_id ki = None)"
| "first_kex_ok D A (Kex_KexDhDone kdd) = (kdd_session_id kdd = None)"
| "first_kex_ok D A (Kex_NewKeys nk) = vouched D A (nk_session_id nk)"
| "first_kex_ok D A (Kex_KexDh kd) = False"

definition view_ok :: "deps \<Rightarrow> public_key set \<Rightarrow> kex option \<times> bytes option \<Rightarrow> bool" where
  "view_ok D A v \<longleftrightarrow>
     (case v of
        (None, Some sid) \<Rightarrow> vouched D A sid
      | (Some k, None) \<Rightarrow> first_kex_ok D A k
      | _ \<Rightarrow> False)"

abbreviation trusts :: "deps \<Rightarrow> public_key set \<Rightarrow> client_session \<Rightarrow> bool" where
  "trusts D A s \<equiv> view_ok D A (trust_view s)"

lemma vouchedI: "key \<in> A \<Longrightarrow> verify_server_auth (d_keys D) key sid sig \<Longrightarrow> vouched D A sid"
  by (auto simp: vouched_def)

lemma vouched_mono: "vouched D A sid \<Longrightarrow> A \<subseteq> A' \<Longrightarrow> vouched D A' sid"
  by (auto simp: vouched_def)

lemma view_ok_mono: "view_ok D A v \<Longrightarrow> A \<subseteq> A' \<Longrightarrow> view_ok D A' v"
  unfolding view_ok_def
  by (auto split: prod.splits option.splits dest: vouched_mono elim!: first_kex_ok.elims)

lemma trusts_same: "trusts D A s \<Longrightarrow> cl_same s s' \<Longrightarrow> trusts D A s'"
  by (simp add: cl_same_def)

lemma trusts_encrypted:
  "trusts D A s \<Longrightarrow> cl_encrypted s = Some enc \<Longrightarrow> vouched D A (e_session_id enc) \<and> cs_kex (cl_common s) = None"
  by (auto simp: view_ok_def trust_view_def split: option.splits)

lemma trusts_exchanging:
  "trusts D A s \<Longrightarrow> cs_kex (cl_common s) = Some k \<Longrightarrow> first_kex_ok D A k \<and> cl_encrypted s = None"
  by (auto simp: view_ok_def trust_view_def split: option.splits)

text \<open>The check of the server's key, in the first key exchange.\<close>

lemma server_key_checked:
  assumes "server_key_check D check False h kdd buf = Ok (k, h')" and "kdd_session_id kdd = None"
    and "\<And>key h1 b. check h key = Ok (h1, b) \<Longrightarrow> Q h1 \<and> (b \<longrightarrow> key \<in> A h1)"
  shows "Q h' \<and> first_kex_ok D (A h') k"
proof -
  from assms(1) obtain key where c: "check h key = Ok (h', True)"
    and k: "\<forall>B. key \<in> B \<longrightarrow> first_kex_ok D B k"
    unfolding server_key_check_def Let_def kdd_compute_keys_def
    by (auto simp: rbind_eq_Ok assms(2) split: if_splits) (blast intro: vouchedI)
  from assms(3) [OF c] k show ?thesis by blast
qed

text \<open>In a later one nothing is asked, and nothing is recorded but the new keys.\<close>

lemma server_key_rechecked:
  "server_key_check D check True h kdd buf = Ok (k, h') \<Longrightarrow> h' = h"
  unfolding server_key_check_def Let_def by (auto simp: rbind_eq_Ok split: if_splits)

section \<open>The interface of an application\<close>

text \<open>
  \<open>acc h\<close> are the keys the application in the state \<open>h\<close> has accepted, \<open>ok h\<close> is a property of its
  state that calls keep: all calls but the first come when some key was accepted.
\<close>

locale client_app =
  fixes D :: deps and H :: "'h client_handler" and acc :: "'h \<Rightarrow> public_key set" and ok :: "'h \<Rightarrow> bool"
  assumes check: "ok h \<Longrightarrow> ch_check_server_key H h key = Ok (h', b) \<Longrightarrow>
        ok h' \<and> acc h \<subseteq> acc h' \<and> (b \<longrightarrow> key \<in> acc h')"
    and adjust: "ok h \<Longrightarrow> ch_adjust_window H h ch w = (h', w') \<Longrightarrow> ok h' \<and> acc h \<subseteq> acc h'"
    and event: "ok h \<Longrightarrow> acc h \<noteq> {} \<or> e = CE_session_connected \<Longrightarrow> ch_event H h e s = Ok (h', s') \<Longrightarrow>
        ok h' \<and> acc h \<subseteq> acc h' \<and> (client_op D)\<^sup>*\<^sup>* s s'"
begin

definition good :: "'h \<times> client_session \<Rightarrow> bool" where
  "good hs \<longleftrightarrow> ok (fst hs) \<and> trusts D (acc (fst hs)) (snd hs)"

lemma good_same: "good (h, s) \<Longrightarrow> cl_same s s' \<Longrightarrow> good (h, s')"
  by (auto simp: good_def intro: trusts_same)

lemma good_event:
  assumes "good (h, s)" and "cl_same s s1" and "cl_encrypted s \<noteq> None \<or> e = CE_session_connected"
  shows "rpost good (ch_event H h e s1)"
  unfolding rpost_def
proof (intro allI impI)
  fix hs' assume r: "ch_event H h e s1 = Ok hs'"
  obtain h' s' where hs': "hs' = (h', s')" by fastforce
  have "acc h \<noteq> {} \<or> e = CE_session_connected"
    using assms(1,3) trusts_encrypted by (fastforce simp: good_def vouched_def)
  with assms(1) r have e: "ok h' \<and> acc h \<subseteq> acc h' \<and> (client_op D)\<^sup>*\<^sup>* s1 s'"
    unfolding hs' by (intro event) (auto simp: good_def)
  then have "cl_same s s'" using assms(2) client_ops_same cl_same_trans by blast
  moreover have "trusts D (acc h') s" using assms(1) e view_ok_mono by (fastforce simp: good_def)
  ultimately show "good hs'" using e hs' trusts_same by (auto simp: good_def)
qed

text \<open>The messages to an authenticated client.\<close>

sublocale calls: client_calls H good
proof (unfold_locales, goal_cases)
  case (1 h s s')
  then show ?case by (rule good_same [OF _ cl_still_same])
next
  case (2 h s e)
  then show ?case by (intro good_event) auto
next
  case (3 h s ch w h' w')
  from 3(1) have "ok h" and t: "trusts D (acc h) s" by (simp_all add: good_def)
  from adjust [OF this(1) 3(2)] view_ok_mono [OF t] show ?case by (simp add: good_def)
qed

text \<open>The messages before that: the service, and the authentication.\<close>

lemma auth_messages_keep:
  assumes enc: "cl_encrypted s = Some enc"
  shows "rpost (cl_same s) (client_read_service D buf sent accepted enc s)"
    "rpost (cl_same s) (client_read_pk_ok D ar enc s)"
proof -
  have k: "cl_same s (cl_set_encrypted enc' s)" if "e_session_id enc' = e_session_id enc" for enc'
    by (rule cl_same_enc [OF enc that])
  have w: "rpost (\<lambda>enc'. e_session_id enc' = e_session_id enc0) (write_auth_request C K user m enc0)"
    for C K user m enc0
    unfolding write_auth_request_def by (auto simp: rpost_def rmap_eq_Ok session_ids)
  show "rpost (cl_same s) (client_read_service D buf sent accepted enc s)"
    unfolding client_read_service_def Let_def
    by (intro posts rpost_bind rpost_rmap rpost_weaken [OF w] k) (auto intro: k)
  have send: "rpost (\<lambda>enc'. e_session_id enc' = e_session_id enc0) (client_send_signature C K user m enc0)"
    for C K user m enc0
    by (cases m) (auto simp: rpost_def rbind_eq_Ok session_ids)
  have reply: "cl_same s (cl_set_encrypted enc' (s1\<lparr> cl_receiver := later \<rparr>))"
    if "cl_reply r (cl_set_common (c\<lparr> cs_auth_method := None \<rparr>) s) = Ok s1"
      "c = cl_common s" "e_session_id enc' = e_session_id enc" for r c s1 enc' later
    using cl_reply_common [OF that(1)] that(2,3) enc
    by (simp add: cl_same_def trust_view_def cl_set_encrypted_def cl_set_common_def)
  show "rpost (cl_same s) (client_read_pk_ok D ar enc s)"
  proof (cases "cs_auth_method (cl_common s)")
    case None
    then show ?thesis
      by (simp add: client_read_pk_ok_def cl_same_def trust_view_def cl_set_encrypted_def
          cl_set_common_def enc)
  next
    case (Some m)
    then show ?thesis
    proof (cases m)
      case (Method_PublicKey key)
      with Some send [where C = "d_codec D" and K = "d_keys D" and
          user = "auth_user (cl_common s)" and m = "Method_PublicKey key"]
      show ?thesis
        by (auto simp: client_read_pk_ok_def Let_def rpost_def rmap_eq_Ok cl_same_def trust_view_def
            cl_set_encrypted_def cl_set_common_def enc simp del: client_send_signature.simps)
    next
      case (Method_FuturePublicKey key)
      with Some show ?thesis
        by (auto simp: client_read_pk_ok_def Let_def rpost_def rbind_eq_Ok rmap_eq_Ok session_ids
            intro!: reply split: if_splits)
    qed (simp add: client_read_pk_ok_def Some cl_same_def trust_view_def cl_set_encrypted_def
          cl_set_common_def enc)
  qed
qed

lemma auth_step:
  assumes g: "good (h, s)" and enc: "cl_encrypted s = Some enc"
  shows "rpost good (client_read_auth D H h buf ar enc s)"
proof -
  have success: "good (h, cl_set_encrypted (enc\<lparr> e_state := st, e_decompress := d \<rparr>) s1)"
    if "cl_reply r s = Ok s1" for r s1 st d
    using cl_reply_common [OF that] enc
    by (intro good_same [OF g]) (simp add: cl_same_def trust_view_def cl_set_encrypted_def)
  have failure: "good (h, s1)"
    if "cl_reply r (cl_set_encrypted (enc\<lparr> e_state := st \<rparr>)
      (cl_set_common ((cl_common s)\<lparr> cs_auth_method := None \<rparr>) s)) = Ok s1" for r s1 st
    using cl_reply_common [OF that] enc
    by (intro good_same [OF g]) (simp add: cl_same_def trust_view_def cl_set_encrypted_def cl_set_common_def)
  have ev: "rpost good (ch_event H h e s)" for e
    using good_event [OF g cl_same_refl] enc by simp
  have pk: "rpost good (rmap (\<lambda>s'. (h, s')) (client_read_pk_ok D ar enc s))"
    using auth_messages_keep(2) [OF enc] good_same [OF g]
    by (auto simp: rpost_def rmap_eq_Ok)
  show ?thesis
    unfolding client_read_auth_def Let_def
    apply (intro posts rpost_bind pk ev)
       apply (auto simp: rpost_def rmap_eq_Ok rbind_eq_Ok g intro: success failure split: if_splits)
    done
qed

lemma service_state_step:
  assumes g: "good (h, s)" and enc: "cl_encrypted s = Some enc"
  shows "rpost good (client_read_service_state D H h buf enc s)"
proof -
  have "rpost good (rmap (\<lambda>s'. (h, s')) (client_read_service D buf sent accepted enc s))"
    for sent accepted
    using auth_messages_keep(1) [OF enc] good_same [OF g] by (auto simp: rpost_def rmap_eq_Ok)
  then show ?thesis
    using auth_step [OF g enc] calls.authenticated_step [OF g enc]
    by (cases "e_state enc") (simp_all add: client_read_service_state_def)
qed

text \<open>Every packet, and every round of the connection.\<close>

lemma read_encrypted_step:
  assumes g: "good (h, s)" and enc: "cl_encrypted s = Some enc"
  shows "rpost good (client_read_encrypted D W H h buf s)"
proof -
  have k: "good (h, cl_set_encrypted (enc\<lparr> e_rekey := k \<rparr>) s)" for k
    by (rule good_same [OF g cl_same_enc [OF enc]]) simp
  have f: "good (h, s1)" if "client_flush D W (cl_set_common ((cl_common s)\<lparr> cs_encrypted :=
      Some (enc\<lparr> e_rekey := k \<rparr>), write_buffer := wb \<rparr>) s) = Ok s1" for k wb s1
    by (rule good_same [OF g cl_same_trans [OF cl_same_common client_flush_same [OF that]]])
      (simp_all add: enc)
  have n: "good (h, cl_set_common (cs_newkeys nk ((cl_common s)\<lparr> cs_encrypted :=
      Some (enc\<lparr> e_rekey := None, last_rekey := now \<rparr>), write_buffer := wb \<rparr>)) s)" for nk now wb
    by (rule good_same [OF g cl_same_common]) (simp_all add: cs_newkeys_def enc)
  have i: "rpost good (rmap (\<lambda>s'. (h, s')) (client_rekey_init D W buf enc s))"
    using client_rekey_init_still [OF enc] good_same [OF g] cl_still_same by (auto simp: rpost_def rmap_eq_Ok)
  show ?thesis
    unfolding client_read_encrypted_def Let_def enc option.case
    apply (rule rpost_bind)
    apply (rule rpost_if [OF i])
    apply (cases "e_rekey enc")
     apply (simp add: service_state_step [OF g enc])
    by (auto simp: rpost_def rbind_eq_Ok rmap_eq_Ok service_state_step [OF g enc, THEN rpostD] k n
        dest!: server_key_rechecked intro: f split: kex.splits if_splits)
qed

lemma good_first:
  "ok h \<Longrightarrow> cl_encrypted s = None \<Longrightarrow> first_kex_ok D (acc h) k \<Longrightarrow>
   good (h, cl_set_common ((cl_common s)\<lparr> cs_kex := Some k, write_buffer := wb \<rparr>) s)"
  by (simp add: good_def view_ok_def trust_view_def cl_set_common_def)

lemma first_kex_step:
  assumes g: "good (h, s)" and k: "cs_kex (cl_common s) = Some k"
  shows "rpost good (client_reply D W H h buf s)"
proof -
  have ok: "ok h" using g by (simp add: good_def)
  have f: "first_kex_ok D (acc h) k" and enc: "cl_encrypted s = None"
    using trusts_exchanging [OF _ k] g by (auto simp: good_def)
  have flush: "good (h', s')"
    if "client_flush D W (cl_set_common ((cl_common s)\<lparr> cs_kex := Some k', write_buffer := wb \<rparr>) s) = Ok s'"
      "ok h'" "first_kex_ok D (acc h') k'" for h' s' k' wb
    using good_same [OF good_first [OF that(2) enc that(3)] client_flush_same [OF that(1)]] .
  have guess: "good (h, cl_set_common ((cl_common s)\<lparr> cs_kex := Some k' \<rparr>) s)"
    if "first_kex_ok D (acc h) k'" for k'
    using good_first [OF ok enc that, of "write_buffer (cl_common s)"] by simp
  show ?thesis
  proof (cases k)
    case (Kex_KexInit ki)
    with f have "ki_session_id ki = None" by simp
    then show ?thesis
      unfolding client_reply_def Let_def k Kex_KexInit option.case kex.case enc
      by (auto simp: rpost_def rbind_eq_Ok rmap_eq_Ok dest!: client_parse_id split: if_splits
          intro: flush ok)
  next
    case (Kex_KexDhDone kdd)
    with f have sid: "kdd_session_id kdd = None" by simp
    have checked: "ok h' \<and> first_kex_ok D (acc h') k'"
      if "server_key_check D (ch_check_server_key H) False h kdd buf = Ok (k', h')" for k' h'
      by (rule server_key_checked [OF that sid]) (use check ok in blast)
    show ?thesis
      unfolding client_reply_def Let_def k Kex_KexDhDone option.case kex.case
      by (auto simp: rpost_def rbind_eq_Ok rmap_eq_Ok sid dest!: checked split: if_splits
          intro: flush guess)
  next
    case (Kex_NewKeys nk)
    with f have "vouched D (acc h) (nk_session_id nk)" by simp
    then show ?thesis
      unfolding client_reply_def Let_def k Kex_NewKeys option.case kex.case
      by (auto simp: rpost_def rbind_eq_Ok rmap_eq_Ok good_def ok view_ok_def trust_view_def
          cl_set_common_def cs_set_encrypted_def encrypted_new_def split: if_splits)
  next
    case (Kex_KexDh kd)
    with f show ?thesis by simp
  qed
qed

lemma reply_step:
  assumes g: "good (h, s)"
  shows "rpost good (client_reply D W H h buf s)"
proof (cases "cs_kex (cl_common s)")
  case (Some k)
  with first_kex_step [OF g] show ?thesis .
next
  case None
  with g obtain enc where "cl_encrypted s = Some enc"
    by (auto simp: good_def view_ok_def trust_view_def split: option.splits)
  with read_encrypted_step [OF g] None show ?thesis by (simp add: client_reply_def)
qed

lemma on_packet_step:
  assumes g: "good (h, s)" and r: "client_on_packet D W H h buffer s = Ok rd"
  shows "rd = Break \<or> (\<exists>hs'. (rd = Continue hs' \<or> rd = Done hs') \<and> good hs')"
proof -
  define dec where "dec = (case cl_encrypted s of
      Some enc \<Rightarrow> (case decompress_packet (d_flate D) (e_decompress enc) (drop 5 buffer) of
         (r, d') \<Rightarrow> (r, cl_set_encrypted (enc\<lparr> e_decompress := d' \<rparr>) s))
    | None \<Rightarrow> (Ok (drop 5 buffer), s))"
  have "cl_same s (cl_set_encrypted (enc\<lparr> e_decompress := d \<rparr>) s)" if "cl_encrypted s = Some enc" for enc d
    by (rule cl_same_enc [OF that]) simp
  then have "cl_same s (snd dec)" unfolding dec_def by (auto split: option.splits prod.splits)
  then have g1: "good (h, snd dec)" by (rule good_same [OF g])
  show ?thesis
    using r rpostD [OF reply_step [OF g1]] g1 unfolding client_on_packet_def dec_def [symmetric]
    by (cases dec) (auto simp: rmap_eq_Ok split: if_splits res.splits list.splits)
qed

end

lemma authenticate_same:
  "write_auth_request_if_needed D user m s = Ok (b, s') \<Longrightarrow> cl_same s s'"
  unfolding write_auth_request_if_needed_def write_auth_request_def Let_def
  by (auto simp: rmap_eq_Ok rbind_eq_Ok session_ids intro!: cl_same_common
      split: option.splits encrypted_state.splits if_splits)

lemma opened_same: "(\<And>ch s'. r = Ok (ch, s') \<Longrightarrow> cl_same s s') \<Longrightarrow> client_opened q r = Ok t \<Longrightarrow> cl_same s t"
  unfolding client_opened_def cl_same_def trust_view_def by (auto simp: rmap_eq_Ok)

lemma on_message_same: "client_on_message D m s = Ok s' \<Longrightarrow> cl_same s s'"
  by (cases m) (auto simp: rmap_eq_Ok
      intro: authenticate_same client_op_same [of D] client_op.intros
      elim!: opened_same [rotated])

lemma client_end_round_ready:
  assumes "client_end_round D W s = Ok (sent, s')"
  shows "cl_same s s' \<and> (\<forall>enc. cl_encrypted s' = Some enc \<longrightarrow> e_state enc \<noteq> InitCompression)"
proof -
  obtain s1 where r: "client_send_all D W s = Ok (sent, s1)"
    and s': "s' = cl_with_enc (\<lambda>enc. case e_state enc of
      InitCompression \<Rightarrow> enc\<lparr> e_compress := init_compress (d_flate D) (client_compression enc) (e_compress enc),
        e_state := Authenticated \<rparr>
    | _ \<Rightarrow> enc) s1"
    using assms unfolding client_end_round_def by (auto simp: rmap_eq_Ok)
  have "cl_same s1 s'"
    unfolding s' by (rule cl_with_enc_same) (simp split: encrypted_state.split)
  moreover have "\<forall>enc. cl_encrypted s' = Some enc \<longrightarrow> e_state enc \<noteq> InitCompression"
    unfolding s' cl_with_enc_def cl_set_encrypted_def
    by (auto split: option.split encrypted_state.splits)
  ultimately show ?thesis using client_send_all_same [OF r] cl_same_trans by blast
qed

section \<open>Runs of the client\<close>

text \<open>
  What can happen to a connection: a round that reads from the stream, with any bytes of the
  server and any content of the read buffer, or a round that takes a message of the application,
  whatever it has sent. The clock and the random numbers may differ in every round.
\<close>

inductive client_run ::
  "deps \<Rightarrow> 'h client_handler \<Rightarrow> 'h \<times> client_session \<Rightarrow> 'h \<times> client_session \<Rightarrow> bool" for D H hs0 where
  start: "client_run D H hs0 hs0"
| packet: "client_run D H hs0 (h, s) \<Longrightarrow>
    client_read_round D W H input rb h s = Ok (Done (sent, input', rb', h', s')) \<Longrightarrow>
    client_run D H hs0 (h', s')"
| skipped: "client_run D H hs0 (h, s) \<Longrightarrow>
    client_read_round D W H input rb h s = Ok (Continue (sent, input', rb', h', s')) \<Longrightarrow>
    client_run D H hs0 (h', s')"
| message: "client_run D H hs0 (h, s) \<Longrightarrow>
    client_message_round D W (s\<lparr> cl_receiver := msgs \<rparr>) = Ok (Done (sent, s')) \<Longrightarrow>
    client_run D H hs0 (h, s')"

lemma client_read_round_cases:
  "client_read_round D W H input rb h s = Ok (Done (sent, input', rb', h', s')) \<Longrightarrow>
   \<exists>buffer s1. client_on_packet D W H h buffer s = Ok (Done (h', s1)) \<and>
     client_end_round D W s1 = Ok (sent, s')"
  "client_read_round D W H input rb h s = Ok (Continue (sent, input', rb', h', s')) \<Longrightarrow>
   \<exists>buffer. client_on_packet D W H h buffer s = Ok (Continue (h', s'))"
  unfolding client_read_round_def
  by (auto simp: rbind_eq_Ok split: prod.split_asm res.split_asm)
    (rename_tac rd, case_tac rd, auto simp: rbind_eq_Ok)+

text \<open>A packet that is skipped leaves all but the decompressor as it was.\<close>

lemma on_packet_continue:
  assumes "client_on_packet D W H h buffer s = Ok (Continue (h', s'))"
  shows "cl_encrypted s = None \<and> cl_encrypted s' = None \<or>
    (\<exists>enc enc'. cl_encrypted s = Some enc \<and> cl_encrypted s' = Some enc' \<and> e_state enc' = e_state enc)"
  using assms unfolding client_on_packet_def
  by (auto simp: rmap_eq_Ok cl_set_encrypted_def
      split: if_split_asm option.split_asm prod.split_asm res.split_asm list.split_asm)

definition ready :: "client_session \<Rightarrow> bool" where
  "ready s \<longleftrightarrow> (\<forall>enc. cl_encrypted s = Some enc \<longrightarrow> e_state enc \<noteq> InitCompression)"

context client_app
begin

lemma run_good:
  assumes "client_run D H hs0 hs" and "good hs0" and "ready (snd hs0)"
  shows "good hs \<and> ready (snd hs)"
  using assms
proof (induction rule: client_run.induct)
  case start
  then show ?case by simp
next
  case (packet h s W input rb sent input' rb' h' s')
  obtain buffer s1 where rd: "client_on_packet D W H h buffer s = Ok (Done (h', s1))"
    and e: "client_end_round D W s1 = Ok (sent, s')"
    using client_read_round_cases(1) [OF packet.hyps(2)] by blast
  have "good (h, s)" using packet.IH packet.prems by simp
  from on_packet_step [OF this rd] have "good (h', s1)" by simp
  with client_end_round_ready [OF e] show ?case by (auto simp: ready_def intro: good_same)
next
  case (skipped h s W input rb sent input' rb' h' s')
  obtain buffer where rd: "client_on_packet D W H h buffer s = Ok (Continue (h', s'))"
    using client_read_round_cases(2) [OF skipped.hyps(2)] by blast
  have g: "good (h, s)" and r: "ready s" using skipped.IH skipped.prems by simp_all
  from on_packet_step [OF g rd] have "good (h', s')" by simp
  moreover have "ready s'" using on_packet_continue [OF rd] r by (fastforce simp: ready_def)
  ultimately show ?case by simp
next
  case (message h s W msgs sent s')
  then obtain m later s1 where m: "client_on_message D m (s\<lparr> cl_receiver := later \<rparr>) = Ok s1"
    and e: "client_end_round D W s1 = Ok (sent, s')"
    by (auto simp: client_message_round_def rbind_eq_Ok rmap_eq_Ok split: if_splits list.splits)
  have "cl_same s (s\<lparr> cl_receiver := later \<rparr>)" by (rule cl_same_rest) simp
  from cl_same_trans [OF this cl_same_trans [OF on_message_same [OF m]]] client_end_round_ready [OF e]
  have same: "cl_same s s'" and "ready s'" unfolding ready_def by blast+
  moreover have "good (h, s)" using message.IH message.prems by simp
  ultimately show ?case using good_same by simp
qed

end

section \<open>An application that keeps a log\<close>

text \<open>
  Any application can be made to keep a log of its verdicts on keys and of what it was told,
  newest first.
\<close>

datatype client_log = CL_Key public_key bool | CL_Event client_event

definition client_logged :: "'h client_handler \<Rightarrow> ('h \<times> client_log list) client_handler" where
  "client_logged H = \<lparr>
     ch_check_server_key = (\<lambda>(h, l) key.
       rmap (\<lambda>(h', b). ((h', CL_Key key b # l), b)) (ch_check_server_key H h key)),
     ch_adjust_window = (\<lambda>(h, l) ch w. case ch_adjust_window H h ch w of (h', w') \<Rightarrow> ((h', l), w')),
     ch_event = (\<lambda>(h, l) e s. rmap (\<lambda>(h', s'). ((h', CL_Event e # l), s')) (ch_event H h e s)) \<rparr>"

definition keys_in :: "client_log list \<Rightarrow> public_key set" where
  "keys_in l = {key. CL_Key key True \<in> set l}"

text \<open>Every event but the first comes after a key was accepted.\<close>

fun cl_justified :: "client_log list \<Rightarrow> bool" where
  "cl_justified [] = True"
| "cl_justified (CL_Key key b # l) = cl_justified l"
| "cl_justified (CL_Event e # l) = ((keys_in l \<noteq> {} \<or> e = CE_session_connected) \<and> cl_justified l)"

text \<open>An application that only uses the public operations of a session.\<close>

definition client_well_behaved :: "deps \<Rightarrow> 'h client_handler \<Rightarrow> bool" where
  "client_well_behaved D H \<longleftrightarrow>
     (\<forall>h e s h' s'. ch_event H h e s = Ok (h', s') \<longrightarrow> (client_op D)\<^sup>*\<^sup>* s s')"

lemma keys_in_simps [simp]:
  "keys_in (CL_Event e # l) = keys_in l"
  "keys_in (CL_Key key b # l) = (if b then insert key (keys_in l) else keys_in l)"
  by (auto simp: keys_in_def)

lemma client_logged_app:
  assumes "client_well_behaved D H"
  shows "client_app D (client_logged H) (\<lambda>(h, l). keys_in l) (\<lambda>(h, l). cl_justified l)"
  using assms unfolding client_well_behaved_def
  by unfold_locales (auto simp: client_logged_def rmap_eq_Ok split: prod.splits)

lemma client_default_op:
  assumes "client_default_event (d_codec D) h e s = Ok (h', s')"
  shows "client_op D s s'"
proof (rule co_default)
  show "client_default_event (d_codec D) () e s = Ok ((), s')"
    using assms by (cases e) (auto simp: rbind_eq_Ok Let_def)
qed

lemma client_default_well_behaved: "client_well_behaved D (client_default_handler (d_codec D))"
  using client_default_op by (fastforce simp: client_well_behaved_def client_default_handler_def)

interpretation default_client: client_app D "client_logged (client_default_handler (d_codec D))"
  "\<lambda>(h, l). keys_in l" "\<lambda>(h, l). cl_justified l" for D
  by (rule client_logged_app [OF client_default_well_behaved])

text \<open>A connection begins with the first key exchange.\<close>

lemma client_connect_good:
  assumes app: "client_app D H acc ok" and "ok h" and "client_connect D W H cfg sshid msgs h = Ok (sent, hs)"
  shows "client_app.good D acc ok hs \<and> ready (snd hs)"
proof -
  obtain s0 s1 h1 s2 where n: "client_session_new D W cfg sshid msgs = Ok s0"
    and e: "ch_event H h CE_session_connected s0 = Ok (h1, s1)"
    and a: "client_send_all D W s1 = Ok (sent, s2)" and hs: "hs = (h1, s2)"
    using assms(3) unfolding client_connect_def by (auto simp: rbind_eq_Ok rmap_eq_Ok)
  from n have k: "\<exists>ki. trust_view s0 = (Some (Kex_KexInit ki), None) \<and> ki_session_id ki = None"
    unfolding client_session_new_def Let_def
    by (auto simp: rbind_eq_Ok trust_view_def dest: client_write_id)
  then have "client_app.good D acc ok (h, s0)"
    using assms(2) by (auto simp: client_app.good_def [OF app] view_ok_def)
  from rpostD [OF client_app.good_event [OF app this cl_same_refl] e]
  have "client_app.good D acc ok (h1, s1)" by simp
  moreover have "cl_same s0 s1"
    using client_app.event [OF app assms(2) _ e] client_ops_same by blast
  ultimately show ?thesis
    using k client_app.good_same [OF app _ client_send_all_same [OF a]] client_send_all_same [OF a]
    by (auto simp: hs ready_def cl_same_def trust_view_def)
qed

text \<open>
  C3. A client trusts nobody but whom its application trusts. Whatever packets arrive, in any
  order, and whatever the application does with the public operations of the session: once a
  connection is encrypted, the application has accepted a key whose owner has signed the session
  identifier; before it has accepted a key no event but the connection itself is reported to it.
\<close>

theorem only_checked_servers:
  assumes "client_well_behaved D H"
    and "client_connect D W (client_logged H) cfg sshid msgs (h0, []) = Ok (sent, hs0)"
    and "client_run D (client_logged H) hs0 ((h, l), s)"
  shows "cl_justified l \<and>
    (\<forall>enc. cl_encrypted s = Some enc \<longrightarrow>
       (\<exists>key sig. CL_Key key True \<in> set l \<and> verify_server_auth (d_keys D) key (e_session_id enc) sig))"
proof -
  note app = client_logged_app [OF assms(1)]
  have "client_app.good D (\<lambda>(h, l). keys_in l) (\<lambda>(h, l). cl_justified l) ((h, l), s)"
    using client_app.run_good [OF app assms(3)] client_connect_good [OF app _ assms(2)] by simp
  then have "cl_justified l \<and> trusts D (keys_in l) s" by (simp add: client_app.good_def [OF app])
  then show ?thesis by (auto simp: vouched_def keys_in_def dest!: trusts_encrypted)
qed


text \<open>A server with a key of its own, whose packets a client reads one after the other.\<close>

fun client_feed ::
  "deps \<Rightarrow> world \<Rightarrow> 'h client_handler \<Rightarrow> bytes list \<Rightarrow> 'h \<times> client_session \<Rightarrow> ('h \<times> client_session) option" where
  "client_feed D W H [] hs = Some hs"
| "client_feed D W H (p # ps) (h, s) =
     (case cipher_write (d_codec D) (d_sodium D) CLEAR_PAIR p sshbuffer_new of
        Ok wb \<Rightarrow>
          (case client_read_round D W H (sb_buffer wb) sshbuffer_new h s of
             Ok (Done (sent, input', rb', hs')) \<Rightarrow> client_feed D W H ps hs'
           | _ \<Rightarrow> None)
      | _ \<Rightarrow> None)"

lemma client_feed_run:
  "client_feed D W H ps hs = Some hs' \<Longrightarrow> client_run D H hs0 hs \<Longrightarrow> client_run D H hs0 hs'"
proof (induction ps arbitrary: hs)
  case (Cons p ps)
  then show ?case
    by (cases hs) (auto intro!: Cons.IH intro: client_run.packet
        split: res.split_asm round.split_asm prod.split_asm)
qed simp

definition demo_trusting :: "unit client_handler" where
  "demo_trusting = (client_default_handler rfc_codec)\<lparr>
     ch_check_server_key := (\<lambda>h key. Ok (h, key = PK_Ed25519 [8, 9])) \<rparr>"

definition demo_server_kexinit :: bytes where
  "demo_server_kexinit = (case write_kex rfc_codec demo_names (Ok (replicate 16 2)) [] of Ok b \<Rightarrow> b | _ \<Rightarrow> [])"

definition demo_trust_config :: client_config where
  "demo_trust_config = \<lparr> cc_client_id = [83],
     cc_limits = \<lparr> rekey_write_limit = 500, rekey_read_limit = 500, rekey_time_limit = 500 \<rparr>,
     cc_window_size = 20, cc_maximum_packet_size = 20, cc_preferred = demo_names,
     cc_connection_timeout = None \<rparr>"

definition demo_connected :: "(bytes \<times> (unit \<times> client_log list) \<times> client_session) res" where
  "demo_connected = client_connect demo_deps (demo_world 1) (client_logged demo_trusting)
     demo_trust_config [83] [] ((), [])"

definition demo_hash :: bytes where
  "demo_hash = [0, 0, 0, 1, 83, 0, 0, 0, 1, 83, 0, 0, 0, 157, 20] @ replicate 16 1 @ [0]"

definition demo_server_packets :: "bytes list" where
  "demo_server_packets = [
     demo_server_kexinit,
     [MSG_KEX_ECDH_REPLY] @ rfc_string (rfc_string [1] @ rfc_string [8, 9]) @ rfc_string (replicate 32 6) @
       rfc_string (rfc_string [1] @ rfc_string ([8, 9] @ demo_hash)),
     [MSG_NEWKEYS]]"

lemma demo_client_outcome:
  "case demo_connected of
     Ok (sent, hs0) \<Rightarrow>
       (case client_feed demo_deps (demo_world 1) (client_logged demo_trusting) demo_server_packets hs0 of
          Some ((h, l), s) \<Rightarrow> CL_Key (PK_Ed25519 [8, 9]) True \<in> set l \<and> length l = 2 \<and>
            (case cl_encrypted s of
               Some enc \<Rightarrow> e_session_id enc = demo_hash \<and> e_state enc = WaitingServiceRequest True False
             | None \<Rightarrow> False)
        | None \<Rightarrow> False)
   | _ \<Rightarrow> False"
  by code_simp

lemma demo_trusting_well_behaved: "client_well_behaved demo_deps demo_trusting"
  using client_default_op [of demo_deps]
  by (fastforce simp: client_well_behaved_def demo_trusting_def client_default_handler_def demo_deps_def)

lemma ok_pair: "case r of Ok (x, y) \<Rightarrow> P x y | _ \<Rightarrow> False \<Longrightarrow> \<exists>x y. r = Ok (x, y) \<and> P x y"
  by (cases r) auto

lemma some_triple:
  "case r of None \<Rightarrow> False | Some ((h, l), s) \<Rightarrow> P h l s \<Longrightarrow> \<exists>h l s. r = Some ((h, l), s) \<and> P h l s"
  by (cases r) auto

lemma demo_client_run:
  obtains sent hs0 h l s enc where "demo_connected = Ok (sent, hs0)"
    and "client_run demo_deps (client_logged demo_trusting) hs0 ((h, l), s)" and "length l = 2"
    and "cl_encrypted s = Some enc" and "e_session_id enc = demo_hash"
    and "e_state enc = WaitingServiceRequest True False"
proof -
  from ok_pair [OF demo_client_outcome] obtain sent hs0 where c: "demo_connected = Ok (sent, hs0)"
    and o: "case client_feed demo_deps (demo_world 1) (client_logged demo_trusting) demo_server_packets hs0 of
      None \<Rightarrow> False
    | Some ((h, l), s) \<Rightarrow> CL_Key (PK_Ed25519 [8, 9]) True \<in> set l \<and> length l = 2 \<and>
        (case cl_encrypted s of
           Some enc \<Rightarrow> e_session_id enc = demo_hash \<and> e_state enc = WaitingServiceRequest True False
         | None \<Rightarrow> False)" by (elim exE conjE)
  from some_triple [OF o] obtain h l s where
    f: "client_feed demo_deps (demo_world 1) (client_logged demo_trusting) demo_server_packets hs0 =
      Some ((h, l), s)"
    and e: "length l = 2" "case cl_encrypted s of
       Some enc \<Rightarrow> e_session_id enc = demo_hash \<and> e_state enc = WaitingServiceRequest True False
     | None \<Rightarrow> False" by (elim exE conjE)
  obtain enc where "cl_encrypted s = Some enc" "e_session_id enc = demo_hash"
    "e_state enc = WaitingServiceRequest True False"
    using e(2) by (cases "cl_encrypted s") simp_all
  with that [OF c client_feed_run [OF f client_run.start]] e(1) show thesis by simp
qed

theorem only_checked_servers_witness:
  "\<exists>l key sig. cl_justified l \<and> length l = 2 \<and> CL_Key key True \<in> set l \<and>
    verify_server_auth (d_keys demo_deps) key demo_hash sig"
proof -
  obtain sent hs0 h l s enc where run: "demo_connected = Ok (sent, hs0)"
    "client_run demo_deps (client_logged demo_trusting) hs0 ((h, l), s)" "length l = 2"
    "cl_encrypted s = Some enc" "e_session_id enc = demo_hash"
    by (rule demo_client_run)
  from only_checked_servers [OF demo_trusting_well_behaved run(1) [unfolded demo_connected_def] run(2)] run(3-)
  show ?thesis by auto
qed


end
