(* ===== verification/Client_Loop.thy ===== *)
theory Client_Loop
  imports Client_Trust Ssh_Read_Props Event_Loop
begin

text \<open>
  \<^verbatim>\<open>connect_stream\<close> and \<^verbatim>\<open>Session::run\<close> of \<^verbatim>\<open>src/src/client/mod.rs\<close> as a whole: the identification
  lines, the loop with the branches of its \<^verbatim>\<open>select!\<close>, and how it ends.
\<close>

section \<open>The function\<close>

type_synonym 'h client_conn = "('h, client_session) conn"

text \<open>The messages of the application are those the session is going to receive.\<close>

type_synonym client_turns = "(world \<times> unit branch) stream"

definition client_accept ::
  "deps \<Rightarrow> world \<Rightarrow> 'h client_handler \<Rightarrow> client_config \<Rightarrow> bytes list \<Rightarrow> client_msg list \<Rightarrow> 'h \<Rightarrow>
   'h client_conn res" where
  "client_accept D W H cfg pieces messages h =
     (case read_ssh_id read_ssh_id_buffer_new pieces of (line, sid, rest) \<Rightarrow>
      rbind line (\<lambda>sshid.
      rbind (client_connect D W H cfg sshid messages h) (\<lambda>(sent, h', s).
      rmap (\<lambda>input.
          \<lparr> cn_input = input, cn_rb = sshbuffer_new,
            cn_out = sb_buffer (send_ssh_id (cc_client_id cfg) sshbuffer_new) @ sent,
            cn_handler = h', cn_session = s \<rparr>)
        (packet_stream sid rest))))"

text \<open>A client has no timeout; messages of the application wait while keys are exchanged.\<close>

fun client_branch :: "client_session \<Rightarrow> 'm branch \<Rightarrow> 'm branch" where
  "client_branch s (B_Message m) = (if client_is_rekeying s then B_Read else B_Message m)"
| "client_branch s br = B_Read"

text \<open>When all senders of messages are gone the session is disconnected.\<close>

definition client_turn ::
  "deps \<Rightarrow> 'h client_handler \<Rightarrow> world \<times> unit branch \<Rightarrow> 'h client_conn \<Rightarrow> 'h client_conn after res" where
  "client_turn D H turn c =
     (let (W, br) = turn; s = cn_session c in
      case client_branch s br of
        B_Message u \<Rightarrow>
          rmap (\<lambda>rd. case rd of
              Done (sent, s') \<Rightarrow>
                Next (c\<lparr> cn_rb := (cn_rb c)\<lparr> sb_buffer := [] \<rparr>, cn_out := cn_out c @ sent, cn_session := s' \<rparr>)
            | Continue (sent, s') \<Rightarrow> Next c
            | Break \<Rightarrow> Leave (c\<lparr> cn_session := s\<lparr> cl_common := (cl_common s)\<lparr> disconnected := True \<rparr> \<rparr> \<rparr>))
            (client_message_round D W s)
      | _ \<Rightarrow>
          (case cipher_read (d_codec D) (d_sodium D) (cs_cipher (cl_common s)) (cn_input c) (cn_rb c) of
             (r, input', rb') \<Rightarrow>
           rmap (\<lambda>rd. case rd of
               Break \<Rightarrow> Leave (c\<lparr> cn_input := input', cn_rb := rb' \<rparr>)
             | Continue (sent, input', rb', h', s') \<Rightarrow>
                 Next (c\<lparr> cn_input := input', cn_rb := rb', cn_handler := h', cn_session := s' \<rparr>)
             | Done (sent, input', rb', h', s') \<Rightarrow>
                 Next \<lparr> cn_input = input', cn_rb = rb', cn_out = cn_out c @ sent,
                        cn_handler = h', cn_session = s' \<rparr>)
             (client_read_round D W H (cn_input c) (cn_rb c) (cn_handler c) s)))"

definition client_disconnected :: "'h client_conn \<Rightarrow> bool" where
  "client_disconnected c = disconnected (cl_common (cn_session c))"

abbreviation client_loop ::
  "deps \<Rightarrow> 'h client_handler \<Rightarrow> client_turns \<Rightarrow> 'h client_conn \<Rightarrow> 'h client_conn res option" where
  "client_loop D H \<equiv> event_loop (client_turn D H) client_disconnected"

text \<open>After the loop the stream is drained only when the session was disconnected on this side.\<close>

definition client_session_run ::
  "deps \<Rightarrow> 'h client_handler \<Rightarrow> client_config \<Rightarrow> world \<Rightarrow> bytes list \<Rightarrow> client_msg list \<Rightarrow> client_turns \<Rightarrow> 'h \<Rightarrow>
   unit res option" where
  "client_session_run D H cfg W pieces messages ts h =
     (case client_accept D W H cfg pieces messages h of
        Ok c0 \<Rightarrow> map_option (\<lambda>r. rbind r (\<lambda>c.
            if client_disconnected c
            then drain (d_codec D) (d_sodium D) (cs_cipher (cl_common (cn_session c))) (cn_input c) (cn_rb c)
            else Ok ()))
          (client_loop D H ts c0)
      | Err e \<Rightarrow> Some (Err e)
      | Panic \<Rightarrow> Some Panic
      | Diverge \<Rightarrow> Some Diverge)"

section \<open>What the loop keeps\<close>

definition in_client_run ::
  "deps \<Rightarrow> 'h client_handler \<Rightarrow> 'h \<times> client_session \<Rightarrow> 'h client_conn \<Rightarrow> bool" where
  "in_client_run D H hs0 c \<longleftrightarrow> (\<exists>s. client_run D H hs0 (cn_handler c, s) \<and>
     (cn_session c = s \<or> cn_session c = s\<lparr> cl_common := (cl_common s)\<lparr> disconnected := True \<rparr> \<rparr>))"

lemma client_turn_next:
  assumes r: "client_run D H hs0 (cn_handler c, cn_session c)" and t: "client_turn D H turn c = Ok (Next c')"
  shows "client_run D H hs0 (cn_handler c', cn_session c')"
proof -
  obtain W br where turn: "turn = (W, br)" by (cases turn)
  show ?thesis
  proof (cases "\<exists>u. client_branch (cn_session c) br = B_Message u")
    case True
    then obtain u where u: "client_branch (cn_session c) br = B_Message u" by blast
    from t obtain rd where rd: "client_message_round D W (cn_session c) = Ok rd"
      by (auto simp: client_turn_def Let_def turn u rmap_eq_Ok)
    with t show ?thesis
      using r client_run.message [OF r, of W "cl_receiver (cn_session c)"]
      by (auto simp: client_turn_def Let_def turn u split: round.split_asm)
  next
    case False
    then have u: "client_branch (cn_session c) br = B_Read"
      by (cases br) (auto split: if_splits)
    obtain q input1 rb1 where q: "cipher_read (d_codec D) (d_sodium D) (cs_cipher (cl_common (cn_session c)))
        (cn_input c) (cn_rb c) = (q, input1, rb1)"
      by (cases "cipher_read (d_codec D) (d_sodium D) (cs_cipher (cl_common (cn_session c))) (cn_input c) (cn_rb c)")
    from t obtain rd where rd: "client_read_round D W H (cn_input c) (cn_rb c) (cn_handler c) (cn_session c) = Ok rd"
      by (auto simp: client_turn_def Let_def turn u q rmap_eq_Ok)
    with t show ?thesis
      using client_run.packet [OF r] client_run.skipped [OF r]
      by (auto simp: client_turn_def Let_def turn u q split: round.split_asm)
  qed
qed

lemma client_turn_leave:
  assumes "client_turn D H turn c = Ok (Leave c')"
  shows "cn_handler c' = cn_handler c" and "cn_session c' = cn_session c \<or>
    cn_session c' = (cn_session c)\<lparr> cl_common := (cl_common (cn_session c))\<lparr> disconnected := True \<rparr> \<rparr>"
  using assms
  by (auto simp: client_turn_def Let_def rmap_eq_Ok case_prod_beta split: branch.split_asm round.split_asm)
    (rename_tac x, case_tac x, auto)+

interpretation client_turns: turn_invariant "client_turn D H" client_disconnected "in_client_run D H hs0"
  for D H hs0
proof
  fix c c' turn assume c: "in_client_run D H hs0 c" "\<not> client_disconnected c"
  then have r: "client_run D H hs0 (cn_handler c, cn_session c)"
    by (auto simp: in_client_run_def client_disconnected_def)
  show "in_client_run D H hs0 c'" if "client_turn D H turn c = Ok (Next c')"
    using client_turn_next [OF r that] by (auto simp: in_client_run_def)
  show "in_client_run D H hs0 c'" if "client_turn D H turn c = Ok (Leave c')"
    using client_turn_leave [OF that] r by (auto simp: in_client_run_def)
qed

lemma client_accept_connects:
  assumes "client_accept D W H cfg pieces msgs h = Ok c0"
  obtains sshid sent where "client_connect D W H cfg sshid msgs h = Ok (sent, cn_handler c0, cn_session c0)"
  using assms by (auto simp: client_accept_def rbind_eq_Ok rmap_eq_Ok split: prod.split_asm)

text \<open>
  C8. How a client's connection ends. When the loop is over, whatever the server sent and in
  whatever order packets and messages were taken, a connection that is encrypted is one to an owner
  of a key that the application has accepted. The session reports success exactly when it was the
  server that ended the connection, or a read that failed: a session that was disconnected on this
  side drains the stream until a read returns zero, which no read does, so that an application
  that disconnects always gets an error, that of the end of the stream if nothing else was left.
\<close>

theorem client_connection_ends:
  assumes "client_well_behaved D H"
    and "client_accept D W (client_logged H) cfg pieces msgs (h0, []) = Ok c0"
    and "client_loop D (client_logged H) ts c0 = Some (Ok c)"
  shows "(\<forall>enc. cl_encrypted (cn_session c) = Some enc \<longrightarrow>
      (\<exists>key sig. CL_Key key True \<in> set (snd (cn_handler c)) \<and>
        verify_server_auth (d_keys D) key (e_session_id enc) sig)) \<and>
    (client_session_run D (client_logged H) cfg W pieces msgs ts (h0, []) = Some (Ok ()) \<longleftrightarrow>
      \<not> client_disconnected c) \<and>
    (client_disconnected c \<and> cn_input c = [] \<longrightarrow>
      client_session_run D (client_logged H) cfg W pieces msgs ts (h0, []) = Some (Err Io_Error))"
proof -
  note app = client_logged_app [OF assms(1)]
  obtain sshid sent where con: "client_connect D W (client_logged H) cfg sshid msgs (h0, []) =
      Ok (sent, cn_handler c0, cn_session c0)"
    by (rule client_accept_connects [OF assms(2)])
  have "in_client_run D (client_logged H) (cn_handler c0, cn_session c0) c0"
    unfolding in_client_run_def by (blast intro: client_run.start)
  with assms(3) have "in_client_run D (client_logged H) (cn_handler c0, cn_session c0) c"
    using client_turns.loop_keeps by blast
  then obtain s where run: "client_run D (client_logged H) (cn_handler c0, cn_session c0) (cn_handler c, s)"
    and e: "cl_encrypted (cn_session c) = cl_encrypted s"
    by (auto simp: in_client_run_def)
  have "client_app.good D (\<lambda>(h, l). keys_in l) (\<lambda>(h, l). cl_justified l) (cn_handler c, s)"
    using client_app.run_good [OF app run] client_connect_good [OF app _ con] by simp
  then have "trusts D (keys_in (snd (cn_handler c))) s"
    by (simp add: client_app.good_def [OF app] split: prod.splits)
  moreover have "drain C S pair [] rb = Err Io_Error" for C S pair rb
    by (subst drain.simps) (simp add: cipher_read_end)
  ultimately show ?thesis
    using assms(2,3) e
    by (auto simp: client_session_run_def drain_never_Ok vouched_def keys_in_def dest!: trusts_encrypted)
qed

section \<open>Concrete connections\<close>

text \<open>
  The server sends its identification and closes. One application disconnects as soon as it is told
  of the session, the other does nothing.
\<close>

definition demo_quitting :: "unit client_handler" where
  "demo_quitting = demo_trusting\<lparr> ch_event := (\<lambda>h e s.
     if e = CE_session_connected then Ok (h, client_disconnect rfc_codec ByApplication [] [] s)
     else ch_event demo_trusting h e s) \<rparr>"

lemma demo_quitting_well_behaved: "client_well_behaved demo_deps demo_quitting"
  using demo_trusting_well_behaved co_disconnect [of demo_deps]
  by (auto simp: client_well_behaved_def demo_quitting_def demo_deps_def split: if_splits)

definition demo_pieces :: "bytes list" where
  "demo_pieces = [ascii ''SSH-2.0-x'' @ [13, 10]]"

definition demo_accept :: "unit client_handler \<Rightarrow> (unit \<times> client_log list) client_conn res" where
  "demo_accept H = client_accept demo_deps (demo_world 1) (client_logged H) demo_trust_config demo_pieces [] ((), [])"

definition demo_read :: "world \<times> unit branch" where
  "demo_read = (demo_world 1, B_Read)"

lemma demo_quitting_outcome:
  "case demo_accept demo_quitting of
     Ok c0 \<Rightarrow> client_disconnected c0 \<and> cn_input c0 = [] | _ \<Rightarrow> False"
  by code_simp

lemma demo_trusting_outcome:
  "case demo_accept demo_trusting of
     Ok c0 \<Rightarrow> \<not> client_disconnected c0 \<and>
       (case client_turn demo_deps (client_logged demo_trusting) demo_read c0 of
          Ok (Leave c) \<Rightarrow> \<not> client_disconnected c
        | _ \<Rightarrow> False)
   | _ \<Rightarrow> False"
  by code_simp

theorem client_connection_ends_witness:
  "client_session_run demo_deps (client_logged demo_quitting) demo_trust_config (demo_world 1)
      demo_pieces [] (sconst demo_read) ((), []) = Some (Err Io_Error) \<and>
   client_session_run demo_deps (client_logged demo_trusting) demo_trust_config (demo_world 1)
      demo_pieces [] (sconst demo_read) ((), []) = Some (Ok ())"
proof
  obtain c where c: "demo_accept demo_quitting = Ok c" and d: "client_disconnected c \<and> cn_input c = []"
    by (rule ok_run [OF demo_quitting_outcome])
  have "client_loop demo_deps (client_logged demo_quitting) (sconst demo_read) c = Some (Ok c)"
    using d by (subst event_loop.simps) simp
  from client_connection_ends [OF demo_quitting_well_behaved c [unfolded demo_accept_def] this] d
  show "client_session_run demo_deps (client_logged demo_quitting) demo_trust_config (demo_world 1)
      demo_pieces [] (sconst demo_read) ((), []) = Some (Err Io_Error)" by blast
next
  obtain c0 where c0: "demo_accept demo_trusting = Ok c0"
    and r: "\<not> client_disconnected c0 \<and>
       (case client_turn demo_deps (client_logged demo_trusting) demo_read c0 of
          Ok (Leave c) \<Rightarrow> \<not> client_disconnected c
        | _ \<Rightarrow> False)"
    by (rule ok_run [OF demo_trusting_outcome])
  obtain c where t: "client_turn demo_deps (client_logged demo_trusting) demo_read c0 = Ok (Leave c)"
    and d: "\<not> client_disconnected c"
    by (rule leave_turn [OF conjunct2 [OF r]])
  have "client_loop demo_deps (client_logged demo_trusting) (sconst demo_read) c0 = Some (Ok c)"
    using conjunct1 [OF r] t by (subst event_loop.simps) simp
  from client_connection_ends [OF demo_trusting_well_behaved c0 [unfolded demo_accept_def] this] d
  show "client_session_run demo_deps (client_logged demo_trusting) demo_trust_config (demo_world 1)
      demo_pieces [] (sconst demo_read) ((), []) = Some (Ok ())" by blast
qed

end
