(* ===== verification/Auth_Dialogue.thy ===== *)
theory Auth_Dialogue
  imports Server_Auth_Props
begin

text \<open>
  What the server answers to the authentication requests of RFC 4252, as a client writes them:
  the outcome of every method, and what the order of the requests can do to it.
\<close>

section \<open>Requests as a client writes them\<close>

definition userauth_request :: "codec \<Rightarrow> bytes \<Rightarrow> string \<Rightarrow> bytes \<Rightarrow> bytes" where
  "userauth_request C user meth rest =
     [MSG_USERAUTH_REQUEST] @ ssh_string C user @ ssh_string C (ascii ''ssh-connection'') @
     ssh_string C (ascii meth) @ rest"

text \<open>\<open>flag\<close> is the byte that tells a change of the password; the server skips it.\<close>

definition password_request :: "codec \<Rightarrow> u8 \<Rightarrow> bytes \<Rightarrow> bytes \<Rightarrow> bytes" where
  "password_request C flag user password =
     userauth_request C user ''password'' ([flag] @ ssh_string C password)"

definition pk_request :: "codec \<Rightarrow> bytes \<Rightarrow> u8 \<Rightarrow> bytes \<Rightarrow> bytes \<Rightarrow> bytes" where
  "pk_request C user real algo key =
     userauth_request C user ''publickey'' ([real] @ ssh_string C algo @ ssh_string C key)"

definition pk_signature :: "codec \<Rightarrow> bytes \<Rightarrow> bytes \<Rightarrow> bytes" where
  "pk_signature C algo sig = ssh_string C (ssh_string C algo @ ssh_string C sig)"

context codec_laws
begin

lemma auth_request_dispatch:
  assumes "d_codec D = C" and "utf8_valid user" and "short user" and "length meth < 2 ^ 32"
  obtains p where "drop p (userauth_request C user meth rest) = rest"
    and "p = length (userauth_request C user meth [])"
    and "server_read_auth_request D H h (userauth_request C user meth rest) st =
      (if ascii meth = ascii ''password''
       then auth_password_request D H h (userauth_request C user meth rest) p user st
       else if ascii meth = ascii ''publickey''
       then server_read_auth_request_pk D H h (userauth_request C user meth rest) p user st
       else if ascii meth = ascii ''keyboard-interactive''
       then auth_keyboard_interactive_request D H h (userauth_request C user meth rest) p user st
       else rbind (waiting_auth (snd st)) (\<lambda>ar. Ok (h, fst st, enc_reject (d_codec D) ar (snd st))))"
proof -
  let ?b = "userauth_request C user meth rest"
  have d1: "drop 1 ?b = ssh_string C user @ ssh_string C (ascii ''ssh-connection'') @
      ssh_string C (ascii meth) @ rest"
    by (simp add: userauth_request_def)
  note r1 = read_string_at [OF d1 assms(3)]
  have "short (ascii ''ssh-connection'')" by simp
  note r2 = read_string_at [OF r1(2) this]
  have "short (ascii meth)" using assms(4) by simp
  note r3 = read_string_at [OF r2(2) this]
  show thesis
  proof (rule that [OF r3(2)])
    show "1 + 4 + length user + 4 + length (ascii ''ssh-connection'') + 4 + length (ascii meth) =
        length (userauth_request C user meth [])"
      by (simp add: userauth_request_def)
  qed (unfold server_read_auth_request_def Let_def assms(1),
      simp only: r1(1) r2(1) r3(1) rbind.simps prod.case from_utf8_valid [OF assms(2)] simp_thms if_True)
qed

lemma pk_request_parse:
  assumes "d_codec D = C" and "drop p buf = [real] @ ssh_string C algo @ ssh_string C key @ rest"
    and "short algo" and "short key" and "e_state enc = WaitingAuthRequest ar"
    and "parse_key (d_keys D) algo key = Ok k"
  obtains p3 where "drop p3 buf = rest"
    and "p3 = p + 1 + length (ssh_string C algo @ ssh_string C key)"
    and "server_read_auth_request_pk D H h buf p user (u0, enc) =
      (if real \<noteq> 0 then auth_pk_real D H h buf p3 k user ar (u0, enc)
       else auth_pk_probe D H h algo key k user ar (u0, enc))"
proof -
  have d0: "drop p buf = real # (ssh_string C algo @ ssh_string C key @ rest)" using assms(2) by simp
  note r0 = read_byte_at [OF d0]
  note r1 = read_string_at [OF r0(2) assms(3)]
  note r2 = read_string_at [OF r1(2) assms(4)]
  show thesis
  proof (rule that [OF r2(2)])
    show "p + 1 + 4 + length algo + 4 + length key = p + 1 + length (ssh_string C algo @ ssh_string C key)"
      by simp
  qed (unfold server_read_auth_request_pk_def Let_def assms(1) waiting_auth_def assms(5),
      simp add: assms(5) r0(1) [simplified] r1(1) [simplified] r2(1) [simplified] assms(6))
qed

lemma password_request_run:
  assumes "d_codec D = C" and "utf8_valid user" and "short user"
    and "utf8_valid password" and "short password" and "e_state enc = WaitingAuthRequest ar"
    and "h_auth_password H h user password = Ok (h', a)"
  shows "server_read_auth_request D H h (password_request C flag user password) (u0, enc) =
    (if a = Auth_Accept then Ok (h', user, enc_accept C enc)
     else Ok (h', [], enc_reject C (ar\<lparr> ar_methods := ms_minus (ar_methods ar) MS_PASSWORD,
                                     ar_partial_success := False \<rparr>) enc))"
proof -
  let ?rest = "[flag] @ ssh_string C password"
  let ?b = "userauth_request C user ''password'' ?rest"
  have "length ''password'' < 2 ^ 32" by simp
  obtain p where d: "drop p ?b = ?rest"
    and r: "server_read_auth_request D H h ?b (u0, enc) = auth_password_request D H h ?b p user (u0, enc)"
    using auth_request_dispatch [OF assms(1-3) \<open>length ''password'' < 2 ^ 32\<close>, where rest = ?rest and H = H
        and h = h and st = "(u0, enc)"]
    by (metis (full_types))
  from d have "drop p ?b = flag # ssh_string C password" by simp
  note r0 = read_byte_at [OF this]
  have "drop (p + 1) ?b = ssh_string C password @ []" using r0(2) by simp
  note r1 = read_string_at [OF this assms(5)]
  show ?thesis
    unfolding password_request_def r auth_password_request_def Let_def assms(1)
    by (simp add: waiting_auth_def assms(4,6,7) r0(1) [simplified] r1(1) [simplified]
        split: auth_answer.splits)
qed

text \<open>A question about a key, and a request that is signed.\<close>

lemma pk_probe_run:
  assumes "d_codec D = C" and "utf8_valid user" and "short user" and "short algo" and "short key"
    and "e_state enc = WaitingAuthRequest ar" and "parse_key (d_keys D) algo key = Ok k"
  shows "server_read_auth_request D H h (pk_request C user 0 algo key) (u0, enc) =
    auth_pk_probe D H h algo key k user ar (u0, enc)"
proof -
  let ?rest = "[0] @ ssh_string C algo @ ssh_string C key"
  let ?b = "userauth_request C user ''publickey'' ?rest"
  have m: "length ''publickey'' < 2 ^ 32" by simp
  obtain p where d: "drop p ?b = ?rest"
    and r: "server_read_auth_request D H h ?b (u0, enc) = server_read_auth_request_pk D H h ?b p user (u0, enc)"
    using auth_request_dispatch [OF assms(1-3) m, where rest = ?rest and H = H
        and h = h and st = "(u0, enc)"] by auto
  have "drop p ?b = [0] @ ssh_string C algo @ ssh_string C key @ []" using d by simp
  from pk_request_parse [OF assms(1) this assms(4-7)]
  show ?thesis unfolding pk_request_def r by (metis (full_types))
qed

lemma pk_real_run:
  assumes "d_codec D = C" and "utf8_valid user" and "short user" and "short algo" and "short key"
    and "e_state enc = WaitingAuthRequest ar" and "parse_key (d_keys D) algo key = Ok k"
    and "real \<noteq> 0" and "short (ssh_string C a @ ssh_string C sig)" and "short a" and "short sig"
  shows "server_read_auth_request D H h (pk_request C user real algo key @ pk_signature C a sig) (u0, enc) =
    rbind (if sent_pk_ok ar \<and> user = u0 then Ok (h, u0, True)
           else if u0 = [] then
             rmap (\<lambda>(h', auth). (h', user, auth = Auth_Accept)) (h_auth_publickey H h user k)
           else Ok (h, u0, False)) (\<lambda>(h', u', is_valid).
      if is_valid \<and> verify_client_auth (d_keys D) k (ssh_string C (e_session_id enc) @
             pk_request C user real algo key) sig
      then Ok (h', u', enc_accept C enc) else Ok (h', u', enc_reject C ar enc))"
proof -
  let ?rest = "[real] @ ssh_string C algo @ ssh_string C key @ pk_signature C a sig"
  let ?b = "userauth_request C user ''publickey'' ?rest"
  have b: "pk_request C user real algo key @ pk_signature C a sig = ?b"
    by (simp add: pk_request_def userauth_request_def)
  have m: "length ''publickey'' < 2 ^ 32" by simp
  obtain p where d: "drop p ?b = ?rest" and p: "p = length (userauth_request C user ''publickey'' [])"
    and r: "server_read_auth_request D H h ?b (u0, enc) = server_read_auth_request_pk D H h ?b p user (u0, enc)"
    using auth_request_dispatch [OF assms(1-3) m, where rest = ?rest and H = H
        and h = h and st = "(u0, enc)"] by auto
  obtain p3 where d3: "drop p3 ?b = pk_signature C a sig"
    and p3: "p3 = p + 1 + length (ssh_string C algo @ ssh_string C key)"
    and r3: "server_read_auth_request_pk D H h ?b p user (u0, enc) = auth_pk_real D H h ?b p3 k user ar (u0, enc)"
    using pk_request_parse [OF assms(1) d assms(4-7), where H = H and h = h and user = user and ?u0.0 = u0]
      assms(8) by auto
  have l: "p3 = length (pk_request C user real algo key)"
    unfolding p3 p pk_request_def userauth_request_def by simp
  then have init: "slice ?b 0 p3 = Ok (pk_request C user real algo key)"
    unfolding b [symmetric] by simp
  have "drop p3 ?b = ssh_string C (ssh_string C a @ ssh_string C sig) @ []"
    using d3 by (simp add: pk_signature_def)
  note r4 = read_string_at [OF this assms(9)]
  have "drop 0 (ssh_string C a @ ssh_string C sig) = ssh_string C a @ ssh_string C sig" by simp
  note r5 = read_string_at [OF this assms(10)]
  have "drop (0 + 4 + length a) (ssh_string C a @ ssh_string C sig) = ssh_string C sig @ []"
    using r5(2) by simp
  note r6 = read_string_at [OF this assms(11)]
  show ?thesis
    unfolding b r r3 auth_pk_real_def Let_def prod.case assms(1) r4(1) r5(1) r6(1) init rbind.simps ..
qed

end

section \<open>A session that waits for authentication\<close>

definition demo_waiting :: encrypted where
  "demo_waiting = encrypted_new 0 (WaitingAuthRequest \<lparr> ar_methods = ms_all,
     ar_partial_success = False, ar_current = None, ar_rejection_count = 0 \<rparr>) demo_new_keys"

lemma demo_waiting_state [simp]:
  "e_state demo_waiting = WaitingAuthRequest \<lparr> ar_methods = ms_all,
     ar_partial_success = False, ar_current = None, ar_rejection_count = 0 \<rparr>"
  "e_write demo_waiting = []"
  by (simp_all add: demo_waiting_def encrypted_new_def)

lemma d_codec_demo [simp]: "d_codec demo_deps = rfc_codec"
  by (simp add: demo_deps_def)

section \<open>Public keys\<close>

text \<open>
  C33. The key that is asked about is not the key that signs. A client asks whether a key would
  do that the application accepts for a user, which needs no proof that it owns the key; then it
  sends the request proper with a key of its own, and signs with that one. The server lets it in:
  the application is not asked about the second key, whatever it would say of it.
\<close>

theorem publickey_not_bound:
  assumes "codec_laws (d_codec D)" and "utf8_valid user" and "short user"
    and "short algo1" "short key1" "short algo2" "short key2"
    and "short (pk_signature (d_codec D) algo2 sig)" "short algo2" "short sig"
    and "parse_key (d_keys D) algo1 key1 = Ok k1" and "parse_key (d_keys D) algo2 key2 = Ok k2"
    and "e_state enc = WaitingAuthRequest ar"
    and "h_auth_publickey H h user k1 = Ok (h1, Auth_Accept)"
    and "verify_client_auth (d_keys D) k2 (ssh_string (d_codec D) (e_session_id enc) @
          pk_request (d_codec D) user 1 algo2 key2) sig"
  shows "\<exists>enc1 enc2.
    server_read_auth_request D H h (pk_request (d_codec D) user 0 algo1 key1) (u0, enc) =
      Ok (h1, user, enc1) \<and>
    server_read_auth_request D H h1
      (pk_request (d_codec D) user 1 algo2 key2 @ pk_signature (d_codec D) algo2 sig) (user, enc1) =
      Ok (h1, user, enc2) \<and>
    e_state enc2 = InitCompression"
proof -
  have s: "short (ssh_string (d_codec D) algo2 @ ssh_string (d_codec D) sig)"
    using assms(8) by (simp add: pk_signature_def codec_laws.length_ssh_string [OF assms(1)])
  define enc1 where "enc1 = enc\<lparr>
      e_write := push_packet (d_codec D) (e_write enc)
        ([MSG_USERAUTH_PK_OK] @ ssh_string (d_codec D) algo1 @ ssh_string (d_codec D) key1),
      e_state := WaitingAuthRequest (ar\<lparr> ar_current := Some (CR_PublicKey key1 algo1 True) \<rparr>) \<rparr>"
  have st1: "e_state enc1 = WaitingAuthRequest (ar\<lparr> ar_current := Some (CR_PublicKey key1 algo1 True) \<rparr>)"
    and sid: "e_session_id enc1 = e_session_id enc"
    by (simp_all add: enc1_def)
  have "server_read_auth_request D H h (pk_request (d_codec D) user 0 algo1 key1) (u0, enc) =
      Ok (h1, user, enc1)"
    unfolding codec_laws.pk_probe_run [OF assms(1) refl assms(2-5,13,11)]
    by (simp add: auth_pk_probe_def assms(14) enc1_def Let_def)
  moreover have "server_read_auth_request D H h1
      (pk_request (d_codec D) user 1 algo2 key2 @ pk_signature (d_codec D) algo2 sig) (user, enc1) =
      Ok (h1, user, enc_accept (d_codec D) enc1)"
    unfolding codec_laws.pk_real_run [OF assms(1) refl assms(2,3,6,7) st1 assms(12) one_neq_zero s
        assms(9,10)]
    using assms(15) by (simp add: sent_pk_ok_def sid)
  ultimately show ?thesis by (intro exI [of _ enc1] exI [of _ "enc_accept (d_codec D) enc1"]) simp
qed

text \<open>An application that knows one key of one user, \<open>[5]\<close>, and rejects every other.\<close>

definition demo_pk_app :: "unit handler" where
  "demo_pk_app = (default_handler rfc_codec)\<lparr>
     h_auth_publickey := (\<lambda>h user key.
       Ok (h, if key = PK_Ed25519 [5] then Auth_Accept else Auth_Reject)) \<rparr>"

theorem publickey_not_bound_witness:
  "h_auth_publickey demo_pk_app () [97] (PK_Ed25519 [6]) = Ok ((), Auth_Reject) \<and>
   (\<exists>enc1 enc2.
    server_read_auth_request demo_deps demo_pk_app () (pk_request rfc_codec [97] 0 [1] [5]) ([], demo_waiting) =
      Ok ((), [97], enc1) \<and>
    server_read_auth_request demo_deps demo_pk_app ()
      (pk_request rfc_codec [97] 1 [1] [6] @ pk_signature rfc_codec [1]
        ([6] @ rfc_string [9] @ pk_request rfc_codec [97] 1 [1] [6])) ([97], enc1) =
      Ok ((), [97], enc2) \<and>
    e_state enc2 = InitCompression)"
proof -
  have sid: "e_session_id demo_waiting = [9]"
    by (simp add: demo_waiting_def encrypted_new_def demo_new_keys_def)
  have str: "ssh_string rfc_codec = rfc_string" by (simp add: rfc_codec_def)
  have l: "length (pk_request rfc_codec [97] 1 [1] [6]) = 48"
    using rfc.length_ssh_string by (simp add: pk_request_def userauth_request_def)
  have "short ([6] @ rfc_string [9] @ pk_request rfc_codec [97] 1 [1] [6])"
    "short (pk_signature rfc_codec [1] ([6] @ rfc_string [9] @ pk_request rfc_codec [97] 1 [1] [6]))"
    using rfc.length_ssh_string by (simp_all add: l pk_signature_def str [symmetric])
  note s = this
  have k: "parse_key (d_keys demo_deps) [1] x = Ok (PK_Ed25519 x)" for x by (simp add: demo_deps_def)
  have h: "h_auth_publickey demo_pk_app () [97] (PK_Ed25519 [5]) = Ok ((), Auth_Accept)"
    by (simp add: demo_pk_app_def)
  have v: "verify_client_auth (d_keys demo_deps) (PK_Ed25519 [6]) b ([6] @ b)" for b
    by (simp add: demo_deps_def)
  have "\<exists>enc1 enc2.
      server_read_auth_request demo_deps demo_pk_app () (pk_request rfc_codec [97] 0 [1] [5]) ([], demo_waiting) =
        Ok ((), [97], enc1) \<and>
      server_read_auth_request demo_deps demo_pk_app ()
        (pk_request rfc_codec [97] 1 [1] [6] @ pk_signature rfc_codec [1]
          ([6] @ rfc_string [9] @ pk_request rfc_codec [97] 1 [1] [6])) ([97], enc1) =
        Ok ((), [97], enc2) \<and>
      e_state enc2 = InitCompression"
    by (rule publickey_not_bound [where D = demo_deps, unfolded d_codec_demo,
          OF rfc.codec_laws_axioms _ _ _ _ _ _ s(2) _ s(1) k k demo_waiting_state(1) h])
      (simp_all add: sid str v [simplified])
  then show ?thesis by (simp add: demo_pk_app_def)
qed

section \<open>Challenges\<close>

text \<open>
  C34. A client whose answers to a challenge the application accepts is told so, but is not let in:
  the success message is queued while the session still waits for an authentication request, so
  whatever the client does next on its connection, opening a channel for example, is silently
  dropped.
\<close>

theorem challenge_success_not_recorded:
  assumes "codec_laws (d_codec D)" and "ss_encrypted s = Some enc" and "e_rekey enc = None"
    and "e_state enc = WaitingAuthRequest ar" and "ar_current ar = Some (CR_KeyboardInteractive sm)"
    and "h_auth_keyboard_interactive H h (auth_user (ss_common s)) sm
           (Some \<lparr> rs_buf = [MSG_USERAUTH_INFO_RESPONSE] @ u32_be (d_codec D) n @ answers,
                   rs_pos = 5, rs_n = n \<rparr>) = Ok (h', Auth_Accept)"
  shows "\<exists>s'. server_read_encrypted D W H h
      ([MSG_USERAUTH_INFO_RESPONSE] @ u32_be (d_codec D) n @ answers) s = Ok (h', s') \<and>
    ss_encrypted s' = Some (enc\<lparr> e_write := e_write enc @ frame (d_codec D) [MSG_USERAUTH_SUCCESS] \<rparr>) \<and>
    server_read_encrypted D W H h' (MSG_CHANNEL_OPEN # request) s' = Ok (h', s')"
proof -
  let ?C = "d_codec D"
  let ?b = "[MSG_USERAUTH_INFO_RESPONSE] @ u32_be ?C n @ answers"
  let ?wr = "e_write enc @ frame ?C [MSG_USERAUTH_SUCCESS]"
  let ?enc = "enc\<lparr> e_write := ?wr, e_state := WaitingAuthRequest ar \<rparr>"
  have enc: "?enc = enc\<lparr> e_write := ?wr \<rparr>" using assms(4) by (cases enc) simp
  have "drop 1 ?b = u32_be ?C n @ answers" by simp
  note r = codec_laws.read_u32_at(1) [OF assms(1) this]
  have i: "read_userauth_info_response D H h (e_write enc) ar (auth_user (ss_common s)) ?b =
      Ok (h', True, ar, ?wr)"
    unfolding read_userauth_info_response_def Let_def assms(5)
    using assms(6) r by (simp add: server_auth_request_success_def)
  have "server_read_encrypted D W H h ?b s = Ok (h', ss_set_encrypted ?enc s)"
    unfolding server_read_encrypted_def server_read_service_def Let_def assms(2-4)
    using i by (simp add: index_def assms(3,4))
  moreover have "server_read_encrypted D W H h' (MSG_CHANNEL_OPEN # request) (ss_set_encrypted ?enc s) =
      Ok (h', ss_set_encrypted ?enc s)"
    unfolding server_read_encrypted_def server_read_service_def Let_def ss_set_encrypted_def
    using assms(3) by (simp add: index_def)
  ultimately show ?thesis unfolding enc by (intro exI conjI) (auto simp: ss_set_encrypted_def)
qed

definition demo_ki_app :: "unit handler" where
  "demo_ki_app = (default_handler rfc_codec)\<lparr>
     h_auth_keyboard_interactive := (\<lambda>h user sm r. Ok (h, Auth_Accept)) \<rparr>"

definition demo_challenged :: server_session where
  "demo_challenged = ss_set_encrypted (demo_waiting\<lparr> e_state := WaitingAuthRequest
     \<lparr> ar_methods = ms_all, ar_partial_success = False,
       ar_current = Some (CR_KeyboardInteractive []), ar_rejection_count = 0 \<rparr> \<rparr>) demo_session"

theorem challenge_success_not_recorded_witness:
  "\<exists>s'. server_read_encrypted demo_deps demo_now demo_ki_app ()
      ([MSG_USERAUTH_INFO_RESPONSE] @ u32_be rfc_codec 0) demo_challenged = Ok ((), s') \<and>
    server_read_encrypted demo_deps demo_now demo_ki_app () [MSG_CHANNEL_OPEN] s' = Ok ((), s')"
proof -
  obtain enc where e: "ss_encrypted demo_challenged = Some enc" "e_rekey enc = None"
    "e_state enc = WaitingAuthRequest \<lparr> ar_methods = ms_all, ar_partial_success = False,
       ar_current = Some (CR_KeyboardInteractive []), ar_rejection_count = 0 \<rparr>"
    by (simp add: demo_challenged_def ss_set_encrypted_def demo_waiting_def encrypted_new_def)
  have h: "h_auth_keyboard_interactive demo_ki_app () u sm r = Ok ((), Auth_Accept)" for u sm r
    by (simp add: demo_ki_app_def)
  from challenge_success_not_recorded [where D = demo_deps and W = demo_now and answers = "[]" and
      n = 0 and request = "[]", OF _ e _ h] rfc.codec_laws_axioms
  show ?thesis by auto
qed

section \<open>Attempts\<close>

text \<open>The packets of a client that keeps trying passwords.\<close>

fun try_passwords ::
  "deps \<Rightarrow> 'h handler \<Rightarrow> bytes \<Rightarrow> bytes list \<Rightarrow> 'h \<times> auth_state \<Rightarrow> ('h \<times> auth_state) res" where
  "try_passwords D H user [] st = Ok st"
| "try_passwords D H user (p # ps) (h, st) =
     rbind (server_read_auth_request D H h (password_request (d_codec D) 1 user p) st) (try_passwords D H user ps)"

text \<open>
  The number of attempts is not limited. The server counts the rejections, but whatever
  \<^verbatim>\<open>max_auth_attempts\<close> says, after any number of wrong passwords the application is asked about
  the next one, and can let the client in.
\<close>

lemma attempts_not_limited:
  assumes "codec_laws (d_codec D)" and "utf8_valid user" and "short user"
    and "\<forall>p \<in> set wrong. utf8_valid p \<and> short p \<and> h_auth_password H h user p = Ok (h, Auth_Reject)"
    and "e_state enc = WaitingAuthRequest ar"
  shows "\<exists>enc' ar'. try_passwords D H user wrong (h, u0, enc) = Ok (h, (if wrong = [] then u0 else []), enc') \<and>
    e_state enc' = WaitingAuthRequest ar' \<and>
    ar_rejection_count ar' = ar_rejection_count ar + length wrong"
  using assms(4,5)
proof (induction wrong arbitrary: u0 enc ar)
  case Nil
  then show ?case by simp
next
  case (Cons p ps)
  let ?ar = "ar\<lparr> ar_methods := ms_minus (ar_methods ar) MS_PASSWORD, ar_partial_success := False \<rparr>"
  have p: "utf8_valid p" "short p" "h_auth_password H h user p = Ok (h, Auth_Reject)"
    using Cons.prems(1) by auto
  have "server_read_auth_request D H h (password_request (d_codec D) 1 user p) (u0, enc) =
      Ok (h, [], enc_reject (d_codec D) ?ar enc)"
    by (simp add: codec_laws.password_request_run [OF assms(1) refl assms(2,3) p(1,2) Cons.prems(2) p(3)])
  moreover have "e_state (enc_reject (d_codec D) ?ar enc) =
      WaitingAuthRequest (snd (reject_auth_request (d_codec D) (e_write enc) ?ar))"
    by (simp add: enc_reject_def reject_auth_request_def)
  ultimately show ?case
    using Cons.IH [OF _ \<open>e_state (enc_reject (d_codec D) ?ar enc) = _\<close>, where ?u0.0 = "[]"] Cons.prems(1)
    by (auto simp: reject_auth_request_def)
qed

end
