(* ===== verification/Channel_Dialogue.thy ===== *)
theory Channel_Dialogue
  imports Server_Auth_Props
begin

unbundle bit_operations_syntax

text \<open>
  What the server makes of the channel messages of RFC 4254, and of packets that are not authentic.
\<close>

section \<open>Opening a session\<close>

text \<open>
  A client that opens a session gets a channel, as long as one of the \<open>2 ^ 32\<close> numbers is free:
  the channel has a number no open channel has, remembers the client's number, window and packet
  size, is confirmed to the client with both numbers and the server's window, and the
  application is told; nothing else of the session changes.
\<close>

lemma session_channel_opened:
  assumes "codec_laws (d_codec D)" and "ss_encrypted s = Some enc" and "channels enc free = None"
  shows "\<exists>n. channels enc n = None \<and>
    server_handle_channel_open D H h ([MSG_CHANNEL_OPEN] @ ssh_string (d_codec D) (ascii ''session'') @
        u32_be (d_codec D) sender @ u32_be (d_codec D) window @ u32_be (d_codec D) maxpacket) s =
      h_event H h (SE_channel_open_session n) (ss_set_encrypted (enc\<lparr>
        last_channel_id := n,
        e_write := e_write enc @ frame (d_codec D) ([MSG_CHANNEL_OPEN_CONFIRMATION] @
          u32_be (d_codec D) sender @ u32_be (d_codec D) n @
          u32_be (d_codec D) (sc_window_size (ss_config s)) @
          u32_be (d_codec D) (sc_maximum_packet_size (ss_config s))),
        channels := (channels enc)(n \<mapsto> \<lparr> recipient_channel = sender, sender_channel = n,
          recipient_window_size = window, sender_window_size = sc_window_size (ss_config s),
          recipient_maximum_packet_size = maxpacket,
          sender_maximum_packet_size = sc_maximum_packet_size (ss_config s),
          confirmed = True, ch_wants_reply = False, pending_data = [] \<rparr>) \<rparr>) s)"
proof -
  let ?C = "d_codec D"
  let ?b = "[MSG_CHANNEL_OPEN] @ ssh_string ?C (ascii ''session'') @
        u32_be ?C sender @ u32_be ?C window @ u32_be ?C maxpacket"
  have "drop 1 ?b = ssh_string ?C (ascii ''session'') @ u32_be ?C sender @ u32_be ?C window @
      u32_be ?C maxpacket" by simp
  moreover have "length (ascii ''session'') < 2 ^ 32" by simp
  ultimately have r1: "read_string ?C ?b 1 = Ok (ascii ''session'', 1 + 4 + length (ascii ''session''))"
    and d1: "drop (1 + 4 + length (ascii ''session'')) ?b = u32_be ?C sender @ u32_be ?C window @ u32_be ?C maxpacket"
    by (rule codec_laws.read_string_at [OF assms(1)])+
  note r2 = codec_laws.read_u32_at [OF assms(1) d1]
  note r3 = codec_laws.read_u32_at [OF assms(1) r2(2)]
  have "drop (1 + 4 + length (ascii ''session'') + 4 + 4) ?b = u32_be ?C maxpacket @ []" using r3(2) by simp
  note r4 = codec_laws.read_u32_at [OF assms(1) this]
  obtain n where f: "free_channel_id (channels enc) (last_channel_id enc + 1) = Some n"
    and n: "channels enc n = None"
    using assms(3) by (rule free_channel_id_some [where chs = "channels enc"])
  show ?thesis
  proof (intro exI conjI)
    show "channels enc n = None" by (rule n)
    show "server_handle_channel_open D H h ?b s =
      h_event H h (SE_channel_open_session n) (ss_set_encrypted (enc\<lparr>
        last_channel_id := n,
        e_write := e_write enc @ frame ?C ([MSG_CHANNEL_OPEN_CONFIRMATION] @
          u32_be ?C sender @ u32_be ?C n @ u32_be ?C (sc_window_size (ss_config s)) @
          u32_be ?C (sc_maximum_packet_size (ss_config s))),
        channels := (channels enc)(n \<mapsto> \<lparr> recipient_channel = sender, sender_channel = n,
          recipient_window_size = window, sender_window_size = sc_window_size (ss_config s),
          recipient_maximum_packet_size = maxpacket,
          sender_maximum_packet_size = sc_maximum_packet_size (ss_config s),
          confirmed = True, ch_wants_reply = False, pending_data = [] \<rparr>) \<rparr>) s)"
      unfolding server_handle_channel_open_def Let_def r1 rbind.simps prod.case r2(1) r3(1) r4(1)
        assms(2) option.case new_channel_id_def f
      by (simp add: confirm_channel_open_def ss_with_enc_def ss_set_encrypted_def
          server_confirm_channel_open_def)
  qed
qed

section \<open>Windows\<close>

text \<open>
  A client that grants more than \<open>2 ^ 32 - 1\<close> bytes on a channel overflows the window the
  server keeps for it: the addition is not checked, and panics where overflow is checked. A grant
  for a channel that does not exist ends the connection with an error, and every other grant is
  added and reported to the application.
\<close>

lemma window_adjust_outcome:
  assumes "codec_laws (d_codec D)" and "ss_encrypted s = Some enc"
  shows "server_window_adjust D H h ([MSG_CHANNEL_WINDOW_ADJUST] @ u32_be (d_codec D) ch @
      u32_be (d_codec D) amount) s =
    (case channels enc ch of
       None \<Rightarrow> Err (Thrussh E_WrongChannel)
     | Some c \<Rightarrow>
         let sum = as_usize (recipient_window_size c) + as_usize amount in
         if 2 ^ 32 \<le> sum then Panic
         else h_event H h (SE_window_adjusted ch sum) (ss_set_encrypted (enc\<lparr> channels :=
           (channels enc)(ch \<mapsto> c\<lparr> recipient_window_size := as_u32 sum \<rparr>) \<rparr>) s))"
proof -
  let ?C = "d_codec D"
  let ?b = "[MSG_CHANNEL_WINDOW_ADJUST] @ u32_be ?C ch @ u32_be ?C amount"
  have "drop 1 ?b = u32_be ?C ch @ u32_be ?C amount @ []" by simp
  note r1 = codec_laws.read_u32_at [OF assms(1) this]
  note r2 = codec_laws.read_u32_at [OF assms(1) r1(2)]
  have sum: "as_usize (a + b) = as_usize a + as_usize b" if "\<not> 2 ^ 32 \<le> as_usize a + as_usize b" for a b
    using that by (simp add: unat_plus_simple [THEN iffD1] no_olen_add_nat)
  show ?thesis
    unfolding server_window_adjust_def enc_add_window_def Let_def r1(1) r2(1) rbind.simps prod.case assms(2) option.case
    by (auto simp: sum split: option.split)
qed

section \<open>Packets that are not authentic\<close>

text \<open>
  C35. The server acts on packets that are not authentic. When the code of a packet does not
  verify, \<^verbatim>\<open>cipher::read\<close> refuses it, but the loop of the server does not look at that result: it
  takes the bytes left in the buffer, which were not decrypted, for a packet, and handles it as if
  the client had sent it. Who can change bytes on the wire thus writes messages of his own choice
  in clear text into an encrypted connection.
\<close>

theorem forged_packet_is_handled:
  assumes "remote_to_local (cs_cipher (ss_common s)) = O_Chacha key" and "length enc_len = 4"
    and "length (pad # m # msg) = unat (be_u32 (d_codec D)
           (decrypt_packet_length (d_codec D) (d_sodium D) (O_Chacha key) (sb_seqn rb) enc_len))"
    and "length tag = TAG_LEN"
    and "\<not> poly1305_verify (d_sodium D) tag (enc_len @ pad # m # msg) (chacha20_xor (d_sodium D)
           (replicate 32 0) (make_counter (d_codec D) (d_sodium D) (sb_seqn rb)) (ok_k2 key))"
    and "ss_encrypted s = Some enc" and "e_decompress enc = D_None" and "4 < m"
  shows "server_read_round D W H (enc_len @ (pad # m # msg) @ tag @ rest) rb h s =
    rbind (server_reply D W H h (m # msg @ tag) s) (\<lambda>(h', s').
    rbind (server_end_round D W s') (\<lambda>(sent, s'').
    Ok (Done (sent, rest, rb\<lparr> sb_buffer := [] \<rparr>, h', s''))))"
proof -
  let ?buf = "enc_len @ (pad # m # msg) @ tag"
  have r: "cipher_read (d_codec D) (d_sodium D) (cs_cipher (ss_common s)) (?buf @ rest) rb =
      (Err (Thrussh E_PacketAuth), rest, rb\<lparr> sb_buffer := ?buf \<rparr>)"
    using cipher_read_refuses [OF assms(1-3) assms(4,5)] by simp
  have same: "ss_set_encrypted (enc\<lparr> e_decompress := D_None \<rparr>) s = s"
    using assms(6,7) unfolding ss_set_encrypted_def
    by (cases s; cases "ss_common s"; cases enc) simp
  have "drop 5 ?buf = m # msg @ tag" using assms(2) by simp
  moreover have "\<not> m \<le> 4" "m \<noteq> MSG_DISCONNECT" using assms(8) by auto
  ultimately have p: "server_on_packet D W H h ?buf s = rmap Done (server_reply D W H h (m # msg @ tag) s)"
    unfolding server_on_packet_def assms(6) option.case assms(7) decompress_packet_def decompress.case
    using assms(2) by (simp add: same)
  show ?thesis
    unfolding server_read_round_def r [simplified append_assoc] append_assoc prod.case
    using p by (cases "server_reply D W H h (m # msg @ tag) s") (auto split: prod.splits)
qed

text \<open>A client whose connection uses ChaCha20-Poly1305, and a packet with a wrong tag.\<close>

definition demo_cipher_session :: server_session where
  "demo_cipher_session = (let s = ss_set_encrypted demo_enc demo_session in
     s\<lparr> ss_common := (ss_common s)\<lparr> cs_cipher :=
       \<lparr> local_to_remote = S_Clear, remote_to_local = O_Chacha \<lparr> ok_k1 = [], ok_k2 = [] \<rparr> \<rparr> \<rparr> \<rparr>)"

lemma demo_forged_outcome:
  "case server_reply demo_deps demo_now (logged demo_app) ((), [])
      (MSG_CHANNEL_EOF # [0, 0, 0, 2] @ replicate 16 9) demo_cipher_session of
     Ok ((h, l), s) \<Rightarrow> l = [L_Call] \<and> is_ok (server_end_round demo_deps demo_now s) | _ \<Rightarrow> False"
  by code_simp

theorem forged_packet_is_handled_witness:
  "\<exists>sent s. server_read_round demo_deps demo_now (logged demo_app)
      ([0, 0, 0, 6] @ [4, MSG_CHANNEL_EOF, 0, 0, 0, 2] @ replicate 16 9) sshbuffer_new ((), [])
      demo_cipher_session =
    Ok (Done (sent, [], sshbuffer_new\<lparr> sb_buffer := [] \<rparr>, ((), [L_Call]), s))"
proof -
  have d: "d_codec demo_deps = rfc_codec" "d_sodium demo_deps = demo_sodium" by (simp_all add: demo_deps_def)
  have c: "remote_to_local (cs_cipher (ss_common demo_cipher_session)) = O_Chacha \<lparr> ok_k1 = [], ok_k2 = [] \<rparr>"
    "ss_encrypted demo_cipher_session = Some demo_enc" "e_decompress demo_enc = D_None"
    by (simp_all add: demo_cipher_session_def ss_set_encrypted_def demo_enc_def encrypted_new_def)
  have l: "length [4, MSG_CHANNEL_EOF, 0, 0, 0, 2] = unat (be_u32 rfc_codec
      (decrypt_packet_length rfc_codec demo_sodium (O_Chacha \<lparr> ok_k1 = [], ok_k2 = [] \<rparr>)
        (sb_seqn sshbuffer_new) [0, 0, 0, 6]))" by code_simp
  have v: "\<not> poly1305_verify demo_sodium (replicate 16 9) ([0, 0, 0, 6] @ [4, MSG_CHANNEL_EOF, 0, 0, 0, 2])
      (chacha20_xor demo_sodium (replicate 32 0) (make_counter rfc_codec demo_sodium (sb_seqn sshbuffer_new)) [])"
    by code_simp
  obtain s where s: "server_reply demo_deps demo_now (logged demo_app) ((), [])
      (MSG_CHANNEL_EOF # [0, 0, 0, 2] @ replicate 16 9) demo_cipher_session = Ok (((), [L_Call]), s)"
    and e: "is_ok (server_end_round demo_deps demo_now s)"
    using demo_forged_outcome by (auto split: res.splits)
  obtain sent s' where e': "server_end_round demo_deps demo_now s = Ok (sent, s')"
    using e by (cases "server_end_round demo_deps demo_now s") auto
  have g: "(4 :: u8) < MSG_CHANNEL_EOF" by simp
  have t: "length (replicate 16 (9 :: u8)) = TAG_LEN" by (simp add: TAG_LEN_def)
  have "length [0, 0, 0, 6 :: u8] = 4" by simp
  from forged_packet_is_handled [where D = demo_deps and W = demo_now and H = "logged demo_app" and
      h = "((), [])" and rest = "[]" and pad = 4 and m = MSG_CHANNEL_EOF and msg = "[0, 0, 0, 2]" and
      rb = sshbuffer_new, unfolded d, OF c(1) this l t _ c(2,3) g] v s e'
  show ?thesis by (auto simp del: replicate.simps)
qed

end
