(* ===== verification/Requests.thy ===== *)
theory Requests
  imports Client Server_Auth_Props
begin

unbundle bit_operations_syntax

text \<open>
  The requests of a client on its channels, and what the server makes of them: every request but
  one is handed to the application with the arguments the client gave.
\<close>

section \<open>Terminal modes\<close>

lemma client_modes_simps:
  "client_modes C [] = [0]"
  "client_modes C ((m, v) # ms) = pty_code m # u32_be C v @ client_modes C ms"
  by (simp_all add: client_modes_def)

lemma pty_modes_loop_encoded:
  assumes "codec_laws C" and "\<forall>(m, v) \<in> set ms. m \<noteq> PTY_TTY_OP_END"
    and "drop (5 * i) buf = client_modes C ms" and "5 * i < length buf"
  shows "i \<le> length arr \<Longrightarrow> pty_modes_loop C buf i arr =
    (if i + length ms \<le> length arr
     then Ok (i + length ms, take i arr @ ms @ drop (i + length ms) arr) else Panic)"
  using assms(2-4)
proof (induction ms arbitrary: i arr)
  case Nil
  then have "buf ! (5 * i) = 0"
    by (metis client_modes_simps(1) hd_drop_conv_nth list.sel(1))
  with Nil show ?case by (subst pty_modes_loop.simps) simp
next
  case (Cons mv ms)
  obtain m v where mv: "mv = (m, v)" by (cases mv)
  have m: "m \<noteq> PTY_TTY_OP_END" using Cons.prems(2) mv by simp
  have d: "drop (5 * i) buf = pty_code m # u32_be C v @ client_modes C ms"
    using Cons.prems(3) by (simp add: mv client_modes_simps)
  then have code: "buf ! (5 * i) = pty_code m"
    using Cons.prems(4) by (metis hd_drop_conv_nth list.sel(1))
  have d1: "drop (5 * i + 1) buf = u32_be C v @ client_modes C ms"
    using drop_eq_append_imp [of "5 * i" buf "[pty_code m]"] d by simp
  have d5: "drop (5 * (i + 1)) buf = client_modes C ms"
    using drop_eq_append_imp [OF d1] by (simp add: codec_laws.len_u32_be [OF assms(1)] add.commute)
  have lt: "5 * (i + 1) < length buf"
  proof (rule ccontr)
    assume "\<not> 5 * (i + 1) < length buf"
    then have "drop (5 * (i + 1)) buf = []" by simp
    with d5 show False by (simp add: client_modes_def)
  qed
  have len: "\<not> length (drop (5 * i + 1) buf) < 4"
    unfolding d1 by (simp add: codec_laws.len_u32_be [OF assms(1)])
  have step: "pty_modes_loop C buf i arr =
      (if i < length arr then pty_modes_loop C buf (i + 1) (arr[i := (m, v)]) else Panic)"
    using Cons.prems(4) m len
    by (subst pty_modes_loop.simps)
      (simp add: code pty_code_nonzero pty_from_code Let_def d1 [simplified] codec_laws.be_u32_u32_be [OF assms(1)])
  show ?case
  proof (cases "i < length arr")
    case True
    then have "pty_modes_loop C buf i arr = pty_modes_loop C buf (i + 1) (arr[i := (m, v)])"
      by (simp add: step)
    also have "\<dots> = (if i + 1 + length ms \<le> length arr
        then Ok (i + 1 + length ms, take (i + 1) (arr[i := (m, v)]) @ ms @ drop (i + 1 + length ms) (arr[i := (m, v)]))
        else Panic)"
      using Cons.IH [of "i + 1" "arr[i := (m, v)]"] Cons.prems(2) True d5 lt by simp
    finally show ?thesis using True by (simp add: mv take_Suc_conv_app_nth)
  next
    case False
    then have "pty_modes_loop C buf i arr = Panic" by (simp add: step)
    moreover have "\<not> i + length (mv # ms) \<le> length arr" using False by simp
    ultimately show ?thesis by simp
  qed
qed

lemma pty_modes_encoded_eq:
  assumes "codec_laws C" and "\<forall>(m, v) \<in> set ms. m \<noteq> PTY_TTY_OP_END"
  shows "pty_modes C (client_modes C ms) = (if length ms \<le> 130 then Ok ms else Panic)"
proof -
  have "0 < length (client_modes C ms)" by (simp add: client_modes_def)
  then show ?thesis
    unfolding pty_modes_def
    using pty_modes_loop_encoded [OF assms, of 0 "client_modes C ms" "replicate 130 (PTY_TTY_OP_END, 0)"]
    by (auto simp del: replicate.simps)
qed

lemma pty_modes_encoded:
  "codec_laws C \<Longrightarrow> \<forall>(m, v) \<in> set ms. m \<noteq> PTY_TTY_OP_END \<Longrightarrow> length ms \<le> 130 \<Longrightarrow>
   pty_modes C (client_modes C ms) = Ok ms"
  using pty_modes_encoded_eq by simp

section \<open>Requests that reach the application\<close>

text \<open>The packet of a request.\<close>

definition request_body :: "codec \<Rightarrow> u32 \<Rightarrow> bytes \<Rightarrow> bool \<Rightarrow> bytes \<Rightarrow> bytes" where
  "request_body C n name w args =
     [MSG_CHANNEL_REQUEST] @ u32_be C n @ ssh_string C name @ [if w then 1 else 0] @ args"

lemma client_request_queued:
  assumes "cl_encrypted s = Some enc" and "channels enc ch = Some c"
  shows "cl_with_enc (enc_client_request C ch name w args) s =
    cl_set_encrypted (enc_push C (request_body C (recipient_channel c) name w args) enc) s"
  using assms by (simp add: cl_with_enc_def enc_client_request_def request_body_def)

lemma request_head:
  assumes "codec_laws C" and "short name"
  obtains p1 p2 p3 where "read_u32 C (request_body C n name w args) 1 = Ok (n, p1)"
    and "read_string C (request_body C n name w args) p1 = Ok (name, p2)"
    and "read_byte C (request_body C n name w args) p2 = Ok (if w then 1 else 0, p3)"
    and "drop p3 (request_body C n name w args) = args"
proof -
  let ?b = "request_body C n name w args"
  have "drop 1 ?b = u32_be C n @ ssh_string C name @ (if w then 1 else 0) # args"
    by (simp add: request_body_def)
  then obtain p1 where 1: "read_u32 C ?b 1 = Ok (n, p1)"
    and "drop p1 ?b = ssh_string C name @ (if w then 1 else 0) # args"
    by (rule codec_laws.read_u32_ex [OF assms(1)])
  then obtain p2 where 2: "read_string C ?b p1 = Ok (name, p2)"
    and "drop p2 ?b = (if w then 1 else 0) # args"
    using assms(2) by (metis codec_laws.read_string_ex [OF assms(1)])
  then obtain p3 where "read_byte C ?b p2 = Ok (if w then 1 else 0, p3)" "drop p3 ?b = args"
    by (metis codec_laws.read_byte_ex [OF assms(1)])
  with 1 2 that show thesis by blast
qed

text \<open>What the server does before it looks at the arguments.\<close>

abbreviation wants :: "u32 \<Rightarrow> bool \<Rightarrow> server_session \<Rightarrow> server_session" where
  "wants n w ss \<equiv> ss_with_enc (enc_wants_reply n w) ss"

lemma read_authenticated_request:
  "server_read_authenticated D W H h (request_body C n name w args) ss =
   server_channel_request D H h (request_body C n name w args) ss"
  by (simp add: server_read_authenticated_def request_body_def index_def)

context codec_laws
begin

lemma shell_request:
  assumes "d_codec D = C"
  shows "server_channel_request D H h (request_body C n (ascii ''shell'') w ([])) ss =
    h_event H h (SE_shell_request n) (wants n w ss)"
proof -
  define b where "b = request_body C n (ascii ''shell'') w ([])"
  obtain p1 p2 p3 where r: "read_u32 C b 1 = Ok (n, p1)" "read_string C b p1 = Ok (ascii ''shell'', p2)"
      "read_byte C b p2 = Ok (if w then 1 else 0, p3)" and d3: "drop p3 b = []"
    by (rule request_head [OF codec_laws_axioms, of "ascii ''shell''" n w "[]", folded b_def]) simp_all
  show ?thesis
    unfolding b_def [symmetric] server_channel_request_def Let_def assms(1) r rbind.simps prod.case by (cases w) simp_all
qed

lemma exec_request:
  assumes "d_codec D = C" and "short command"
  shows "server_channel_request D H h (request_body C n (ascii ''exec'') w (ssh_string C command)) ss =
    h_event H h (SE_exec_request n command) (wants n w ss)"
proof -
  define b where "b = request_body C n (ascii ''exec'') w (ssh_string C command)"
  obtain p1 p2 p3 where r: "read_u32 C b 1 = Ok (n, p1)" "read_string C b p1 = Ok (ascii ''exec'', p2)"
      "read_byte C b p2 = Ok (if w then 1 else 0, p3)" and d3: "drop p3 b = ssh_string C command"
    by (rule request_head [OF codec_laws_axioms, of "ascii ''exec''" n w "ssh_string C command", folded b_def]) simp_all
  from d3 have d3n: "drop p3 b = ssh_string C command @ []" by simp
  obtain p4 where a4: "read_string C b p3 = Ok (command, p4)" and d4: "drop p4 b = []"
    by (rule read_string_ex [OF d3n assms(2)])
  show ?thesis
    unfolding b_def [symmetric] server_channel_request_def Let_def assms(1) r rbind.simps prod.case
    by (cases w) (simp_all add: a4)
qed

lemma subsystem_request:
  assumes "d_codec D = C" and "short name" and "utf8_valid name"
  shows "server_channel_request D H h (request_body C n (ascii ''subsystem'') w (ssh_string C name)) ss =
    h_event H h (SE_subsystem_request n name) (wants n w ss)"
proof -
  define b where "b = request_body C n (ascii ''subsystem'') w (ssh_string C name)"
  obtain p1 p2 p3 where r: "read_u32 C b 1 = Ok (n, p1)" "read_string C b p1 = Ok (ascii ''subsystem'', p2)"
      "read_byte C b p2 = Ok (if w then 1 else 0, p3)" and d3: "drop p3 b = ssh_string C name"
    by (rule request_head [OF codec_laws_axioms, of "ascii ''subsystem''" n w "ssh_string C name", folded b_def]) simp_all
  from d3 have d3n: "drop p3 b = ssh_string C name @ []" by simp
  obtain p4 where a4: "read_str C b p3 = Ok (name, p4)" and d4: "drop p4 b = []"
    by (rule read_str_ex [OF d3n assms(2,3)])
  show ?thesis
    unfolding b_def [symmetric] server_channel_request_def Let_def assms(1) r rbind.simps prod.case
    by (cases w) (simp_all add: a4)
qed

lemma env_request:
  assumes "d_codec D = C" and "short name" and "utf8_valid name" and "short val" and "utf8_valid val"
  shows "server_channel_request D H h (request_body C n (ascii ''env'') w (ssh_string C name @ ssh_string C val)) ss =
    h_event H h (SE_env_request n name val) (wants n w ss)"
proof -
  define b where "b = request_body C n (ascii ''env'') w (ssh_string C name @ ssh_string C val)"
  obtain p1 p2 p3 where r: "read_u32 C b 1 = Ok (n, p1)" "read_string C b p1 = Ok (ascii ''env'', p2)"
      "read_byte C b p2 = Ok (if w then 1 else 0, p3)" and d3: "drop p3 b = ssh_string C name @ ssh_string C val"
    by (rule request_head [OF codec_laws_axioms, of "ascii ''env''" n w "ssh_string C name @ ssh_string C val", folded b_def]) simp_all
  obtain p4 where a4: "read_str C b p3 = Ok (name, p4)" and d4: "drop p4 b = ssh_string C val"
    by (rule read_str_ex [OF d3 assms(2,3)])
  from d4 have d4n: "drop p4 b = ssh_string C val @ []" by simp
  obtain p5 where a5: "read_str C b p4 = Ok (val, p5)" and d5: "drop p5 b = []"
    by (rule read_str_ex [OF d4n assms(4,5)])
  show ?thesis
    unfolding b_def [symmetric] server_channel_request_def Let_def assms(1) r rbind.simps prod.case
    by (cases w) (simp_all add: a4 a5)
qed

lemma window_change_request:
  assumes "d_codec D = C"
  shows "server_channel_request D H h (request_body C n (ascii ''window-change'') w (u32_be C cw @ u32_be C rh @ u32_be C pw @ u32_be C ph)) ss =
    h_event H h (SE_window_change_request n cw rh pw ph) (wants n w ss)"
proof -
  define b where "b = request_body C n (ascii ''window-change'') w (u32_be C cw @ u32_be C rh @ u32_be C pw @ u32_be C ph)"
  obtain p1 p2 p3 where r: "read_u32 C b 1 = Ok (n, p1)" "read_string C b p1 = Ok (ascii ''window-change'', p2)"
      "read_byte C b p2 = Ok (if w then 1 else 0, p3)" and d3: "drop p3 b = u32_be C cw @ u32_be C rh @ u32_be C pw @ u32_be C ph"
    by (rule request_head [OF codec_laws_axioms, of "ascii ''window-change''" n w "u32_be C cw @ u32_be C rh @ u32_be C pw @ u32_be C ph", folded b_def]) simp_all
  obtain p4 where a4: "read_u32 C b p3 = Ok (cw, p4)" and d4: "drop p4 b = u32_be C rh @ u32_be C pw @ u32_be C ph"
    by (rule read_u32_ex [OF d3])
  obtain p5 where a5: "read_u32 C b p4 = Ok (rh, p5)" and d5: "drop p5 b = u32_be C pw @ u32_be C ph"
    by (rule read_u32_ex [OF d4])
  obtain p6 where a6: "read_u32 C b p5 = Ok (pw, p6)" and d6: "drop p6 b = u32_be C ph"
    by (rule read_u32_ex [OF d5])
  from d6 have d6n: "drop p6 b = u32_be C ph @ []" by simp
  obtain p7 where a7: "read_u32 C b p6 = Ok (ph, p7)" and d7: "drop p7 b = []"
    by (rule read_u32_ex [OF d6n])
  show ?thesis
    unfolding b_def [symmetric] server_channel_request_def Let_def assms(1) r rbind.simps prod.case
    by (cases w) (simp_all add: a4 a5 a6 a7)
qed

lemma x11_request:
  assumes "d_codec D = C" and "short protocol" and "utf8_valid protocol" and "short cookie" and "utf8_valid cookie"
  shows "server_channel_request D H h (request_body C n (ascii ''x11-req'') w ([if single then 1 else 0] @ ssh_string C protocol @ ssh_string C cookie @ u32_be C screen)) ss =
    h_event H h (SE_x11_request n single protocol cookie screen) (wants n w ss)"
proof -
  define b where "b = request_body C n (ascii ''x11-req'') w ([if single then 1 else 0] @ ssh_string C protocol @ ssh_string C cookie @ u32_be C screen)"
  obtain p1 p2 p3 where r: "read_u32 C b 1 = Ok (n, p1)" "read_string C b p1 = Ok (ascii ''x11-req'', p2)"
      "read_byte C b p2 = Ok (if w then 1 else 0, p3)" and d3: "drop p3 b = [if single then 1 else 0] @ ssh_string C protocol @ ssh_string C cookie @ u32_be C screen"
    by (rule request_head [OF codec_laws_axioms, of "ascii ''x11-req''" n w "[if single then 1 else 0] @ ssh_string C protocol @ ssh_string C cookie @ u32_be C screen", folded b_def]) simp_all
  from d3 have d3n: "drop p3 b = (if single then 1 else 0) # ssh_string C protocol @ ssh_string C cookie @ u32_be C screen" by simp
  obtain p4 where a4: "read_byte C b p3 = Ok ((if single then 1 else 0), p4)" and d4: "drop p4 b = ssh_string C protocol @ ssh_string C cookie @ u32_be C screen"
    by (rule read_byte_ex [OF d3n])
  obtain p5 where a5: "read_str C b p4 = Ok (protocol, p5)" and d5: "drop p5 b = ssh_string C cookie @ u32_be C screen"
    by (rule read_str_ex [OF d4 assms(2,3)])
  obtain p6 where a6: "read_str C b p5 = Ok (cookie, p6)" and d6: "drop p6 b = u32_be C screen"
    by (rule read_str_ex [OF d5 assms(4,5)])
  from d6 have d6n: "drop p6 b = u32_be C screen @ []" by simp
  obtain p7 where a7: "read_u32 C b p6 = Ok (screen, p7)" and d7: "drop p7 b = []"
    by (rule read_u32_ex [OF d6n])
  show ?thesis
    unfolding b_def [symmetric] server_channel_request_def Let_def assms(1) r rbind.simps prod.case
    by (cases w) (simp_all add: a4 a5 a6 a7)
qed

lemma pty_request:
  assumes "d_codec D = C" and "short t" and "utf8_valid t" and "short modes"
  shows "server_channel_request D H h (request_body C n (ascii ''pty-req'') w (ssh_string C t @ u32_be C cw @ u32_be C rh @ u32_be C pw @ u32_be C ph @ ssh_string C modes)) ss =
    rbind (pty_modes C modes) (\<lambda>ms. h_event H h (SE_pty_request n t cw rh pw ph ms) (wants n w ss))"
proof -
  define b where "b = request_body C n (ascii ''pty-req'') w (ssh_string C t @ u32_be C cw @ u32_be C rh @ u32_be C pw @ u32_be C ph @ ssh_string C modes)"
  obtain p1 p2 p3 where r: "read_u32 C b 1 = Ok (n, p1)" "read_string C b p1 = Ok (ascii ''pty-req'', p2)"
      "read_byte C b p2 = Ok (if w then 1 else 0, p3)" and d3: "drop p3 b = ssh_string C t @ u32_be C cw @ u32_be C rh @ u32_be C pw @ u32_be C ph @ ssh_string C modes"
    by (rule request_head [OF codec_laws_axioms, of "ascii ''pty-req''" n w "ssh_string C t @ u32_be C cw @ u32_be C rh @ u32_be C pw @ u32_be C ph @ ssh_string C modes", folded b_def]) simp_all
  obtain p4 where a4: "read_str C b p3 = Ok (t, p4)" and d4: "drop p4 b = u32_be C cw @ u32_be C rh @ u32_be C pw @ u32_be C ph @ ssh_string C modes"
    by (rule read_str_ex [OF d3 assms(2,3)])
  obtain p5 where a5: "read_u32 C b p4 = Ok (cw, p5)" and d5: "drop p5 b = u32_be C rh @ u32_be C pw @ u32_be C ph @ ssh_string C modes"
    by (rule read_u32_ex [OF d4])
  obtain p6 where a6: "read_u32 C b p5 = Ok (rh, p6)" and d6: "drop p6 b = u32_be C pw @ u32_be C ph @ ssh_string C modes"
    by (rule read_u32_ex [OF d5])
  obtain p7 where a7: "read_u32 C b p6 = Ok (pw, p7)" and d7: "drop p7 b = u32_be C ph @ ssh_string C modes"
    by (rule read_u32_ex [OF d6])
  obtain p8 where a8: "read_u32 C b p7 = Ok (ph, p8)" and d8: "drop p8 b = ssh_string C modes"
    by (rule read_u32_ex [OF d7])
  from d8 have d8n: "drop p8 b = ssh_string C modes @ []" by simp
  obtain p9 where a9: "read_string C b p8 = Ok (modes, p9)" and d9: "drop p9 b = []"
    by (rule read_string_ex [OF d8n assms(4)])
  show ?thesis
    unfolding b_def [symmetric] server_channel_request_def Let_def assms(1) r rbind.simps prod.case
    by (cases w) (simp_all add: a4 a5 a6 a7 a8 a9)
qed

end

text \<open>
  What the application of the server is told of a message of the client's application, when the
  channel has the number \<open>n\<close> at the server, and whether the client wants a reply.
\<close>

fun request_event :: "u32 \<Rightarrow> client_msg \<Rightarrow> (server_event \<times> bool) option" where
  "request_event n (Msg_RequestPty ch w t cw rh pw ph modes) =
     Some (SE_pty_request n t cw rh pw ph modes, w)"
| "request_event n (Msg_RequestX11 ch w single protocol cookie screen) =
     Some (SE_x11_request n single protocol cookie screen, w)"
| "request_event n (Msg_SetEnv ch w name val) = Some (SE_env_request n name val, w)"
| "request_event n (Msg_RequestShell ch w) = Some (SE_shell_request n, w)"
| "request_event n (Msg_Exec ch w command) = Some (SE_exec_request n command, w)"
| "request_event n (Msg_RequestSubsystem ch w name) = Some (SE_subsystem_request n name, w)"
| "request_event n (Msg_WindowChange ch cw rh pw ph) =
     Some (SE_window_change_request n cw rh pw ph, False)"
| "request_event n m = None"

fun request_channel :: "client_msg \<Rightarrow> channel_id" where
  "request_channel (Msg_RequestPty ch w t cw rh pw ph modes) = ch"
| "request_channel (Msg_RequestX11 ch w single protocol cookie screen) = ch"
| "request_channel (Msg_SetEnv ch w name val) = ch"
| "request_channel (Msg_RequestShell ch w) = ch"
| "request_channel (Msg_Exec ch w command) = ch"
| "request_channel (Msg_RequestSubsystem ch w name) = ch"
| "request_channel (Msg_WindowChange ch cw rh pw ph) = ch"
| "request_channel m = 0"

text \<open>
  Arguments that are sound: strings are UTF-8, as the type \<^verbatim>\<open>String\<close> ensures, and fit the length
  field; there are at most 130 terminal modes, and none of them is the end marker.
\<close>

abbreviation sound_string :: "bytes \<Rightarrow> bool" where
  "sound_string s \<equiv> short s \<and> utf8_valid s"

fun request_sound :: "client_msg \<Rightarrow> bool" where
  "request_sound (Msg_RequestPty ch w t cw rh pw ph modes) \<longleftrightarrow>
     sound_string t \<and> length modes \<le> 130 \<and> (\<forall>(m, v) \<in> set modes. m \<noteq> PTY_TTY_OP_END)"
| "request_sound (Msg_RequestX11 ch w single protocol cookie screen) \<longleftrightarrow>
     sound_string protocol \<and> sound_string cookie"
| "request_sound (Msg_SetEnv ch w name val) \<longleftrightarrow> sound_string name \<and> sound_string val"
| "request_sound (Msg_RequestShell ch w) \<longleftrightarrow> True"
| "request_sound (Msg_Exec ch w command) \<longleftrightarrow> short command"
| "request_sound (Msg_RequestSubsystem ch w name) \<longleftrightarrow> sound_string name"
| "request_sound (Msg_WindowChange ch cw rh pw ph) \<longleftrightarrow> True"
| "request_sound m \<longleftrightarrow> True"

lemma client_modes_length:
  "codec_laws C \<Longrightarrow> length (client_modes C ms) = 1 + 5 * length ms"
  by (induction ms) (auto simp: client_modes_simps codec_laws.len_u32_be)

lemma client_modes_string:
  assumes "codec_laws C"
  shows "u32_be C (as_u32 (1 + 5 * length ms)) @ client_modes C ms = ssh_string C (client_modes C ms)"
  by (simp add: codec_laws.ssh_string_eq [OF assms] client_modes_length [OF assms])

lemma client_modes_short: "codec_laws C \<Longrightarrow> length ms \<le> 130 \<Longrightarrow> length (client_modes C ms) < 4294967296"
  by (simp add: client_modes_length)

text \<open>The packet the client queues for a request.\<close>

fun request_packet :: "codec \<Rightarrow> u32 \<Rightarrow> client_msg \<Rightarrow> bytes" where
  "request_packet C n (Msg_RequestPty ch w t cw rh pw ph modes) =
     request_body C n (ascii ''pty-req'') w (ssh_string C t @ u32_be C cw @ u32_be C rh @
       u32_be C pw @ u32_be C ph @ ssh_string C (client_modes C modes))"
| "request_packet C n (Msg_RequestX11 ch w single protocol cookie screen) =
     request_body C n (ascii ''x11-req'') w ([if single then 1 else 0] @ ssh_string C protocol @
       ssh_string C cookie @ u32_be C screen)"
| "request_packet C n (Msg_SetEnv ch w name val) =
     request_body C n (ascii ''env'') w (ssh_string C name @ ssh_string C val)"
| "request_packet C n (Msg_RequestShell ch w) = request_body C n (ascii ''shell'') w []"
| "request_packet C n (Msg_Exec ch w command) =
     request_body C n (ascii ''exec'') w (ssh_string C command)"
| "request_packet C n (Msg_RequestSubsystem ch w name) =
     request_body C n (ascii ''subsystem'') w (ssh_string C name)"
| "request_packet C n (Msg_WindowChange ch cw rh pw ph) =
     request_body C n (ascii ''window-change'') False
       (u32_be C cw @ u32_be C rh @ u32_be C pw @ u32_be C ph)"
| "request_packet C n m = []"

lemma request_sent:
  assumes "codec_laws (d_codec D)" and "cl_encrypted s = Some enc"
    and "channels enc (request_channel m) = Some c"
    and "request_event (recipient_channel c) m \<noteq> None"
  shows "client_on_message D m s =
    Ok (cl_set_encrypted (enc_push (d_codec D) (request_packet (d_codec D) (recipient_channel c) m) enc) s)"
  using assms(2-4) client_modes_string [OF assms(1)]
  by (cases m)
    (simp_all add: client_request_pty_def client_request_x11_def client_set_env_def
      client_request_shell_def client_exec_def client_request_subsystem_def
      client_window_change_def client_request_queued)

lemma pty_request_ok:
  assumes "codec_laws (d_codec D)" and "sound_string t" and "length modes \<le> 130"
    and "\<forall>(m, v) \<in> set modes. m \<noteq> PTY_TTY_OP_END"
  shows "server_channel_request D H h (request_body (d_codec D) n (ascii ''pty-req'') w
      (ssh_string (d_codec D) t @ u32_be (d_codec D) cw @ u32_be (d_codec D) rh @
       u32_be (d_codec D) pw @ u32_be (d_codec D) ph @ ssh_string (d_codec D) (client_modes (d_codec D) modes))) ss =
    h_event H h (SE_pty_request n t cw rh pw ph modes) (wants n w ss)"
proof -
  have "short (client_modes (d_codec D) modes)" using client_modes_short [OF assms(1,3)] by simp
  with assms show ?thesis
    by (simp only: codec_laws.pty_request [OF assms(1) refl] pty_modes_encoded rbind.simps)
qed

lemma request_received:
  assumes "codec_laws (d_codec D)" and "request_event n m = Some (e, w)" and "request_sound m"
  shows "server_read_authenticated D W H h (request_packet (d_codec D) n m) ss =
    h_event H h e (wants n w ss)"
  using assms(2,3)
  by (cases m)
    (auto simp: read_authenticated_request simp del: ascii_Cons
      intro!: codec_laws.shell_request codec_laws.exec_request codec_laws.subsystem_request
        codec_laws.env_request codec_laws.window_change_request codec_laws.x11_request [where single = True, unfolded if_True append.simps]
        codec_laws.x11_request [where single = False, unfolded if_False append.simps]
        pty_request_ok assms(1))


text \<open>
  C36. A client can stop the server with one request: when it asks for a pseudo-terminal with more
  than 130 terminal modes, none of them the end marker, the server panics while it decodes them,
  because it collects them in an array of 130 entries.
\<close>

theorem too_many_modes_panic:
  assumes "codec_laws (d_codec D)" and "cl_encrypted s = Some enc" and "channels enc ch = Some c"
    and "sound_string term_name" and "130 < length modes" and "length modes < 800000000"
    and "\<forall>(m, v) \<in> set modes. m \<noteq> PTY_TTY_OP_END"
  shows "\<exists>body. client_on_message D (Msg_RequestPty ch w term_name cw rh pw ph modes) s =
      Ok (cl_set_encrypted (enc_push (d_codec D) body enc) s) \<and>
    server_read_authenticated D W H h body ss = Panic"
proof -
  let ?C = "d_codec D" and ?n = "recipient_channel c"
  let ?m = "Msg_RequestPty ch w term_name cw rh pw ph modes"
  have "short (client_modes ?C modes)"
    using assms(6) by (simp add: client_modes_length [OF assms(1)])
  moreover have "pty_modes ?C (client_modes ?C modes) = Panic"
    using pty_modes_encoded_eq [OF assms(1,7)] assms(5) by simp
  ultimately have "server_read_authenticated D W H h (request_packet ?C ?n ?m) ss = Panic"
    using assms(4)
    by (simp only: request_packet.simps read_authenticated_request rbind.simps
        codec_laws.pty_request [OF assms(1) refl])
  moreover have "client_on_message D ?m s =
      Ok (cl_set_encrypted (enc_push ?C (request_packet ?C ?n ?m) enc) s)"
    using assms(3) by (intro request_sent [OF assms(1,2)]) simp_all
  ultimately show ?thesis by blast
qed

section \<open>Signals\<close>

text \<open>The length of a short string, and what is read when its first byte is skipped.\<close>

lemma rfc_short_length:
  assumes "n < 256" shows "rfc_u32_be (as_u32 n) = [0, 0, 0, of_nat n]"
proof -
  have "drop_bit k (as_u32 n) = 0" if "8 \<le> k" for k
  proof -
    have "(2 :: nat) ^ 8 \<le> 2 ^ k" using that by (intro power_increasing) simp_all
    then have "n < 2 ^ k" using assms by simp
    then have "as_usize (drop_bit k (as_u32 n)) = 0"
      unfolding unat_drop_bit_eq using assms by (simp add: unat_of_nat drop_bit_eq_div)
    then show ?thesis by (simp only: unat_eq_zero)
  qed
  moreover have "(ucast (as_u32 n) :: u8) = of_nat n"
    using assms by (simp add: word_unat_eq_iff unsigned_ucast_eq unat_of_nat take_bit_eq_mod)
  ultimately show ?thesis by (simp add: rfc_u32_be_def)
qed

lemma rfc_shifted_length:
  assumes "n < 256"
  shows "n \<le> as_usize (rfc_be_u32 (0 # 0 # of_nat n # x # r))"
proof -
  have "as_usize (push_bit 8 (ucast (of_nat n :: u8))) = n * 256"
    using assms by (simp add: push_bit_eq_mult unat_word_ariths unat_of_nat unsigned_ucast_eq take_bit_eq_mod)
  moreover have "push_bit 8 (ucast (of_nat n :: u8)) \<le> rfc_be_u32 (0 # 0 # of_nat n # x # r)"
    by (simp add: rfc_be_u32_def le_word_or2)
  ultimately show ?thesis by (simp add: word_le_nat_alt)
qed

lemma signal_request_bytes:
  assumes "d_codec D = rfc_codec" and "name \<noteq> []" and "length name < 256"
  shows "server_channel_request D H h ([MSG_CHANNEL_REQUEST] @ u32_be (d_codec D) ch @
      ssh_string (d_codec D) (ascii ''signal'') @ [0] @ ssh_string (d_codec D) name) s =
    Err Keys_IndexOutOfBounds"
proof -
  let ?w = "be_u32 (d_codec D) (0 # 0 # of_nat (length name) # name)"
  have laws: "codec_laws (d_codec D)" unfolding assms(1) by (rule rfc.codec_laws_axioms)
  have u: "u32_be (d_codec D) (as_u32 (length name)) = [0, 0, 0, of_nat (length name)]"
    unfolding assms(1) using rfc_short_length [OF assms(3)] by (simp add: rfc_codec_def)
  have w: "length name \<le> as_usize ?w"
    using assms(2) rfc_shifted_length [OF assms(3)] unfolding assms(1)
    by (cases name) (simp_all add: rfc_codec_def)
  let ?C = "d_codec D"
  let ?b = "[MSG_CHANNEL_REQUEST] @ u32_be ?C ch @ ssh_string ?C (ascii ''signal'') @ [0] @ ssh_string ?C name"
  have "drop 1 ?b = u32_be ?C ch @ ssh_string ?C (ascii ''signal'') @ [0] @ ssh_string ?C name" by simp
  note r1 = codec_laws.read_u32_at [OF laws this]
  have "length (ascii ''signal'') < 2 ^ 32" by simp
  note r2 = codec_laws.read_string_at [OF laws r1(2) this]
  let ?p = "1 + 4 + 4 + length (ascii ''signal'')"
  have "drop ?p ?b = 0 # 0 # 0 # 0 # of_nat (length name) # name"
    using r2(2) by (simp add: codec_laws.ssh_string_eq [OF laws] u assms(3))
  note r3 = codec_laws.read_byte_at [OF laws this]
  note r4 = codec_laws.read_byte_at [OF laws r3(2)]
  have "length (drop (?p + 1 + 1) ?b) = 3 + length name" unfolding r4(2) by simp
  then have len: "length ?b = ?p + 1 + 1 + (3 + length name)"
    unfolding length_drop by linarith
  have "read_u32 ?C ?b (?p + 1 + 1) = Ok (?w, ?p + 1 + 1 + 4)"
    using assms(2) r4(2) len by (simp add: codec_laws.read_u32_eq [OF laws] Suc_le_eq)
  then have r5: "read_string ?C ?b (?p + 1 + 1) = Err Keys_IndexOutOfBounds"
    unfolding codec_laws.read_string_eq [OF laws, where p = "?p + 1 + 1"]
    using len w by simp
  show ?thesis
    unfolding server_channel_request_def Let_def r1(1) rbind.simps prod.case r2(1) r3(1)
    using r4(1) r5 by simp
qed

text \<open>
  A signal ends the connection. The server does not understand the signal request the client
  of the same library sends, which is the one of RFC 4254 (section 6.9): it expects one more byte
  after the flag that asks for a reply, so the first byte of the length of the signal's name is
  skipped and the rest is read as a length that is too big.
\<close>

lemma signal_request_refused:
  assumes "d_codec D = rfc_codec" and "cl_encrypted s = Some enc" and "channels enc ch = Some c"
    and "sig_name sg \<noteq> []" and "length (sig_name sg) < 256"
  shows "\<exists>body. client_on_message D (Msg_Signal ch sg) s =
      Ok (cl_set_encrypted (enc_push (d_codec D) body enc) s) \<and>
    server_read_authenticated D W H h body ss = Err Keys_IndexOutOfBounds"
proof -
  let ?body = "request_body (d_codec D) (recipient_channel c) (ascii ''signal'') False
    (ssh_string (d_codec D) (sig_name sg))"
  have "server_channel_request D H h ?body ss = Err Keys_IndexOutOfBounds"
    using signal_request_bytes [OF assms(1,4,5)] by (simp only: request_body_def if_False)
  then have "server_read_authenticated D W H h ?body ss = Err Keys_IndexOutOfBounds"
    by (simp only: read_authenticated_request)
  moreover have "client_on_message D (Msg_Signal ch sg) s =
      Ok (cl_set_encrypted (enc_push (d_codec D) ?body enc) s)"
    by (simp only: client_on_message.simps client_signal_def client_request_queued [OF assms(2,3)])
  ultimately show ?thesis by blast
qed

section \<open>An example\<close>

definition demo_cl_config :: client_config where
  "demo_cl_config = \<lparr> cc_client_id = [],
     cc_limits = \<lparr> rekey_write_limit = 500, rekey_read_limit = 500, rekey_time_limit = 500 \<rparr>,
     cc_window_size = 20, cc_maximum_packet_size = 20,
     cc_preferred = \<lparr> pf_kex = [], pf_key = [], pf_cipher = [], pf_mac = [], pf_compression = [] \<rparr>,
     cc_connection_timeout = None \<rparr>"

definition demo_client :: "encrypted option \<Rightarrow> client_session" where
  "demo_client enc = \<lparr> cl_common = \<lparr> auth_user = [], config = demo_cl_config, cs_encrypted = enc,
     cs_auth_method = None, write_buffer = sshbuffer_new, cs_kex = None,
     cs_cipher = CLEAR_PAIR, cs_wants_reply = False, disconnected = False \<rparr>,
     cl_receiver = [], cl_handle_alive = True, cl_replies = [], cl_channels = [2 \<mapsto> 0],
     cl_sent = [], cl_target_window_size = 20 \<rparr>"

lemma demo_client_enc [simp]: "cl_encrypted (demo_client enc) = enc"
  by (simp add: demo_client_def)

lemma demo_enc_lookup: "channels demo_enc 2 = Some demo_channel" "recipient_channel demo_channel = 7"
  by (simp_all add: demo_enc_def demo_channel_def)


theorem too_many_modes_panic_witness:
  "\<exists>body. client_on_message demo_deps (Msg_RequestPty 2 False [] 80 24 0 0 (replicate 131 (PTY_ECHO, 1)))
        (demo_client (Some demo_enc)) =
      Ok (cl_set_encrypted (enc_push (d_codec demo_deps) body demo_enc) (demo_client (Some demo_enc))) \<and>
    server_read_authenticated demo_deps demo_now demo_app () body demo_session = Panic"
  by (rule too_many_modes_panic [OF demo_deps_laws(1) _ demo_enc_lookup(1)])
    (simp_all del: replicate.simps)

end
