(* ===== verification/Deliveries.thy ===== *)
theory Deliveries
  imports Requests
begin

text \<open>
  What the application of the server sends on a channel, and what arrives in the queue of the
  client's channel, when the client runs the default methods of the handler.
\<close>

section \<open>Messages about a channel\<close>

text \<open>The messages that are sent in one packet, and their packets.\<close>

fun message_packet :: "codec \<Rightarrow> u32 \<Rightarrow> channel_msg \<Rightarrow> bytes option" where
  "message_packet C n CM_Eof = Some ([MSG_CHANNEL_EOF] @ u32_be C n)"
| "message_packet C n (CM_XonXoff b) =
     Some (request_body C n (ascii ''xon-xoff'') False [if b then 1 else 0])"
| "message_packet C n (CM_ExitStatus v) =
     Some (request_body C n (ascii ''exit-status'') False (u32_be C v))"
| "message_packet C n (CM_ExitSignal sg core msg lang) =
     Some (request_body C n (ascii ''exit-signal'') False
       (ssh_string C (sig_name sg) @ [if core then 1 else 0] @ ssh_string C msg @ ssh_string C lang))"
| "message_packet C n m = None"

fun message_sound :: "channel_msg \<Rightarrow> bool" where
  "message_sound (CM_ExitSignal sg core msg lang) \<longleftrightarrow>
     sig_proper sg \<and> short (sig_name sg) \<and> sound_string msg \<and> sound_string lang"
| "message_sound m \<longleftrightarrow> True"

lemma message_sent:
  assumes "ss_encrypted ss = Some enc" and "channels enc ch = Some c" and "confirmed c"
    and "message_packet (d_codec D) (recipient_channel c) m = Some body"
  shows "server_on_message D ch m ss = Ok (ss_set_encrypted (enc_push (d_codec D) body enc) ss)"
  using assms
  by (cases m)
    (auto simp: server_eof_def cs_byte_def enc_byte_def ss_set_common_def ss_set_encrypted_def
      enc_push_def server_xon_xoff_request_def server_exit_status_request_def
      server_exit_signal_request_def ss_enc_res_def enc_channel_request_def request_body_def)

lemma client_request_read:
  "client_read_authenticated D H h (request_body C n name w args) s =
   client_channel_request D H h (request_body C n name w args) s"
  by (simp add: client_read_authenticated_def request_body_def index_def)

context codec_laws
begin

lemma eof_read:
  assumes "d_codec D = C"
  shows "client_read_authenticated D H h ([MSG_CHANNEL_EOF] @ u32_be C n) s =
    ch_event H h (CE_channel_eof n) s"
proof -
  have "drop 1 ([MSG_CHANNEL_EOF] @ u32_be C n) = u32_be C n @ []" by simp
  from read_u32_at(1) [OF this] show ?thesis
    by (simp add: client_read_authenticated_def index_def assms)
qed

lemma xon_xoff_read:
  assumes "d_codec D = C"
  shows "client_channel_request D H h (request_body C n (ascii ''xon-xoff'') w [if x then 1 else 0]) s =
    ch_event H h (CE_xon_xoff n x) s"
proof -
  define b where "b = request_body C n (ascii ''xon-xoff'') w [if x then 1 else 0]"
  obtain p1 p2 p3 where r: "read_u32 C b 1 = Ok (n, p1)"
      "read_string C b p1 = Ok (ascii ''xon-xoff'', p2)" "read_byte C b p2 = Ok (if w then 1 else 0, p3)"
      and d3: "drop p3 b = [if x then 1 else 0]"
    by (rule request_head [OF codec_laws_axioms, of "ascii ''xon-xoff''" n w "[if x then 1 else 0]",
          folded b_def]) simp_all
  note r4 = read_byte_at(1) [OF d3]
  show ?thesis
    unfolding b_def [symmetric] client_channel_request_def Let_def assms r rbind.simps prod.case
    by (cases x) (simp_all add: r(3) r4)
qed

lemma exit_status_read:
  assumes "d_codec D = C"
  shows "client_channel_request D H h (request_body C n (ascii ''exit-status'') w (u32_be C v)) s =
    ch_event H h (CE_exit_status n v) s"
proof -
  define b where "b = request_body C n (ascii ''exit-status'') w (u32_be C v)"
  obtain p1 p2 p3 where r: "read_u32 C b 1 = Ok (n, p1)"
      "read_string C b p1 = Ok (ascii ''exit-status'', p2)" "read_byte C b p2 = Ok (if w then 1 else 0, p3)"
      and d3: "drop p3 b = u32_be C v"
    by (rule request_head [OF codec_laws_axioms, of "ascii ''exit-status''" n w "u32_be C v",
          folded b_def]) simp_all
  from d3 have "drop p3 b = u32_be C v @ []" by simp
  note r4 = read_u32_at(1) [OF this]
  show ?thesis
    unfolding b_def [symmetric] client_channel_request_def Let_def assms r rbind.simps prod.case
    by (simp add: r(3) r4)
qed

lemma exit_signal_read:
  assumes "d_codec D = C" and "short (sig_name sg)" and "sig_proper sg"
    and "short msg" "utf8_valid msg" and "short lang" "utf8_valid lang"
  shows "client_channel_request D H h (request_body C n (ascii ''exit-signal'') w
      (ssh_string C (sig_name sg) @ [if core then 1 else 0] @ ssh_string C msg @ ssh_string C lang)) s =
    ch_event H h (CE_exit_signal n sg core msg lang) s"
proof -
  let ?args = "ssh_string C (sig_name sg) @ [if core then 1 else 0] @ ssh_string C msg @ ssh_string C lang"
  define b where "b = request_body C n (ascii ''exit-signal'') w ?args"
  obtain p1 p2 p3 where r: "read_u32 C b 1 = Ok (n, p1)"
      "read_string C b p1 = Ok (ascii ''exit-signal'', p2)" "read_byte C b p2 = Ok (if w then 1 else 0, p3)"
      and d3: "drop p3 b = ?args"
    by (rule request_head [OF codec_laws_axioms, of "ascii ''exit-signal''" n w ?args,
          folded b_def]) simp_all
  obtain p4 where a4: "read_string C b p3 = Ok (sig_name sg, p4)"
      and d4: "drop p4 b = [if core then 1 else 0] @ ssh_string C msg @ ssh_string C lang"
    by (rule read_string_ex [OF d3 assms(2)])
  from d4 have d4n: "drop p4 b = (if core then 1 else 0) # ssh_string C msg @ ssh_string C lang" by simp
  obtain p5 where a5: "read_byte C b p4 = Ok (if core then 1 else 0, p5)"
      and d5: "drop p5 b = ssh_string C msg @ ssh_string C lang"
    by (rule read_byte_ex [OF d4n])
  obtain p6 where a6: "read_str C b p5 = Ok (msg, p6)" and d6: "drop p6 b = ssh_string C lang"
    by (rule read_str_ex [OF d5 assms(4,5)])
  from d6 have d6n: "drop p6 b = ssh_string C lang @ []" by simp
  obtain p7 where a7: "read_str C b p6 = Ok (lang, p7)" by (rule read_str_ex [OF d6n assms(6,7)])
  show ?thesis
    unfolding b_def [symmetric] client_channel_request_def Let_def assms(1) r rbind.simps prod.case
    by (cases core) (simp_all add: r(3) a4 a5 a6 a7 sig_from_name_name [OF assms(3)])
qed

end

lemma message_received:
  assumes "codec_laws (d_codec D)" and "message_packet (d_codec D) n m = Some body"
    and "message_sound m"
  shows "client_read_authenticated D (client_default_handler C) h body s =
    Ok (h, cl_send n (OCM_Msg m) s)"
  using assms(2,3)
  by (cases m)
    (auto simp: client_request_read client_default_handler_def
      codec_laws.eof_read [OF assms(1) refl, simplified]
      codec_laws.xon_xoff_read [OF assms(1) refl] codec_laws.exit_status_read [OF assms(1) refl]
      codec_laws.exit_signal_read [OF assms(1) refl, where core = True, unfolded if_True append.simps]
      codec_laws.exit_signal_read [OF assms(1) refl, where core = False, unfolded if_False append.simps]
      simp del: ascii_Cons)

text \<open>
  C37. End of file, the exit status of a program, the signal that ended it, and whether the client
  may do flow control: what the server's application posts for a channel is queued as one packet,
  and a client with the default handler that reads the packet puts the same message in the queue
  of its channel; nothing else happens at the client.
\<close>

theorem messages_reach_channel:
  assumes "codec_laws (d_codec D)" and "ss_encrypted ss = Some enc" and "channels enc ch = Some c"
    and "confirmed c" and "m \<in> {CM_Eof, CM_XonXoff b, CM_ExitStatus v, CM_ExitSignal sg core msg lang}"
    and "message_sound m" and "cl_channels s (recipient_channel c) = Some q"
  shows "\<exists>body. server_on_message D ch m ss =
      Ok (ss_set_encrypted (enc_push (d_codec D) body enc) ss) \<and>
    client_read_authenticated D (client_default_handler (d_codec D)) h body s =
      Ok (h, s\<lparr> cl_sent := cl_sent s @ [(q, OCM_Msg m)] \<rparr>)"
proof -
  obtain body where body: "message_packet (d_codec D) (recipient_channel c) m = Some body"
    using assms(5) by auto
  have "cl_send (recipient_channel c) (OCM_Msg m) s = s\<lparr> cl_sent := cl_sent s @ [(q, OCM_Msg m)] \<rparr>"
    using assms(7) by (simp add: cl_send_def)
  then have "client_read_authenticated D (client_default_handler (d_codec D)) h body s =
      Ok (h, s\<lparr> cl_sent := cl_sent s @ [(q, OCM_Msg m)] \<rparr>)"
    by (simp add: message_received [OF assms(1) body assms(6)])
  with message_sent [OF assms(2-4) body] show ?thesis by blast
qed

theorem messages_reach_channel_witness:
  "\<exists>body. server_on_message demo_deps 2 (CM_ExitStatus 3) (ss_set_encrypted demo_enc demo_session) =
      Ok (ss_set_encrypted (enc_push (d_codec demo_deps) body demo_enc) (ss_set_encrypted demo_enc demo_session)) \<and>
    client_read_authenticated demo_deps (client_default_handler (d_codec demo_deps)) () body
        ((demo_client (Some demo_enc))\<lparr> cl_channels := [7 \<mapsto> 5] \<rparr>) =
      Ok ((), (demo_client (Some demo_enc))\<lparr> cl_channels := [7 \<mapsto> 5],
        cl_sent := [(5, OCM_Msg (CM_ExitStatus 3))] \<rparr>)"
proof -
  have "confirmed demo_channel" by (simp add: demo_channel_def)
  moreover have "CM_ExitStatus 3 \<in> {CM_Eof, CM_XonXoff True, CM_ExitStatus 3, CM_ExitSignal SIG_INT True [] []}"
    by simp
  moreover have "cl_sent ((demo_client (Some demo_enc))\<lparr> cl_channels := [7 \<mapsto> 5] \<rparr>) = []"
    by (simp add: demo_client_def)
  moreover have "ss_encrypted (ss_set_encrypted demo_enc demo_session) = Some demo_enc"
    by (simp add: ss_set_encrypted_def)
  ultimately show ?thesis
    using messages_reach_channel [OF demo_deps_laws(1) _ demo_enc_lookup(1), where
        ss = "ss_set_encrypted demo_enc demo_session" and m = "CM_ExitStatus 3" and h = "()" and
        s = "(demo_client (Some demo_enc))\<lparr> cl_channels := [7 \<mapsto> 5] \<rparr>" and q = 5]
    by (simp add: demo_enc_lookup)
qed

section \<open>Data\<close>

text \<open>A client that reads a sequence of packets.\<close>

fun client_reads ::
  "deps \<Rightarrow> 'h client_handler \<Rightarrow> 'h \<Rightarrow> bytes list \<Rightarrow> client_session \<Rightarrow> 'h creply" where
  "client_reads D H h [] s = Ok (h, s)"
| "client_reads D H h (b # bs) s =
     rbind (client_read_authenticated D H h b s) (\<lambda>(h', s'). client_reads D H h' bs s')"

lemma default_adjust_window:
  "\<exists>s'. client_adjust_window C (client_default_handler C') h ch data s = (h, s') \<and>
    cl_sent s' = cl_sent s \<and> cl_channels s' = cl_channels s"
  by (simp add: client_adjust_window_def client_default_handler_def Let_def cl_set_encrypted_def
      split: option.split prod.split)

lemma data_packet_event:
  assumes "codec_laws (d_codec D)" and "short p"
  shows "client_read_authenticated D H h ([MSG_CHANNEL_DATA] @ u32_be (d_codec D) n @ ssh_string (d_codec D) p) s =
    (case client_adjust_window (d_codec D) H h n p s of (h1, s1) \<Rightarrow> ch_event H h1 (CE_data n p) s1)"
proof -
  let ?C = "d_codec D"
  let ?b = "[MSG_CHANNEL_DATA] @ u32_be ?C n @ ssh_string ?C p"
  have "drop 1 ?b = u32_be ?C n @ ssh_string ?C p" by simp
  then obtain p1 where r1: "read_u32 ?C ?b 1 = Ok (n, p1)" and "drop p1 ?b = ssh_string ?C p"
    by (rule codec_laws.read_u32_ex [OF assms(1)])
  then have "drop p1 ?b = ssh_string ?C p @ []" by simp
  note r2 = codec_laws.read_string_at(1) [OF assms(1) this assms(2)]
  have "client_read_authenticated D H h ?b s = client_channel_data D H h ?b s"
    by (simp add: client_read_authenticated_def index_def)
  then show ?thesis unfolding client_channel_data_def Let_def r1 rbind.simps prod.case r2 .
qed

lemma data_packet_read:
  assumes "codec_laws (d_codec D)" and "short p" and "cl_channels s (recipient_channel c) = Some q"
  shows "\<exists>s'. client_read_authenticated D (client_default_handler (d_codec D)) h
      (data_body (d_codec D) c p) s = Ok (h, s') \<and>
    cl_sent s' = cl_sent s @ [(q, OCM_Msg (CM_Data p))] \<and> cl_channels s' = cl_channels s"
proof -
  let ?C = "d_codec D" and ?n = "recipient_channel c"
  obtain s1 where s1: "client_adjust_window ?C (client_default_handler ?C) h ?n p s = (h, s1)"
      "cl_sent s1 = cl_sent s" "cl_channels s1 = cl_channels s"
    using default_adjust_window [of ?C ?C h ?n p s] by blast
  have "client_read_authenticated D (client_default_handler ?C) h (data_body ?C c p) s =
      Ok (h, cl_send ?n (OCM_Msg (CM_Data p)) s1)"
    using data_packet_event [OF assms(1,2), of "client_default_handler ?C" h ?n s]
    by (simp add: data_body_def s1(1)) (simp add: client_default_handler_def)
  then show ?thesis using s1(2,3) assms(3) by (simp add: cl_send_def)
qed

lemma data_packets_read:
  assumes "codec_laws (d_codec D)"
  shows "\<forall>p \<in> set pieces. short p \<Longrightarrow> cl_channels s (recipient_channel c) = Some q \<Longrightarrow>
    \<exists>s'. client_reads D (client_default_handler (d_codec D)) h
      (map (data_body (d_codec D) c) pieces) s = Ok (h, s') \<and>
    cl_sent s' = cl_sent s @ map (\<lambda>p. (q, OCM_Msg (CM_Data p))) pieces \<and>
    cl_channels s' = cl_channels s"
proof (induction pieces arbitrary: s)
  case Nil
  then show ?case by simp
next
  case (Cons p pieces)
  then obtain s1 where s1: "client_read_authenticated D (client_default_handler (d_codec D)) h
      (data_body (d_codec D) c p) s = Ok (h, s1)"
    "cl_sent s1 = cl_sent s @ [(q, OCM_Msg (CM_Data p))]" "cl_channels s1 = cl_channels s"
    using data_packet_read [OF assms, of p s c q h] by auto
  from Cons.IH [of s1] Cons.prems s1 show ?case by auto
qed



section \<open>The end of the data\<close>

text \<open>
  C20. The end of the data overtakes the data. The server's application sends more than the window
  allows, and then that it is done. The end is queued at once; when the client grants enough for
  everything, what was held back is queued behind it, and the client reads it after the end.
\<close>

theorem eof_overtakes_data:
  assumes "ss_encrypted ss = Some enc" and "channels enc ch = Some c" and "confirmed c" and "pending_data c = []"
    and "recipient_maximum_packet_size c \<noteq> 0" and "length data < 2 ^ 32"
    and "as_usize (recipient_window_size c) < length data" and "length data \<le> as_usize grant"
  shows "\<exists>ss1 ss2 enc2 enc3 n enc4 sent later.
    server_on_message D ch (CM_Data data) ss = Ok ss1 \<and> server_on_message D ch CM_Eof ss1 = Ok ss2 \<and>
    ss_encrypted ss2 = Some enc2 \<and> enc_add_window ch grant enc2 = Ok (enc3, grant) \<and>
    flush_pending (d_codec D) ch enc3 = Ok (enc4, n) \<and>
    e_write enc4 = e_write enc @ frames (d_codec D) (map (data_body (d_codec D) c) sent @
      [[MSG_CHANNEL_EOF] @ u32_be (d_codec D) (recipient_channel c)] @ map (data_body (d_codec D) c) later) \<and>
    concat sent = take (as_usize (recipient_window_size c)) data \<and>
    concat later = drop (as_usize (recipient_window_size c)) data \<and> later \<noteq> []"
proof -
  let ?C = "d_codec D" and ?w = "recipient_window_size c"
  obtain sent where d: "enc_data ?C ch data enc = Ok (enc\<lparr>
        e_write := e_write enc @ frames ?C (map (data_body ?C c) sent),
        channels := (channels enc)(ch \<mapsto> c\<lparr> recipient_window_size := ?w - as_u32 (length (concat sent)),
          pending_data := held_back data (length (concat sent)) \<rparr>) \<rparr>)"
    and sent: "concat sent = take (as_usize ?w) data"
    using enc_data_sends [OF assms(2-6), of ?C] by blast
  have n: "length (concat sent) = as_usize ?w" using sent assms(7) by simp
  then have z: "?w - as_u32 (length (concat sent)) = 0" by simp
  let ?c1 = "c\<lparr> recipient_window_size := 0, pending_data := [(data, None, as_usize ?w)] \<rparr>"
  let ?enc1 = "enc\<lparr> e_write := e_write enc @ frames ?C (map (data_body ?C c) sent),
      channels := (channels enc)(ch \<mapsto> ?c1) \<rparr>"
  have d1: "enc_data ?C ch data enc = Ok ?enc1" using d assms(7) unfolding z n by (simp add: held_back_def)
  let ?eof = "[MSG_CHANNEL_EOF] @ u32_be ?C (recipient_channel c)"
  let ?enc2 = "?enc1\<lparr> e_write := e_write ?enc1 @ frame ?C ?eof \<rparr>"
  have e: "enc_eof ?C ch ?enc1 = ?enc2" by (simp add: enc_eof_def enc_byte_def)
  let ?c3 = "?c1\<lparr> recipient_window_size := grant \<rparr>"
  let ?enc3 = "?enc2\<lparr> channels := (channels enc)(ch \<mapsto> ?c3) \<rparr>"
  have a: "enc_add_window ch grant ?enc2 = Ok (?enc3, grant)"
    using unat_less_2p32 [of grant] by (simp add: enc_add_window_def)
  let ?later = "chunks (as_usize (recipient_maximum_packet_size c)) (drop (as_usize ?w) data)"
  have "data_noqueue ?C (e_write ?enc3) ?c3 data (as_usize ?w) =
    Ok (e_write ?enc3 @ frames ?C (map (data_body ?C ?c3) ?later),
        ?c3\<lparr> recipient_window_size := grant - as_u32 (length (drop (as_usize ?w) data)) \<rparr>,
        length (drop (as_usize ?w) data))"
    using assms(5-8) data_noqueue_eq [of ?c3 data "as_usize ?w" "drop (as_usize ?w) data" ?C "e_write ?enc3"]
      window_slice_all [of data ?c3 "as_usize ?w"] by simp
  then obtain enc4 where f: "flush_pending ?C ch ?enc3 = Ok (enc4, length (drop (as_usize ?w) data))"
    and q: "e_write enc4 = e_write ?enc3 @ frames ?C (map (data_body ?C ?c3) ?later)"
    by (cases "length data - as_usize ?w < length data") (auto simp: flush_pending_def)
  have body: "data_body ?C ?c3 = data_body ?C c" by (simp add: data_body_def [abs_def])
  have later: "concat ?later = drop (as_usize ?w) data" using max_packet_pos [OF assms(5)] by simp
  with assms(7) have "?later \<noteq> []" by (metis concat.simps(1) drop_eq_Nil2 not_less)
  moreover have "server_on_message D ch (CM_Data data) ss = Ok (ss_set_encrypted ?enc1 ss)"
    using assms(1) d1 by (simp add: server_data_def ss_set_encrypted_def)
  moreover have "server_on_message D ch CM_Eof (ss_set_encrypted ?enc1 ss) = Ok (ss_set_encrypted ?enc2 ss)"
    using e by (simp add: server_eof_def cs_byte_def ss_set_encrypted_def ss_set_common_def enc_eof_def)
  moreover have "ss_encrypted (ss_set_encrypted ?enc2 ss) = Some ?enc2" by (simp add: ss_set_encrypted_def)
  moreover have "e_write enc4 = e_write enc @ frames ?C (map (data_body ?C c) sent @ [?eof] @ map (data_body ?C c) ?later)"
    using q unfolding body by (simp add: frames_def)
  ultimately show ?thesis using a f sent later by blast
qed

theorem eof_overtakes_data_witness:
  "\<exists>ss1 ss2 enc2 enc3 n enc4 sent later.
    server_on_message demo_deps 2 (CM_Data [1, 2, 3, 4, 5]) (ss_set_encrypted demo_enc demo_session) = Ok ss1 \<and>
    server_on_message demo_deps 2 CM_Eof ss1 = Ok ss2 \<and> ss_encrypted ss2 = Some enc2 \<and>
    enc_add_window 2 100 enc2 = Ok (enc3, 100) \<and> flush_pending (d_codec demo_deps) 2 enc3 = Ok (enc4, n) \<and>
    e_write enc4 = e_write demo_enc @ frames (d_codec demo_deps) (map (data_body (d_codec demo_deps) demo_channel) sent @
      [[MSG_CHANNEL_EOF] @ u32_be (d_codec demo_deps) (recipient_channel demo_channel)] @
      map (data_body (d_codec demo_deps) demo_channel) later) \<and>
    concat sent = take (as_usize (recipient_window_size demo_channel)) [1, 2, 3, 4, 5] \<and>
    concat later = drop (as_usize (recipient_window_size demo_channel)) [1, 2, 3, 4, 5] \<and> later \<noteq> []"
  by (rule eof_overtakes_data [OF _ demo_enc_channel])
    (simp_all add: ss_set_encrypted_def demo_channel_def)

end
