(* ===== verification/Flow_Control.thy ===== *)
theory Flow_Control
  imports Session_Props
begin

text \<open>
  Flow control between the two ends of a channel, over a network that keeps the order: one end
  sends data with the operations of \<^verbatim>\<open>src/src/session.rs\<close>, the other receives it and grants new
  window. Client and server use the same operations, so this is either direction of a channel.
\<close>

section \<open>Queued packets can be told apart\<close>

context codec_laws
begin

lemma ssh_string_inj:
  assumes "ssh_string C a @ x = ssh_string C b @ y" and "short a" and "short b"
  shows "a = b \<and> x = y"
proof -
  have e: "u32_be C (as_u32 (length a)) @ a @ x = u32_be C (as_u32 (length b)) @ b @ y"
    using assms(1) by (simp add: ssh_string_eq)
  then have "be_u32 C (u32_be C (as_u32 (length a)) @ a @ x) =
      be_u32 C (u32_be C (as_u32 (length b)) @ b @ y)" by simp
  then have "as_u32 (length a) = (as_u32 (length b) :: u32)" by simp
  then have "as_usize (as_u32 (length a)) = as_usize (as_u32 (length b))" by simp
  then have "length a = length b" using assms(2,3) by simp
  with e show ?thesis by simp
qed

lemma frame_string: "frame C a = ssh_string C a"
  by (simp add: frame_def ssh_string_eq)

lemma frames_inj:
  assumes "frames C ps = frames C qs" and "\<forall>p \<in> set ps. short p" and "\<forall>q \<in> set qs. short q"
  shows "ps = qs"
  using assms
proof (induction ps arbitrary: qs)
  case Nil
  then show ?case by (cases qs) (simp_all add: frame_string ssh_string_eq)
next
  case (Cons p ps)
  then obtain q qs' where qs: "qs = q # qs'"
    by (cases qs) (simp_all add: frame_string ssh_string_eq)
  with Cons.prems have "p = q \<and> frames C ps = frames C qs'"
    by (intro ssh_string_inj) (simp_all add: frame_string)
  with Cons.IH [of qs'] Cons.prems(2,3) qs show ?case by simp
qed

lemma data_body_inj:
  assumes "data_body C c p = data_body C c q" and "short p" and "short q"
  shows "p = q"
proof -
  have "ssh_string C p @ [] = ssh_string C q @ []" using assms(1) by (simp add: data_body_def)
  with ssh_string_inj assms(2,3) show ?thesis by blast
qed

lemma length_data_body: "length (data_body C c p) = 9 + length p"
  by (simp add: data_body_def)

lemma data_frames_inj:
  assumes "frames C (map (data_body C c) ps) = frames C (map (data_body C c) qs)"
    and "\<forall>p \<in> set ps. length p < 2 ^ 31" and "\<forall>q \<in> set qs. length q < 2 ^ 31"
  shows "ps = qs"
proof -
  have s: "length p < 2 ^ 31 \<Longrightarrow> short p \<and> short (data_body C c p)" for p
    by (simp add: length_data_body)
  have "map (data_body C c) ps = map (data_body C c) qs"
    using assms(2,3) s by (intro frames_inj [OF assms(1)]) auto
  moreover have "p = q" if "p \<in> set ps" "q \<in> set qs" "data_body C c p = data_body C c q" for p q
    using data_body_inj [OF that(3)] s that(1,2) assms(2,3) by blast
  ultimately show ?thesis
    using list.inj_map_strong [of ps qs "data_body C c" "data_body C c"] by blast
qed

end

section \<open>What sending takes from the window\<close>

abbreviation amount :: "bytes list \<Rightarrow> nat" where
  "amount ps \<equiv> sum_list (map length ps)"

lemma send_loop_sends:
  assumes "send_loop C header m wr window buf = Some (Ok (wr', w'))"
  shows "\<exists>ps. wr' = wr @ frames C (map (\<lambda>p. header @ ssh_string C p) ps) \<and>
    as_usize window = as_usize w' + amount ps \<and> concat ps = buf \<and>
    (\<forall>p \<in> set ps. length p \<le> as_usize m)"
proof -
  have "\<forall>wr' w'. r = Ok (wr', w') \<longrightarrow>
      (\<exists>ps. wr' = wr @ frames C (map (\<lambda>p. header @ ssh_string C p) ps) \<and>
        as_usize window = as_usize w' + amount ps \<and> concat ps = buf \<and>
        (\<forall>p \<in> set ps. length p \<le> as_usize m))"
    if "send_loop C header m wr window buf = Some r" for r
    using that
  proof (rule send_loop.raw_induct [rotated], goal_cases)
    case (1 rec C header m wr window buf r)
    show ?case
    proof (cases "buf = []")
      case True
      with 1(2) show ?thesis by (auto intro!: exI [of _ "[]"])
    next
      case False
      define off where "off = min (length buf) (as_usize m)"
      show ?thesis
      proof (cases "window < as_u32 off")
        case True
        with False 1(2) show ?thesis by (simp add: off_def Let_def)
      next
        case ge: False
        have rec: "rec C header m (push_packet C wr (header @ ssh_string C (take off buf)))
            (window - as_u32 off) (drop off buf) = Some r"
          using 1(2) False ge by (simp add: off_def [symmetric] Let_def)
        have off: "off < 2 ^ 32"
          unfolding off_def using unat_less_2p32 [of m] by (meson min.strict_coboundedI2)
        then have u: "as_usize (as_u32 off) = off" by simp
        have "as_u32 off \<le> window" using ge by simp
        then have win: "as_usize window = as_usize (window - as_u32 off) + off"
          by (simp add: unat_sub u word_le_nat_alt)
        have len: "length (take off buf) = off" by (simp add: off_def)
        {
          fix wr' w' assume r: "r = Ok (wr', w')"
          from 1(1) [OF rec, rule_format, OF r] obtain ps where
            ps: "wr' = push_packet C wr (header @ ssh_string C (take off buf)) @
                  frames C (map (\<lambda>p. header @ ssh_string C p) ps)"
              "as_usize (window - as_u32 off) = as_usize w' + amount ps" "concat ps = drop off buf"
              "\<forall>p \<in> set ps. length p \<le> as_usize m"
            by blast
          have "\<exists>ps. wr' = wr @ frames C (map (\<lambda>p. header @ ssh_string C p) ps) \<and>
              as_usize window = as_usize w' + amount ps \<and> concat ps = buf \<and>
              (\<forall>p \<in> set ps. length p \<le> as_usize m)"
            by (rule exI [of _ "take off buf # ps"])
              (use ps win len in \<open>simp add: off_def\<close>)
        }
        then show ?thesis by blast
      qed
    qed
  qed
  with assms show ?thesis by blast
qed

text \<open>\<open>ps\<close> are the pieces of data an operation has queued, \<open>c\<close> is the channel before, \<open>c'\<close> after.\<close>

definition pieces_sent :: "codec \<Rightarrow> bytes list \<Rightarrow> bytes \<Rightarrow> bytes \<Rightarrow> channel \<Rightarrow> channel \<Rightarrow> bool" where
  "pieces_sent C ps wr wr' c c' \<longleftrightarrow>
     wr' = wr @ frames C (map (data_body C c) ps) \<and>
     as_usize (recipient_window_size c) = as_usize (recipient_window_size c') + amount ps \<and>
     recipient_channel c' = recipient_channel c \<and>
     recipient_maximum_packet_size c' = recipient_maximum_packet_size c \<and>
     (\<forall>p \<in> set ps. length p \<le> as_usize (recipient_maximum_packet_size c))"

lemma data_body_cong: "recipient_channel c' = recipient_channel c \<Longrightarrow> data_body C c' = data_body C c"
  by (simp add: fun_eq_iff data_body_def)

lemma pieces_sent_none: "pieces_sent C [] wr wr c (c\<lparr> pending_data := x \<rparr>)"
  by (simp add: pieces_sent_def)

lemma pieces_sent_pending:
  "pieces_sent C ps wr wr' c c' \<Longrightarrow> pieces_sent C ps wr wr' c (c'\<lparr> pending_data := x \<rparr>)"
  by (simp add: pieces_sent_def)

lemma pieces_sent_append:
  assumes "pieces_sent C ps wr wr' c c'" and "pieces_sent C qs wr' wr'' c' c''"
  shows "pieces_sent C (ps @ qs) wr wr'' c c''"
  using assms data_body_cong [of c' c C] by (auto simp: pieces_sent_def)

lemma data_noqueue_sends:
  assumes "data_noqueue C wr c buf0 sz = Ok (wr', c', n)"
  shows "\<exists>ps. pieces_sent C ps wr wr' c c'"
proof -
  obtain buf w' where l: "send_loop C ([MSG_CHANNEL_DATA] @ u32_be C (recipient_channel c))
        (recipient_maximum_packet_size c) wr (recipient_window_size c) buf = Some (Ok (wr', w'))"
      and c': "c' = c\<lparr> recipient_window_size := w' \<rparr>"
    using assms
    by (auto simp: data_noqueue_def rbind_eq_Ok returned_def split: option.splits prod.splits)
  have f: "(\<lambda>p. ([MSG_CHANNEL_DATA] @ u32_be C (recipient_channel c)) @ ssh_string C p) = data_body C c"
    by (simp add: fun_eq_iff data_body_def)
  from send_loop_sends [OF l, unfolded f] show ?thesis
    by (auto simp: pieces_sent_def c')
qed

lemma flush_pending_loop_sends:
  "flush_pending_loop C wr c pending k = Ok (wr', c', n) \<Longrightarrow> \<exists>ps. pieces_sent C ps wr wr' c c'"
proof (induction C wr c pending k arbitrary: wr' c' n rule: flush_pending_loop.induct)
  case (1 C wr c k)
  then show ?case by (auto intro!: exI [of _ "[]"] pieces_sent_none)
next
  case (2 C wr c buf a sz rest k)
  then obtain wr1 c1 n1 where d: "data_noqueue C wr c buf sz = Ok (wr1, c1, n1)"
    by (auto simp: rbind_eq_Ok)
  then obtain ps where ps: "pieces_sent C ps wr wr1 c c1" using data_noqueue_sends by blast
  show ?case
  proof (cases "n1 < length buf")
    case True
    with 2(2) d have "wr' = wr1" "c' = c1\<lparr> pending_data := (buf, a, n1) # rest \<rparr>" by auto
    with ps pieces_sent_pending show ?thesis by blast
  next
    case False
    with 2(2) d have "flush_pending_loop C wr1 c1 rest (k + n1) = Ok (wr', c', n)" by simp
    from 2(1) [OF False this] ps pieces_sent_append show ?thesis by blast
  qed
qed

text \<open>The two operations that send data.\<close>

lemma enc_data_sends_pieces:
  assumes "enc_data C ch buf enc = Ok enc'" and "channels enc ch = Some c"
  shows "\<exists>ps c'. pieces_sent C ps (e_write enc) (e_write enc') c c' \<and>
    channels enc' = (channels enc)(ch \<mapsto> c')"
proof (cases "pending_data c = []")
  case False
  with assms have "enc' = enc\<lparr> channels := (channels enc)
      (ch \<mapsto> c\<lparr> pending_data := pending_data c @ [(buf, None, 0)] \<rparr>) \<rparr>"
    by (auto simp: enc_data_def rassert_eq_Ok)
  then show ?thesis by (auto intro!: exI [of _ "[]"] pieces_sent_none)
next
  case True
  with assms obtain wr' c1 n where d: "data_noqueue C (e_write enc) c buf 0 = Ok (wr', c1, n)"
    and enc': "enc' = enc\<lparr> e_write := wr', channels := (channels enc)(ch \<mapsto>
        (if n < length buf then c1\<lparr> pending_data := pending_data c1 @ [(buf, None, n)] \<rparr> else c1)) \<rparr>"
    by (auto simp: enc_data_def rassert_eq_Ok rmap_eq_Ok)
  from data_noqueue_sends [OF d] obtain ps where "pieces_sent C ps (e_write enc) wr' c c1" by blast
  then show ?thesis by (auto simp: enc' intro: pieces_sent_pending)
qed

lemma flush_pending_sends_pieces:
  assumes "flush_pending C ch enc = Ok (enc', n)" and "channels enc ch = Some c"
  shows "\<exists>ps c'. pieces_sent C ps (e_write enc) (e_write enc') c c' \<and>
    channels enc' = (channels enc)(ch \<mapsto> c')"
proof -
  obtain wr' c' where "flush_pending_loop C (e_write enc) c (pending_data c) 0 = Ok (wr', c', n)"
    and enc': "enc' = enc\<lparr> e_write := wr', channels := (channels enc)(ch \<mapsto> c') \<rparr>"
    using assms by (auto simp: flush_pending_def rmap_eq_Ok)
  with flush_pending_loop_sends show ?thesis by (fastforce simp: enc')
qed

section \<open>The two ends of a channel\<close>

text \<open>
  The sending end, the data on its way, the receiving end, and the grants on their way back. The
  data is what the packets carry that the sending end has queued.
\<close>

record flow =
  fl_snd :: encrypted
  fl_data :: "bytes list"
  fl_rcv :: encrypted
  fl_grants :: "u32 list"

definition adjust_body :: "codec \<Rightarrow> channel \<Rightarrow> u32 \<Rightarrow> bytes" where
  "adjust_body C c g = [MSG_CHANNEL_WINDOW_ADJUST] @ u32_be C (recipient_channel c) @ u32_be C g"

text \<open>
  \<open>a\<close> and \<open>b\<close> are the numbers of the channel at the two ends; the receiving end may choose any
  target for its window that is at most \<open>T\<close>.
\<close>

inductive flow_step :: "codec \<Rightarrow> channel_id \<Rightarrow> channel_id \<Rightarrow> u32 \<Rightarrow> flow \<Rightarrow> flow \<Rightarrow> bool"
  for C a b T where
  send: "channels (fl_snd f) a = Some c \<Longrightarrow> enc_data C a buf (fl_snd f) = Ok snd' \<Longrightarrow>
    e_write snd' = e_write (fl_snd f) @ frames C (map (data_body C c) ps) \<Longrightarrow>
    \<forall>p \<in> set ps. length p < 2 ^ 31 \<Longrightarrow>
    flow_step C a b T f (f\<lparr> fl_snd := snd', fl_data := fl_data f @ ps \<rparr>)"
| flush: "channels (fl_snd f) a = Some c \<Longrightarrow> flush_pending C a (fl_snd f) = Ok (snd', n) \<Longrightarrow>
    e_write snd' = e_write (fl_snd f) @ frames C (map (data_body C c) ps) \<Longrightarrow>
    \<forall>p \<in> set ps. length p < 2 ^ 31 \<Longrightarrow>
    flow_step C a b T f (f\<lparr> fl_snd := snd', fl_data := fl_data f @ ps \<rparr>)"
| receive: "fl_data f = p # rest \<Longrightarrow> target \<le> T \<Longrightarrow> channels (fl_rcv f) b = Some c \<Longrightarrow>
    adjust_window_size C b p target (fl_rcv f) = (rcv', adjusted) \<Longrightarrow>
    (if adjusted then e_write rcv' = e_write (fl_rcv f) @ frame C (adjust_body C c g) \<and> gs = [g]
     else gs = []) \<Longrightarrow>
    flow_step C a b T f (f\<lparr> fl_data := rest, fl_rcv := rcv', fl_grants := fl_grants f @ gs \<rparr>)"
| granted: "fl_grants f = g # rest \<Longrightarrow> enc_add_window a g (fl_snd f) = Ok (snd', w) \<Longrightarrow>
    flow_step C a b T f (f\<lparr> fl_snd := snd', fl_grants := rest \<rparr>)"

abbreviation granted_amount :: "u32 list \<Rightarrow> nat" where
  "granted_amount gs \<equiv> sum_list (map as_usize gs)"

text \<open>
  The credit of a channel: what the sending end may still send, what is on its way, and the grants
  that are on their way, are together what the receiving end is ready for.
\<close>

definition credit_ok :: "channel_id \<Rightarrow> channel_id \<Rightarrow> u32 \<Rightarrow> flow \<Rightarrow> bool" where
  "credit_ok a b T f \<longleftrightarrow> (\<exists>cs cr. channels (fl_snd f) a = Some cs \<and> channels (fl_rcv f) b = Some cr \<and>
     as_usize (recipient_window_size cs) + amount (fl_data f) + granted_amount (fl_grants f) =
       as_usize (sender_window_size cr) \<and>
     sender_window_size cr \<le> T \<and> recipient_maximum_packet_size cs < 2 ^ 31)"

lemma adjust_body_inj:
  assumes "codec_laws C" and "frame C (adjust_body C c g) = frame C (adjust_body C c g')"
  shows "g = g'"
proof -
  have l: "short (adjust_body C c x)" for x
    by (simp add: adjust_body_def codec_laws.len_u32_be [OF assms(1)])
  have "adjust_body C c g = adjust_body C c g'"
    using codec_laws.ssh_string_inj [OF assms(1), of "adjust_body C c g" "[]" "adjust_body C c g'" "[]"]
      assms(2) l by (simp add: codec_laws.frame_string [OF assms(1)])
  then have "be_u32 C (u32_be C g @ []) = be_u32 C (u32_be C g' @ [])" by (simp add: adjust_body_def)
  then show ?thesis by (simp only: codec_laws.be_u32_u32_be [OF assms(1)])
qed

lemma credit_sent:
  assumes "codec_laws C" and "credit_ok a b T f" and "channels (fl_snd f) a = Some c"
    and "pieces_sent C qs (e_write (fl_snd f)) (e_write snd') c c'"
    and "channels snd' = (channels (fl_snd f))(a \<mapsto> c')"
    and "e_write snd' = e_write (fl_snd f) @ frames C (map (data_body C c) ps)"
    and "\<forall>p \<in> set ps. length p < 2 ^ 31"
  shows "credit_ok a b T (f\<lparr> fl_snd := snd', fl_data := fl_data f @ ps \<rparr>)"
proof -
  have "as_usize (recipient_maximum_packet_size c) < 2 ^ 31"
    using assms(2,3) by (auto simp: credit_ok_def word_less_nat_alt)
  then have "\<forall>q \<in> set qs. length q < 2 ^ 31"
    using assms(4) by (fastforce simp: pieces_sent_def)
  then have "ps = qs"
    using codec_laws.data_frames_inj [OF assms(1), of c ps qs] assms(4,6,7) by (simp add: pieces_sent_def)
  with assms(2-5) show ?thesis
    by (auto simp: credit_ok_def pieces_sent_def)
qed

lemma credit_received:
  assumes "codec_laws C" and "credit_ok a b T f" and "fl_data f = p # rest" and "target \<le> T"
    and "channels (fl_rcv f) b = Some c"
    and "adjust_window_size C b p target (fl_rcv f) = (rcv', adjusted)"
    and "if adjusted then e_write rcv' = e_write (fl_rcv f) @ frame C (adjust_body C c g) \<and> gs = [g]
         else gs = []"
  shows "credit_ok a b T (f\<lparr> fl_data := rest, fl_rcv := rcv', fl_grants := fl_grants f @ gs \<rparr>)"
proof -
  obtain cs where cs: "channels (fl_snd f) a = Some cs"
    "as_usize (recipient_window_size cs) + (length p + amount rest) + granted_amount (fl_grants f) =
       as_usize (sender_window_size c)"
    "sender_window_size c \<le> T" "recipient_maximum_packet_size cs < 2 ^ 31"
    using assms(2,3,5) by (auto simp: credit_ok_def)
  define w where "w = sender_window_size c - as_u32 (length p)"
  have short: "length p < 2 ^ 32" and le: "as_u32 (length p) \<le> sender_window_size c"
    using cs(2) unat_less_2p32 [of "sender_window_size c"] by (auto simp: word_le_nat_alt)
  then have w: "as_usize w = as_usize (sender_window_size c) - length p"
    by (simp add: w_def unat_sub)
  show ?thesis
  proof (cases "w < target div 2")
    case True
    then have adj: "adjusted" "channels rcv' = (channels (fl_rcv f))(b \<mapsto> c\<lparr> sender_window_size := target \<rparr>)"
      "e_write rcv' = e_write (fl_rcv f) @ frame C (adjust_body C c (target - w))"
      using assms(5,6) le by (auto simp: adjust_window_size_def Let_def w_def adjust_body_def)
    with assms(7) have "gs = [target - w]" using adjust_body_inj [OF assms(1)] by auto
    moreover have "w \<le> target"
    proof -
      have "as_usize w < as_usize target div 2"
        using True by (simp add: word_less_nat_alt unat_div)
      then show ?thesis by (simp add: word_le_nat_alt)
    qed
    ultimately show ?thesis
      using cs assms(4) w by (simp add: credit_ok_def adj unat_sub word_le_nat_alt)
  next
    case False
    then have "\<not> adjusted" "channels rcv' = (channels (fl_rcv f))(b \<mapsto> c\<lparr> sender_window_size := w \<rparr>)"
      using assms(5,6) le by (auto simp: adjust_window_size_def Let_def w_def)
    moreover have "w \<le> T" using cs(3) w by (simp add: word_le_nat_alt)
    ultimately show ?thesis
      using cs w assms(7) by (simp add: credit_ok_def)
  qed
qed

lemma credit_grantable:
  assumes "credit_ok a b T f" and "g \<in> set (fl_grants f)"
  shows "\<exists>c snd'. channels (fl_snd f) a = Some c \<and>
    as_usize (recipient_window_size c + g) = as_usize (recipient_window_size c) + as_usize g \<and>
    enc_add_window a g (fl_snd f) = Ok (snd', recipient_window_size c + g) \<and>
    channels snd' = (channels (fl_snd f))(a \<mapsto> c\<lparr> recipient_window_size := recipient_window_size c + g \<rparr>)"
proof -
  obtain cs and cr :: channel where cs: "channels (fl_snd f) a = Some cs"
    "as_usize (recipient_window_size cs) + amount (fl_data f) + granted_amount (fl_grants f) =
       as_usize (sender_window_size cr)"
    using assms(1) unfolding credit_ok_def by blast
  moreover have "as_usize g \<le> granted_amount (fl_grants f)"
    using assms(2) by (auto intro: member_le_sum_list)
  ultimately have "as_usize (recipient_window_size cs) + as_usize g < 2 ^ 32"
    using unat_less_2p32 [of "sender_window_size cr"] by linarith
  then show ?thesis
    using cs(1) by (auto simp: enc_add_window_def Let_def unat_word_ariths)
qed

lemma credit_step:
  assumes "codec_laws C" and "flow_step C a b T f f'" and "credit_ok a b T f"
  shows "credit_ok a b T f'"
  using assms(2,3)
proof cases
  case (send c buf snd' ps)
  from enc_data_sends_pieces [OF send(3,2)] credit_sent [OF assms(1,3) send(2) _ _ send(4,5)]
  show ?thesis unfolding send(1) by blast
next
  case (flush c snd' n ps)
  from flush_pending_sends_pieces [OF flush(3,2)] credit_sent [OF assms(1,3) flush(2) _ _ flush(4,5)]
  show ?thesis unfolding flush(1) by blast
next
  case (receive p rest target c rcv' adjusted g gs)
  then show ?thesis using credit_received [OF assms(1,3)] by blast
next
  case (granted g rest snd' w)
  then have "g \<in> set (fl_grants f)" by simp
  from credit_grantable [OF assms(3) this] granted assms(3) show ?thesis
    by (auto simp: credit_ok_def)
qed

lemma credit_run:
  assumes "codec_laws C" and "(flow_step C a b T)\<^sup>*\<^sup>* f f'" and "credit_ok a b T f"
  shows "credit_ok a b T f'"
  using assms(2,3) by (induction rule: rtranclp_induct) (auto intro: credit_step [OF assms(1)])

text \<open>
  C17. Flow control loses and invents nothing. Start with a channel whose two ends agree on the
  window, with nothing on its way, and let one end send and flush in any way, the other receive
  and choose any targets for its window, and packets take any time: what the sending end may still
  send, the data on its way and the grants on their way always add up to the window of the
  receiving end. So no packet of data is larger than the window it arrives at, the window never
  exceeds the largest target, and no grant overflows the window of the sending end.
\<close>

theorem window_credit_conserved:
  assumes "codec_laws C" and "(flow_step C a b T)\<^sup>*\<^sup>* f0 f"
    and "channels (fl_snd f0) a = Some cs0" and "channels (fl_rcv f0) b = Some cr0"
    and "fl_data f0 = []" and "fl_grants f0 = []"
    and "recipient_window_size cs0 = sender_window_size cr0" and "sender_window_size cr0 \<le> T"
    and "recipient_maximum_packet_size cs0 < 2 ^ 31"
  shows "\<exists>cs cr. channels (fl_snd f) a = Some cs \<and> channels (fl_rcv f) b = Some cr \<and>
    as_usize (recipient_window_size cs) + amount (fl_data f) + granted_amount (fl_grants f) =
      as_usize (sender_window_size cr) \<and>
    sender_window_size cr \<le> T \<and>
    (\<forall>p \<in> set (fl_data f). length p \<le> as_usize (sender_window_size cr)) \<and>
    (\<forall>g \<in> set (fl_grants f). \<exists>snd'. enc_add_window a g (fl_snd f) = Ok (snd', recipient_window_size cs + g))"
proof -
  have "credit_ok a b T f0" using assms(3-9) by (auto simp: credit_ok_def)
  with assms(1,2) have ok: "credit_ok a b T f" by (rule credit_run)
  then obtain cs and cr :: channel where c: "channels (fl_snd f) a = Some cs" "channels (fl_rcv f) b = Some cr"
    "as_usize (recipient_window_size cs) + amount (fl_data f) + granted_amount (fl_grants f) =
       as_usize (sender_window_size cr)" "sender_window_size cr \<le> T"
    by (auto simp: credit_ok_def)
  have "length p \<le> amount (fl_data f)" if "p \<in> set (fl_data f)" for p
    using that by (auto intro: member_le_sum_list)
  then have "length p \<le> as_usize (sender_window_size cr)" if "p \<in> set (fl_data f)" for p
    using c(3) that by fastforce
  with c show ?thesis using credit_grantable [OF ok] by fastforce
qed

text \<open>A sending end with a window of three bytes, and a receiving end that agrees.\<close>

definition demo_flow :: flow where
  "demo_flow = \<lparr> fl_snd = demo_enc, fl_data = [],
     fl_rcv = demo_enc\<lparr> channels := [7 \<mapsto> demo_channel\<lparr> sender_window_size := 3 \<rparr>] \<rparr>,
     fl_grants = [] \<rparr>"

theorem window_credit_conserved_witness:
  "\<exists>f cs. (flow_step rfc_codec 2 7 8)\<^sup>*\<^sup>* demo_flow f \<and> concat (fl_data f) = [1, 2, 3] \<and>
    channels (fl_snd f) 2 = Some cs \<and> as_usize (recipient_window_size cs) + amount (fl_data f) = 3"
proof -
  obtain pieces where p: "enc_data rfc_codec 2 [1, 2, 3, 4, 5] demo_enc = Ok (demo_enc\<lparr>
        e_write := e_write demo_enc @ frames rfc_codec (map (data_body rfc_codec demo_channel) pieces),
        channels := (channels demo_enc)(2 \<mapsto> demo_channel\<lparr>
          recipient_window_size := recipient_window_size demo_channel - as_u32 (length (concat pieces)),
          pending_data := held_back [1, 2, 3, 4, 5] (length (concat pieces)) \<rparr>) \<rparr>)"
      and c: "concat pieces = take (as_usize (recipient_window_size demo_channel)) [1, 2, 3, 4, 5]"
      and b: "\<forall>p \<in> set pieces. p \<noteq> [] \<and> length p \<le> as_usize (recipient_maximum_packet_size demo_channel)"
    using enc_data_sends [OF demo_enc_channel, where buf = "[1, 2, 3, 4, 5]" and C = rfc_codec]
    by (auto simp: demo_channel_def)
  let ?f = "demo_flow\<lparr> fl_snd := demo_enc\<lparr>
        e_write := e_write demo_enc @ frames rfc_codec (map (data_body rfc_codec demo_channel) pieces),
        channels := (channels demo_enc)(2 \<mapsto> demo_channel\<lparr>
          recipient_window_size := recipient_window_size demo_channel - as_u32 (length (concat pieces)),
          pending_data := held_back [1, 2, 3, 4, 5] (length (concat pieces)) \<rparr>) \<rparr>,
      fl_data := fl_data demo_flow @ pieces \<rparr>"
  have "flow_step rfc_codec 2 7 8 demo_flow ?f"
    by (rule flow_step.send [where c = demo_channel and buf = "[1, 2, 3, 4, 5]"])
      (use b in \<open>auto simp: demo_flow_def demo_enc_channel p demo_channel_def\<close>)
  then have run: "(flow_step rfc_codec 2 7 8)\<^sup>*\<^sup>* demo_flow ?f" by blast
  from window_credit_conserved [OF rfc.codec_laws_axioms run, of demo_channel
      "demo_channel\<lparr> sender_window_size := 3 \<rparr>"]
  obtain cs cr where "channels (fl_snd ?f) 2 = Some cs" "channels (fl_rcv ?f) 7 = Some cr"
    "as_usize (recipient_window_size cs) + amount (fl_data ?f) + granted_amount (fl_grants ?f) =
      as_usize (sender_window_size cr)"
    by (auto simp: demo_flow_def demo_enc_channel demo_channel_def)
  moreover from this(2) have "sender_window_size cr = 3" by (auto simp: demo_flow_def)
  moreover have "concat (fl_data ?f) = [1, 2, 3]" using c by (simp add: demo_flow_def demo_channel_def)
  ultimately show ?thesis using run by (intro exI [of _ ?f] exI [of _ cs]) (simp add: demo_flow_def)
qed

end
