(* ===== verification/Login.thy ===== *)
theory Login
  imports Requests Auth_Dialogue Negotiation_Props
begin

unbundle bit_operations_syntax

text \<open>
  The client's side of the authentication dialogue together with the server's: what becomes of
  the requests a client writes.
\<close>

section \<open>The methods a server lists\<close>

lemma bit_flags:
  "bit MS_NONE n \<longleftrightarrow> n = 0" "bit MS_PASSWORD n \<longleftrightarrow> n = 1" "bit MS_PUBLICKEY n \<longleftrightarrow> n = 2"
  "bit MS_HOSTBASED n \<longleftrightarrow> n = 3" "bit MS_KEYBOARD_INTERACTIVE n \<longleftrightarrow> n = 4"
proof -
  have p: "bit (push_bit k 1 :: method_set) n \<longleftrightarrow> n = k" if "k < 32" for k
    using that by (auto simp: bit_simps)
  show "bit MS_NONE n \<longleftrightarrow> n = 0" using p [of 0] by (simp add: method_flags)
  show "bit MS_PASSWORD n \<longleftrightarrow> n = 1" using p [of 1] by (simp add: method_flags)
  show "bit MS_PUBLICKEY n \<longleftrightarrow> n = 2" using p [of 2] by (simp add: method_flags)
  show "bit MS_HOSTBASED n \<longleftrightarrow> n = 3" using p [of 3] by (simp add: method_flags)
  show "bit MS_KEYBOARD_INTERACTIVE n \<longleftrightarrow> n = 4" using p [of 4] by (simp add: method_flags)
qed

abbreviation flags :: "method_set list" where
  "flags \<equiv> [MS_NONE, MS_PASSWORD, MS_PUBLICKEY, MS_HOSTBASED, MS_KEYBOARD_INTERACTIVE]"

lemma collect_flags:
  "set fs \<subseteq> set flags \<Longrightarrow>
   bit (foldl (\<lambda>y m. case ms_from_bytes m of Some f \<Rightarrow> ms_insert y f | None \<Rightarrow> y) z (map ms_bytes fs)) n \<longleftrightarrow>
   bit z n \<or> (\<exists>f \<in> set fs. bit f n)"
proof (induction fs arbitrary: z)
  case (Cons f fs)
  then have "ms_from_bytes (ms_bytes f) = Some f" by (intro ms_from_bytes_bytes) auto
  with Cons show ?case by (auto simp: ms_insert_def bit_or_iff)
qed simp

lemma good_flag_names: "good_names (map ms_bytes (filter P flags))"
  by (auto simp: good_names_def ms_bytes_def method_flags)

lemma methods_listed:
  "methods_of (split_commas (join_names (ms_names y))) = y AND ms_all"
proof (cases "ms_methods y = []")
  case True
  then have "\<forall>f \<in> set flags. \<not> ms_contains y f"
    unfolding ms_methods_eq filter_empty_conv .
  then have "\<not> bit y 0" "\<not> bit y 1" "\<not> bit y 2" "\<not> bit y 3" "\<not> bit y 4"
    by (simp_all add: flag_bit)
  then have "\<not> (bit y n \<and> bit ms_all n)" for n
    by (cases "n = 0") (auto simp: ms_all_def bit_simps bit_flags)
  then have "y AND ms_all = 0"
    by (intro bit_word_eqI) (auto simp: bit_simps)
  with True show ?thesis by (simp add: ms_names_def methods_of_def ms_from_bytes_def)
next
  case False
  then have "split_commas (join_names (ms_names y)) = map ms_bytes (ms_methods y)"
    using split_join [OF good_flag_names [of "ms_contains y"]]
    by (simp add: ms_names_def ms_methods_eq)
  then have "bit (methods_of (split_commas (join_names (ms_names y)))) n \<longleftrightarrow>
      (\<exists>f \<in> set (ms_methods y). bit f n)" for n
    using collect_flags [of "ms_methods y" 0 n] by (simp add: methods_of_def ms_methods_eq)
  then have "bit (methods_of (split_commas (join_names (ms_names y)))) n \<longleftrightarrow> bit (y AND ms_all) n" for n
    by (cases "n = 0") (auto simp: ms_methods_eq flag_bit bit_flags ms_all_def bit_simps)
  then show ?thesis by (intro bit_word_eqI) simp
qed

section \<open>Passwords\<close>

text \<open>What a client does with the two answers to a password request.\<close>

lemma client_reads_success:
  assumes "cl_handle_alive cs"
  shows "client_read_auth D CH hc [MSG_USERAUTH_SUCCESS] ar cenc cs =
    Ok (hc, cl_set_encrypted (cenc\<lparr> e_state := InitCompression,
        e_decompress := init_decompress (d_flate D) (server_compression cenc) (e_decompress cenc) \<rparr>)
      (cs\<lparr> cl_replies := cl_replies cs @ [Reply_AuthSuccess] \<rparr>))"
  using assms by (simp add: client_read_auth_def Let_def index_def cl_reply_def)

lemma client_reads_failure:
  assumes "codec_laws (d_codec D)" and "cl_handle_alive cs" and "short (join_names (ms_names left))"
  shows "client_read_auth D CH hc
      ([MSG_USERAUTH_FAILURE] @ name_list (d_codec D) (ms_names left) @ [partial]) ar cenc cs =
    (if left AND ms_all = 0 then Err (Thrussh E_NoAuthMethod)
     else Ok (hc, (cl_set_encrypted (cenc\<lparr> e_state :=
            WaitingAuthRequest (ar\<lparr> ar_methods := left AND ms_all \<rparr>) \<rparr>)
          (cl_set_common ((cl_common cs)\<lparr> cs_auth_method := None \<rparr>) cs))
        \<lparr> cl_replies := cl_replies cs @ [Reply_AuthFailure] \<rparr>))"
proof -
  let ?b = "[MSG_USERAUTH_FAILURE] @ name_list (d_codec D) (ms_names left) @ [partial]"
  have "drop 1 ?b = ssh_string (d_codec D) (join_names (ms_names left)) @ [partial]"
    by (simp add: codec_laws.name_list_eq [OF assms(1)])
  note r = codec_laws.read_string_at(1) [OF assms(1) this assms(3)]
  have i: "index ?b 0 = Ok MSG_USERAUTH_FAILURE" by (simp add: index_def)
  show ?thesis
    unfolding client_read_auth_def Let_def i rbind.simps r prod.case methods_listed
    using assms(2) by (simp add: cl_reply_def cl_set_encrypted_def cl_set_common_def)
qed

lemma join_names_length:
  "length (join_names ns) \<le> sum_list (map length ns) + length ns"
  by (induction ns rule: join_names.induct) auto

lemma short_names: "short (join_names (ms_names y))"
proof -
  have "sum_list (map length (map ms_bytes (filter P flags))) \<le> 50" for P
    by (auto simp: ms_bytes_def method_flags)
  moreover have "length (map ms_bytes (filter P flags)) \<le> 5" for P
    by simp
  ultimately have "length (join_names (ms_names y)) \<le> 50 + 5"
    unfolding ms_names_def ms_methods_eq by (meson add_mono join_names_length le_trans)
  then show ?thesis by simp
qed

lemma password_body:
  "auth_request_body C K user (Method_Password password) = Ok (password_request C 1 user password)"
  by (simp add: password_request_def userauth_request_def)

text \<open>
  C25. Logging in with a password. The server's application decides about the request the client
  writes. When it accepts, the session is recorded for that user, and the client that reads the
  answer reports success to its application and turns to compression, as the server does. When it
  does not, passwords are no longer accepted, and the client that reads the answer reports failure
  and knows exactly the methods the server has left; if none is left it gives up.
\<close>

theorem password_login:
  assumes "codec_laws (d_codec D)" and "sound_string user" and "sound_string password"
    and "e_state senc = WaitingAuthRequest sar" and "h_auth_password H hs user password = Ok (hs', a)"
    and "cl_handle_alive cs" and "left = ms_minus (ar_methods sar) MS_PASSWORD"
  shows "\<exists>request user' senc' answer.
    auth_request_body (d_codec D) (d_keys D) user (Method_Password password) = Ok request \<and>
    server_read_auth_request D H hs request (u0, senc) = Ok (hs', user', senc') \<and>
    e_write senc' = e_write senc @ frame (d_codec D) answer \<and>
    (if a = Auth_Accept then
       user' = user \<and> e_state senc' = InitCompression \<and>
       (\<exists>cs'. client_read_auth D CH hc answer car cenc cs = Ok (hc, cs') \<and>
         cl_replies cs' = cl_replies cs @ [Reply_AuthSuccess] \<and>
         (\<exists>cenc'. cl_encrypted cs' = Some cenc' \<and> e_state cenc' = InitCompression))
     else
       user' = [] \<and> (\<exists>sar'. e_state senc' = WaitingAuthRequest sar' \<and> ar_methods sar' = left) \<and>
       (if left AND ms_all = 0
        then client_read_auth D CH hc answer car cenc cs = Err (Thrussh E_NoAuthMethod)
        else \<exists>cs'. client_read_auth D CH hc answer car cenc cs = Ok (hc, cs') \<and>
          cl_replies cs' = cl_replies cs @ [Reply_AuthFailure] \<and>
          (\<exists>cenc' car'. cl_encrypted cs' = Some cenc' \<and> e_state cenc' = WaitingAuthRequest car' \<and>
             ar_methods car' = left AND ms_all)))"
proof -
  let ?C = "d_codec D" and ?request = "password_request (d_codec D) 1 user password"
  let ?sar = "sar\<lparr> ar_methods := left, ar_partial_success := False \<rparr>"
  let ?failure = "[MSG_USERAUTH_FAILURE] @ name_list ?C (ms_names left) @ [0]"
  note body = password_body [of ?C "d_keys D" user password]
  have run: "server_read_auth_request D H hs ?request (u0, senc) =
      (if a = Auth_Accept then Ok (hs', user, enc_accept ?C senc)
       else Ok (hs', [], enc_reject ?C ?sar senc))"
    using assms(2,3,7)
    by (simp only: codec_laws.password_request_run [OF assms(1) refl _ _ _ _ assms(4,5)])
  show ?thesis
  proof (cases "a = Auth_Accept")
    case True
    have "e_write (enc_accept ?C senc) = e_write senc @ frame ?C [MSG_USERAUTH_SUCCESS]"
      "e_state (enc_accept ?C senc) = InitCompression"
      by (simp_all only: enc_accept_def server_auth_request_success_def push_packet_eq) simp_all
    with body run client_reads_success [OF assms(6), of D CH hc car cenc] True show ?thesis
      apply -
      apply (rule exI [where x = ?request])
      apply (rule exI [where x = user])
      apply (rule exI [where x = "enc_accept ?C senc"])
      apply (rule exI [where x = "[MSG_USERAUTH_SUCCESS]"])
      apply (simp add: cl_set_encrypted_def del: auth_request_body.simps)
      done
  next
    case False
    have "e_write (enc_reject ?C ?sar senc) = e_write senc @ frame ?C ?failure"
      "\<exists>sar'. e_state (enc_reject ?C ?sar senc) = WaitingAuthRequest sar' \<and> ar_methods sar' = left"
      by (simp_all add: enc_reject_def reject_auth_request_def)
    with body run client_reads_failure [OF assms(1,6) short_names, of CH hc left 0 car cenc] False
    show ?thesis
      apply -
      apply (rule exI [where x = ?request])
      apply (rule exI [where x = "[]"])
      apply (rule exI [where x = "enc_reject ?C ?sar senc"])
      apply (rule exI [where x = ?failure])
      apply (simp add: cl_set_encrypted_def del: auth_request_body.simps)
      done
  qed
qed

definition demo_asked :: auth_request where
  "demo_asked = \<lparr> ar_methods = ms_all, ar_partial_success = False, ar_current = None,
     ar_rejection_count = 0 \<rparr>"

definition demo_ch :: "unit client_handler" where
  "demo_ch = client_default_handler rfc_codec"

theorem password_login_witness:
  "\<exists>request senc' answer cs'.
    auth_request_body (d_codec demo_deps) (d_keys demo_deps) [97] (Method_Password [8]) = Ok request \<and>
    server_read_auth_request demo_deps demo_app () request ([], demo_waiting) = Ok ((), [], senc') \<and>
    e_write senc' = e_write demo_waiting @ frame (d_codec demo_deps) answer \<and>
    client_read_auth demo_deps demo_ch () answer demo_asked demo_waiting (demo_client None) = Ok ((), cs') \<and>
    cl_replies cs' = [Reply_AuthFailure]"
proof -
  have a: "h_auth_password demo_app () [97] [8] = Ok ((), Auth_Reject)" by (simp add: demo_app_def)
  have s: "sound_string [97]" "sound_string [8]" by simp_all
  have c: "cl_handle_alive (demo_client None)" "cl_replies (demo_client None) = []"
    by (simp_all add: demo_client_def)
  have m: "ms_minus ms_all MS_PASSWORD AND ms_all \<noteq> 0" by code_simp
  from password_login [OF demo_deps_laws(1) s demo_waiting_state(1) a c(1) refl, where ?u0.0 = "[]" and
      CH = demo_ch and hc = "()" and car = demo_asked and cenc = demo_waiting] c(2) m
  show ?thesis by auto
qed

section \<open>Public keys\<close>

definition ed25519_blob :: "codec \<Rightarrow> keys_lib \<Rightarrow> bytes \<Rightarrow> bytes" where
  "ed25519_blob C K pub = ssh_string C (ED25519 K) @ ssh_string C pub"

lemma push_ed25519_pair:
  assumes "codec_laws C" and "32 \<le> length key"
  shows "push_key_pair C K (KP_Ed25519 key) buffer =
    Ok (buffer @ ssh_string C (ed25519_blob C K (drop 32 key)))"
  using push_ed25519_string [OF assms(1), of K "drop 32 key" buffer] assms(2)
  by (simp add: ed25519_blob_def slice_from_def)

lemma probe_body:
  assumes "codec_laws C" and "32 \<le> length key"
  shows "auth_request_body C K user (Method_PublicKey (KP_Ed25519 key)) =
    Ok (pk_request C user 0 (ED25519 K) (ed25519_blob C K (drop 32 key)))"
  by (simp add: push_ed25519_pair [OF assms] auth_probe_def pk_request_def userauth_request_def
      del: push_key_pair.simps)

text \<open>The bytes a client signs.\<close>

definition signed_bytes :: "codec \<Rightarrow> keys_lib \<Rightarrow> bytes \<Rightarrow> bytes \<Rightarrow> bytes \<Rightarrow> bytes" where
  "signed_bytes C K session_id user pub =
     ssh_string C session_id @ pk_request C user 1 (ED25519 K) (ed25519_blob C K pub)"

lemma sends_signature:
  assumes "codec_laws C" and "32 \<le> length key"
    and "add_self_signature K (KP_Ed25519 key) (signed_bytes C K (e_session_id enc) user (drop 32 key)) =
      Ok (signed_bytes C K (e_session_id enc) user (drop 32 key) @ sig)"
  shows "client_send_signature C K user (Method_PublicKey (KP_Ed25519 key)) enc =
    Ok (enc_push C (pk_request C user 1 (ED25519 K) (ed25519_blob C K (drop 32 key)) @ sig) enc)"
proof -
  let ?r = "pk_request C user 1 (ED25519 K) (ed25519_blob C K (drop 32 key))"
  have "client_make_to_sign C (e_session_id enc) user (key_pair_name K (KP_Ed25519 key))
      (push_key_pair C K (KP_Ed25519 key)) =
    Ok (length (ssh_string C (e_session_id enc)), signed_bytes C K (e_session_id enc) user (drop 32 key))"
    by (simp add: client_make_to_sign_def push_ed25519_pair [OF assms(1,2)] signed_bytes_def
        pk_request_def userauth_request_def Let_def del: push_key_pair.simps)
  moreover have "slice_from (signed_bytes C K (e_session_id enc) user (drop 32 key) @ sig)
      (length (ssh_string C (e_session_id enc))) = Ok (?r @ sig)"
    by (simp add: slice_from_def signed_bytes_def)
  ultimately show ?thesis by (simp add: assms(3) del: key_pair_name.simps push_key_pair.simps)
qed

lemma client_reads_pk_ok:
  assumes "cs_auth_method (cl_common cs) = Some (Method_PublicKey kp)"
    and "client_send_signature (d_codec D) (d_keys D) (auth_user (cl_common cs)) (Method_PublicKey kp)
      (cenc\<lparr> e_state := WaitingAuthRequest (mark_pk_ok car) \<rparr>) = Ok cenc'"
  shows "\<exists>cs'. client_read_auth D CH hc (MSG_USERAUTH_PK_OK # answer) car cenc cs = Ok (hc, cs') \<and>
    cl_encrypted cs' = Some cenc'"
  using assms by (simp add: client_read_auth_def client_read_pk_ok_def Let_def index_def
      cl_set_encrypted_def cl_set_common_def)

text \<open>
  C24. Logging in with an Ed25519 key. The client asks whether its key would do; the server, whose
  application accepts the key, says so; the client signs the session identifier and its request;
  and the server verifies exactly the bytes that were signed, records the session for the user and
  lets it in. The two sides agree on those bytes because they hold the same session identifier.
\<close>

theorem publickey_login:
  assumes laws: "codec_laws (d_codec D)" and user: "sound_string user" and key: "32 \<le> length key"
    and lens: "short (ED25519 (d_keys D))" "short (ed25519_blob (d_codec D) (d_keys D) (drop 32 key))"
      "short algo" "short sig" "short (pk_signature (d_codec D) algo sig)"
    and signs: "add_self_signature (d_keys D) (KP_Ed25519 key)
        (signed_bytes (d_codec D) (d_keys D) sid user (drop 32 key)) =
      Ok (signed_bytes (d_codec D) (d_keys D) sid user (drop 32 key) @ pk_signature (d_codec D) algo sig)"
    and verifies: "verify_client_auth (d_keys D) pk
        (signed_bytes (d_codec D) (d_keys D) sid user (drop 32 key)) sig"
    and parses: "parse_key (d_keys D) (ED25519 (d_keys D))
        (ed25519_blob (d_codec D) (d_keys D) (drop 32 key)) = Ok pk"
    and server: "e_state senc = WaitingAuthRequest sar" "e_session_id senc = sid"
      "h_auth_publickey H h user pk = Ok (h', Auth_Accept)"
    and client: "cs_auth_method (cl_common cs) = Some (Method_PublicKey (KP_Ed25519 key))"
      "auth_user (cl_common cs) = user" "e_session_id cenc = sid"
  shows "\<exists>probe senc1 answer cs1 cenc1 request senc2.
    auth_request_body (d_codec D) (d_keys D) user (Method_PublicKey (KP_Ed25519 key)) = Ok probe \<and>
    server_read_auth_request D H h probe (u0, senc) = Ok (h', user, senc1) \<and>
    e_write senc1 = e_write senc @ frame (d_codec D) answer \<and>
    client_read_auth D CH hc answer car cenc cs = Ok (hc, cs1) \<and> cl_encrypted cs1 = Some cenc1 \<and>
    e_write cenc1 = e_write cenc @ frame (d_codec D) request \<and>
    server_read_auth_request D H h' request (user, senc1) = Ok (h', user, senc2) \<and>
    e_state senc2 = InitCompression \<and>
    e_write senc2 = e_write senc1 @ frame (d_codec D) [MSG_USERAUTH_SUCCESS]"
proof -
  let ?C = "d_codec D" and ?K = "d_keys D"
  let ?blob = "ed25519_blob ?C ?K (drop 32 key)"
  let ?probe = "pk_request ?C user 0 (ED25519 ?K) ?blob"
  let ?answer = "MSG_USERAUTH_PK_OK # ssh_string ?C (ED25519 ?K) @ ssh_string ?C ?blob"
  let ?request = "pk_request ?C user 1 (ED25519 ?K) ?blob @ pk_signature ?C algo sig"
  let ?ar1 = "sar\<lparr> ar_current := Some (CR_PublicKey ?blob (ED25519 ?K) True) \<rparr>"
  define senc1 where "senc1 = senc\<lparr> e_write := push_packet ?C (e_write senc) ?answer,
      e_state := WaitingAuthRequest ?ar1 \<rparr>"
  define cenc0 where "cenc0 = cenc\<lparr> e_state := WaitingAuthRequest (mark_pk_ok car) \<rparr>"
  have e1: "e_state senc1 = WaitingAuthRequest ?ar1" "e_session_id senc1 = sid"
    "e_write senc1 = e_write senc @ frame ?C ?answer"
    by (simp_all add: senc1_def server)
  have c0: "e_session_id cenc0 = sid" "e_write cenc0 = e_write cenc" by (simp_all add: cenc0_def client)
  have u: "utf8_valid user" "short user" using user by auto
  have asked: "server_read_auth_request D H h ?probe (u0, senc) = Ok (h', user, senc1)"
    unfolding codec_laws.pk_probe_run [OF laws refl u lens(1,2) server(1) parses]
    by (simp add: auth_pk_probe_def server(3) senc1_def Let_def)
  have "client_send_signature ?C ?K user (Method_PublicKey (KP_Ed25519 key)) cenc0 =
      Ok (enc_push ?C ?request cenc0)"
    by (rule sends_signature [OF laws key]) (use signs c0 in simp)
  then obtain cs1 where signed: "client_read_auth D CH hc ?answer car cenc cs = Ok (hc, cs1)"
    "cl_encrypted cs1 = Some (enc_push ?C ?request cenc0)"
    using client_reads_pk_ok [OF client(1), where D = D and car = car and cenc = cenc and CH = CH and
        hc = hc and answer = "ssh_string ?C (ED25519 ?K) @ ssh_string ?C ?blob"]
    unfolding client(2) cenc0_def by auto
  have s: "short (ssh_string ?C algo @ ssh_string ?C sig)"
    using lens(5) by (simp add: pk_signature_def codec_laws.length_ssh_string [OF laws])
  have accepted: "server_read_auth_request D H h' ?request (user, senc1) =
      Ok (h', user, enc_accept ?C senc1)"
    unfolding codec_laws.pk_real_run [OF laws refl u lens(1,2) e1(1) parses one_neq_zero s lens(3,4)]
    using verifies by (simp add: sent_pk_ok_def e1(2) signed_bytes_def)
  have "e_write (enc_push ?C ?request cenc0) = e_write cenc @ frame ?C ?request"
    "e_state (enc_accept ?C senc1) = InitCompression"
    "e_write (enc_accept ?C senc1) = e_write senc1 @ frame ?C [MSG_USERAUTH_SUCCESS]"
    by (simp_all add: enc_push_def c0 enc_accept_def server_auth_request_success_def)
  then show ?thesis
    using probe_body [OF laws key] asked e1(3) signed accepted by blast
qed

text \<open>The library of \<^verbatim>\<open>demo_deps\<close>, with a parser that reads the key of a blob.\<close>

definition demo_pk_deps :: deps where
  "demo_pk_deps = demo_deps\<lparr> d_keys := (d_keys demo_deps)\<lparr>
     parse_key := (\<lambda>a b. Ok (PK_Ed25519 (drop 9 b))) \<rparr> \<rparr>"

definition demo_pair :: bytes where
  "demo_pair = replicate 32 0 @ [5]"

definition demo_key_client :: client_session where
  "demo_key_client = cl_set_common ((cl_common (demo_client None))\<lparr> auth_user := [97],
     cs_auth_method := Some (Method_PublicKey (KP_Ed25519 demo_pair)) \<rparr>) (demo_client None)"

lemma demo_pk_deps_simps:
  "d_codec demo_pk_deps = rfc_codec" "ED25519 (d_keys demo_pk_deps) = [1]"
  "parse_key (d_keys demo_pk_deps) a b = Ok (PK_Ed25519 (drop 9 b))"
  "verify_client_auth (d_keys demo_pk_deps) (PK_Ed25519 [5]) b (5 # b)"
  "add_self_signature (d_keys demo_pk_deps) (KP_Ed25519 demo_pair) b =
     Ok (b @ pk_signature rfc_codec [1] (5 # b))"
  by (simp_all add: demo_pk_deps_def demo_deps_def demo_pair_def pk_signature_def rfc_codec_def)

theorem publickey_login_witness:
  "\<exists>probe senc1 answer cs1 cenc1 request senc2.
    auth_request_body rfc_codec (d_keys demo_pk_deps) [97] (Method_PublicKey (KP_Ed25519 demo_pair)) = Ok probe \<and>
    server_read_auth_request demo_pk_deps demo_pk_app () probe ([], demo_waiting) = Ok ((), [97], senc1) \<and>
    e_write senc1 = e_write demo_waiting @ frame rfc_codec answer \<and>
    client_read_auth demo_pk_deps demo_ch () answer demo_asked demo_waiting demo_key_client = Ok ((), cs1) \<and>
    cl_encrypted cs1 = Some cenc1 \<and> e_write cenc1 = e_write demo_waiting @ frame rfc_codec request \<and>
    server_read_auth_request demo_pk_deps demo_pk_app () request ([97], senc1) = Ok ((), [97], senc2) \<and>
    e_state senc2 = InitCompression \<and>
    e_write senc2 = e_write senc1 @ frame rfc_codec [MSG_USERAUTH_SUCCESS]"
proof -
  let ?to_sign = "signed_bytes rfc_codec (d_keys demo_pk_deps) [9] [97] [5]"
  have pub: "drop 32 demo_pair = [5]" "32 \<le> length demo_pair" by (simp_all add: demo_pair_def)
  have len: "length ?to_sign = 62"
    by (simp add: signed_bytes_def pk_request_def userauth_request_def ed25519_blob_def
        demo_pk_deps_simps rfc.length_ssh_string)
  have parse: "parse_key (d_keys demo_pk_deps) [1] (ed25519_blob rfc_codec (d_keys demo_pk_deps) [5]) =
      Ok (PK_Ed25519 [5])"
    by (simp add: demo_pk_deps_simps ed25519_blob_def rfc_codec_def rfc_string_def rfc_u32_be_def)
  have app: "h_auth_publickey demo_pk_app () [97] (PK_Ed25519 [5]) = Ok ((), Auth_Accept)"
    by (simp add: demo_pk_app_def)
  have sid: "e_session_id demo_waiting = [9]"
    by (simp add: demo_waiting_def encrypted_new_def demo_new_keys_def)
  have cl: "cs_auth_method (cl_common demo_key_client) = Some (Method_PublicKey (KP_Ed25519 demo_pair))"
    "auth_user (cl_common demo_key_client) = [97]"
    by (simp_all add: demo_key_client_def cl_set_common_def)
  show ?thesis
    by (rule publickey_login [where D = demo_pk_deps and key = demo_pair, unfolded demo_pk_deps_simps(1,2) pub(1),
          OF rfc.codec_laws_axioms _ pub(2) _ _ _ _ _ _ _ parse demo_waiting_state(1) sid app cl sid,
          where algo = "[1]" and sig = "5 # ?to_sign"])
      (simp_all add: demo_pk_deps_simps pk_signature_def rfc.length_ssh_string len ed25519_blob_def)
qed

section \<open>Too late\<close>

text \<open>
  A client that asks to be authenticated after the server has accepted its request for the
  service cannot be. The request is written, but the client does not note that it waits for an
  answer: whatever the server answers, the connection fails.
\<close>

lemma late_authentication_fails:
  assumes "codec_laws (d_codec D)" and "cl_encrypted s = Some enc"
    and "e_state enc = WaitingServiceRequest True False" and "e_rekey enc = None"
    and "cs_kex (cl_common s) = None" and "cs_auth_method (cl_common s) = None"
    and "auth_request_body (d_codec D) (d_keys D) user m = Ok request"
  shows "\<exists>s1 s2 enc2.
    client_reply D W H h ([MSG_SERVICE_ACCEPT] @ ssh_string (d_codec D) (ascii ''ssh-userauth'')) s =
      Ok (h, s1) \<and>
    client_on_message D (Msg_Authenticate user m) s1 = Ok s2 \<and>
    cl_encrypted s2 = Some enc2 \<and> e_write enc2 = e_write enc @ frame (d_codec D) request \<and>
    (\<forall>b answer. b \<notin> {MSG_KEXINIT, MSG_SERVICE_ACCEPT} \<longrightarrow>
      client_reply D W H h (b # answer) s2 = Err (Thrussh E_Inconsistent))"
proof -
  define accept where "accept = [MSG_SERVICE_ACCEPT] @ ssh_string (d_codec D) (ascii ''ssh-userauth'')"
  let ?enc1 = "enc\<lparr> e_state := WaitingServiceRequest True True \<rparr>"
  have "drop 1 accept = ssh_string (d_codec D) (ascii ''ssh-userauth'') @ []"
    by (simp add: accept_def)
  note r = codec_laws.read_string_at(1) [OF assms(1) this]
  have i: "index accept 0 = Ok MSG_SERVICE_ACCEPT" by (simp add: accept_def index_def)
  have read: "client_read_service D accept True False enc s = Ok (cl_set_encrypted ?enc1 s)"
    unfolding client_read_service_def Let_def i rbind.simps
    by (subst r) (simp_all add: assms(6))
  have enc: "cs_encrypted (cl_common s) = Some enc" using assms(2) by simp
  have "client_reply D W H h accept s = Ok (h, cl_set_encrypted ?enc1 s)"
    unfolding client_reply_def client_read_encrypted_def client_read_service_state_def Let_def i
    by (simp add: assms(3-5) enc read)
  moreover have "client_on_message D (Msg_Authenticate user m) (cl_set_encrypted ?enc1 s) =
      Ok (cl_set_common ((cl_common s)\<lparr> cs_encrypted := Some (enc_push (d_codec D) request ?enc1),
        auth_user := user, cs_auth_method := Some m \<rparr>) s)"
    by (simp add: write_auth_request_if_needed_def cl_set_encrypted_def write_auth_request_def
        assms(7) Let_def cl_set_common_def)
  ultimately show ?thesis
    unfolding accept_def [symmetric]
    apply (intro exI conjI)
        apply assumption+
      apply (auto simp: cl_set_common_def enc_push_def client_reply_def client_read_encrypted_def
        client_read_service_state_def client_read_service_def index_def assms(3-5))
    done
qed

end
