(* ===== verification/Client_Phases.thy ===== *)
theory Client_Phases
  imports Client_Trust Automaton
begin

text \<open>
  The protocol of a connection as an automaton, as a client goes through it, and that the client
  implements it: every packet either leaves the phase as it is or leads to the next one. The
  server's side is in \<open>Server_Phases\<close>; here the first packet of the key exchange is not checked
  for its type.
\<close>

section \<open>The automaton\<close>

inductive client_phase_step :: "phase \<Rightarrow> u8 \<Rightarrow> phase \<Rightarrow> bool" where
  stay: "client_phase_step p b p"
| init: "client_phase_step Exchange_Init b Exchange_DH"
| dh: "client_phase_step Exchange_DH MSG_KEX_ECDH_REPLY Exchange_Keys"
| keys: "client_phase_step Exchange_Keys MSG_NEWKEYS Service"
| service: "client_phase_step Service MSG_SERVICE_ACCEPT Authentication"
| authenticated: "client_phase_step Authentication MSG_USERAUTH_SUCCESS Connection"

inductive_simps client_phase_step_dh [simp]: "client_phase_step Exchange_DH b q"
inductive_simps client_phase_step_keys [simp]: "client_phase_step Exchange_Keys b q"
inductive_simps client_phase_step_service [simp]: "client_phase_step Service b q"
inductive_simps client_phase_step_authentication [simp]: "client_phase_step Authentication b q"

text \<open>The packets that lead to a phase, after the first one.\<close>

fun client_way_to :: "phase \<Rightarrow> u8 list" where
  "client_way_to Exchange_Keys = [MSG_KEX_ECDH_REPLY]"
| "client_way_to Service = [MSG_KEX_ECDH_REPLY, MSG_NEWKEYS]"
| "client_way_to Authentication = [MSG_KEX_ECDH_REPLY, MSG_NEWKEYS, MSG_SERVICE_ACCEPT]"
| "client_way_to Connection =
     [MSG_KEX_ECDH_REPLY, MSG_NEWKEYS, MSG_SERVICE_ACCEPT, MSG_USERAUTH_SUCCESS]"
| "client_way_to p = []"

interpretation client_automaton: automaton client_phase_step client_way_to
  by unfold_locales (erule client_phase_step.cases, auto)

section \<open>The phases of a session\<close>

fun client_kex_phase :: "kex option \<Rightarrow> phase" where
  "client_kex_phase (Some (Kex_KexInit ki)) = Exchange_Init"
| "client_kex_phase (Some (Kex_KexDhDone kdd)) = Exchange_DH"
| "client_kex_phase (Some (Kex_NewKeys nk)) = Exchange_Keys"
| "client_kex_phase k = Idle"

fun client_state_phase :: "encrypted_state \<Rightarrow> phase" where
  "client_state_phase (WaitingServiceRequest sent accepted) = Service"
| "client_state_phase (WaitingAuthRequest ar) = Authentication"
| "client_state_phase InitCompression = Connection"
| "client_state_phase Authenticated = Connection"

definition client_phase :: "client_session \<Rightarrow> phase" where
  "client_phase s = (case cl_encrypted s of
     None \<Rightarrow> client_kex_phase (cs_kex (cl_common s)) | Some enc \<Rightarrow> client_state_phase (e_state enc))"

text \<open>An encrypted session is not in its first key exchange.\<close>

definition one_phase :: "client_session \<Rightarrow> bool" where
  "one_phase s \<longleftrightarrow> cl_encrypted s = None \<or> cs_kex (cl_common s) = None"

lemma client_phase_encrypted: "cl_encrypted s = Some enc \<Longrightarrow> client_phase s = client_state_phase (e_state enc)"
  by (simp add: client_phase_def)

lemma still_phase:
  assumes "cl_still s s'"
  shows "client_phase s' = client_phase s" and "one_phase s' = one_phase s"
  using assms by (auto simp: cl_still_def cl_same_def trust_view_def client_phase_def one_phase_def
      split: option.split)

text \<open>What a packet of type \<open>b\<close> may do.\<close>

definition along :: "u8 \<Rightarrow> client_session \<Rightarrow> client_session \<Rightarrow> bool" where
  "along b s s' \<longleftrightarrow> (one_phase s \<longrightarrow> one_phase s') \<and> client_phase_step (client_phase s) b (client_phase s')"

lemma still_along: "cl_still s s' \<Longrightarrow> along b s s'"
  using still_phase by (simp add: along_def client_phase_step.stay)

lemma along_still: "along b s t \<Longrightarrow> cl_still t u \<Longrightarrow> along b s u"
  using still_phase by (simp add: along_def)

lemma along_state:
  "cl_encrypted s = Some enc \<Longrightarrow> cl_encrypted s' = Some enc' \<Longrightarrow> cs_kex (cl_common s') = cs_kex (cl_common s) \<Longrightarrow>
   client_phase_step (client_state_phase (e_state enc)) b (client_state_phase (e_state enc')) \<Longrightarrow> along b s s'"
  by (simp add: along_def one_phase_def client_phase_def)

lemma along_kex:
  "cl_encrypted s = None \<Longrightarrow> cl_encrypted s' = None \<Longrightarrow>
   client_phase_step (client_kex_phase (cs_kex (cl_common s))) b (client_kex_phase (cs_kex (cl_common s'))) \<Longrightarrow>
   along b s s'"
  by (simp add: along_def one_phase_def client_phase_def)

section \<open>The authentication\<close>

lemma write_auth_request_still: "write_auth_request C K user m enc = Ok enc' \<Longrightarrow> still_enc enc enc'"
  unfolding write_auth_request_def by (auto simp: rmap_eq_Ok session_ids)

lemma send_signature_still: "client_send_signature C K user m enc = Ok enc' \<Longrightarrow> still_enc enc enc'"
  by (cases m) (auto simp: rbind_eq_Ok session_ids)

lemma reply_encrypted: "cl_reply m s = Ok s' \<Longrightarrow> cl_encrypted s' = cl_encrypted s"
  using cl_reply_common by fastforce

lemma read_service_along:
  assumes enc: "cl_encrypted s = Some enc" and st: "e_state enc = WaitingServiceRequest sent accepted"
  shows "rpost (along b s) (client_read_service D (b # buf) sent accepted enc s)"
proof -
  have k: "along b s (cl_set_encrypted enc' s)"
    if "b = MSG_SERVICE_ACCEPT" "client_state_phase (e_state enc') \<in> {Service, Authentication}" for b enc'
    using that by (intro along_state [OF enc]) (auto simp: cl_set_encrypted_def st client_phase_step.stay)
  show ?thesis
    unfolding client_read_service_def Let_def
    by (auto simp: rpost_def rbind_eq_Ok rmap_eq_Ok still_along intro!: k split: if_splits option.splits)
qed

lemma read_pk_ok_along:
  assumes enc: "cl_encrypted s = Some enc" and st: "e_state enc = WaitingAuthRequest ar"
  shows "rpost (along b s) (client_read_pk_ok D ar enc s)"
proof -
  have k: "along b s s'" if "cl_encrypted s' = Some enc'" "cs_kex (cl_common s') = cs_kex (cl_common s)"
    "e_state enc' = WaitingAuthRequest (mark_pk_ok ar)" for s' enc'
    by (rule along_state [OF enc that(1,2)]) (simp add: st that(3) client_phase_step.stay)
  show ?thesis
  proof (cases "cs_auth_method (cl_common s)")
    case None
    then show ?thesis
      by (auto simp: client_read_pk_ok_def Let_def rpost_def cl_set_encrypted_def cl_set_common_def intro: k)
  next
    case (Some m)
    then show ?thesis
    proof (cases m)
      case (Method_PublicKey key)
      with Some show ?thesis
        by (auto simp: client_read_pk_ok_def Let_def rpost_def rmap_eq_Ok cl_set_encrypted_def
            cl_set_common_def simp del: client_send_signature.simps dest!: send_signature_still intro: k)
    next
      case (Method_FuturePublicKey key)
      with Some show ?thesis
        by (auto simp: client_read_pk_ok_def Let_def rpost_def rbind_eq_Ok rmap_eq_Ok session_ids
            cl_set_encrypted_def cl_set_common_def dest!: cl_reply_common intro!: k split: if_splits)
    qed (auto simp: client_read_pk_ok_def Let_def rpost_def Some cl_set_encrypted_def cl_set_common_def intro: k)
  qed
qed

section \<open>Every packet\<close>

text \<open>The application sees the session through public operations only.\<close>

locale obedient_client =
  fixes D :: deps and H :: "'h client_handler"
  assumes event: "ch_event H h e s = Ok (h', s') \<Longrightarrow> (client_op D)\<^sup>*\<^sup>* s s'"
begin

lemma event_still: "cl_still s s1 \<Longrightarrow> rpost (\<lambda>(h', s'). cl_still s s') (ch_event H h e s1)"
  unfolding rpost_def by (auto dest!: event client_ops_still intro: cl_still_trans)

sublocale calls: client_calls H "\<lambda>(h, s). cl_still s0 s" for s0
  by unfold_locales (auto intro: cl_still_trans event_still)

lemma read_auth_along:
  assumes enc: "cl_encrypted s = Some enc" and st: "e_state enc = WaitingAuthRequest ar"
  shows "rpost (\<lambda>(h', s'). along b s s') (client_read_auth D H h (b # buf) ar enc s)"
proof -
  have ev: "along b s s'" if "ch_event H h e s = Ok (h', s')" for b e h' s'
    using rpostD [OF event_still that] by (simp add: still_along)
  have failure: "along b s s2"
    if "cl_reply r (cl_set_encrypted (enc\<lparr> e_state := WaitingAuthRequest ar' \<rparr>)
      (cl_set_common ((cl_common s)\<lparr> cs_auth_method := None \<rparr>) s)) = Ok s2" for b r s2 ar'
    using cl_reply_common [OF that]
    by (intro along_state [OF enc, where enc' = "enc\<lparr> e_state := WaitingAuthRequest ar' \<rparr>"])
      (simp_all add: cl_set_encrypted_def cl_set_common_def st client_phase_step.stay)
  have success: "along b s
      (cl_set_encrypted (enc\<lparr> e_state := InitCompression, e_decompress := d \<rparr>) s1)"
    if "cl_reply r s = Ok s1" "b = MSG_USERAUTH_SUCCESS" for b r s1 d
    using cl_reply_common [OF that(1)] that(2)
    by (intro along_state [OF enc, where enc' = "enc\<lparr> e_state := InitCompression, e_decompress := d \<rparr>"])
      (simp_all add: cl_set_encrypted_def st)
  show ?thesis
    unfolding client_read_auth_def Let_def
    using read_pk_ok_along [OF enc st]
    by (auto simp: rpost_def rbind_eq_Ok rmap_eq_Ok still_along intro: ev success split: if_splits
        dest!: failure)
qed

lemma service_state_along:
  assumes enc: "cl_encrypted s = Some enc"
  shows "rpost (\<lambda>(h', s'). along b s s') (client_read_service_state D H h (b # buf) enc s)"
proof (cases "e_state enc")
  case (WaitingServiceRequest sent accepted)
  with read_service_along [OF enc this] show ?thesis
    by (auto simp: client_read_service_state_def rpost_def rmap_eq_Ok)
next
  case (WaitingAuthRequest ar)
  with read_auth_along [OF enc this] show ?thesis by (simp add: client_read_service_state_def)
next
  case Authenticated
  have "rpost (\<lambda>(h', s'). cl_still s s') (client_read_authenticated D H h (b # buf) s)"
    by (rule calls.authenticated_step [OF _ enc]) simp
  with Authenticated show ?thesis
    by (auto simp: client_read_service_state_def rpost_def intro: still_along)
qed (simp add: client_read_service_state_def rpost_def)

lemma read_encrypted_along:
  assumes enc: "cl_encrypted s = Some enc"
  shows "rpost (\<lambda>(h', s'). along b s s') (client_read_encrypted D W H h (b # buf) s)"
proof -
  have k: "along b s (cl_set_encrypted (enc\<lparr> e_rekey := k \<rparr>) s)" for b k
    by (rule still_along [OF cl_still_enc [OF enc]]) simp
  have f: "along b s s1" if "client_flush D W (cl_set_common ((cl_common s)\<lparr> cs_encrypted :=
      Some (enc\<lparr> e_rekey := k \<rparr>), write_buffer := wb \<rparr>) s) = Ok s1" for b k wb s1
    by (rule still_along [OF cl_still_trans [OF cl_still_common client_flush_still [OF that]]])
      (simp_all add: enc)
  have n: "along b s (cl_set_common (cs_newkeys nk ((cl_common s)\<lparr> cs_encrypted :=
      Some (enc\<lparr> e_rekey := None, last_rekey := now \<rparr>), write_buffer := wb \<rparr>)) s)" for b nk now wb
    by (rule still_along [OF cl_still_common]) (simp_all add: cs_newkeys_def enc)
  have i: "along b s s'" if "client_rekey_init D W (b' # buf) enc s = Ok s'" for b b' s'
    using rpostD [OF client_rekey_init_still [OF enc] that] by (rule still_along)
  show ?thesis
    unfolding client_read_encrypted_def Let_def enc option.case
    by (cases "e_rekey enc")
      (auto simp: rpost_def rbind_eq_Ok rmap_eq_Ok service_state_along [OF enc, THEN rpostD] k n
        dest: f i service_state_along [OF enc, THEN rpostD] split: kex.splits if_splits)
qed

lemma first_kex_along:
  assumes k: "cs_kex (cl_common s) = Some k" and enc: "cl_encrypted s = None"
  shows "rpost (\<lambda>(h', s'). along b s s') (client_reply D W H h (b # buf) s)"
proof -
  have flush: "along b s s'"
    if "client_flush D W (cl_set_common ((cl_common s)\<lparr> cs_kex := Some k', write_buffer := wb \<rparr>) s) = Ok s'"
      "client_phase_step (client_kex_phase (Some k)) b (client_kex_phase (Some k'))" for b s' k' wb
    using that(2) along_still [OF along_kex client_flush_still [OF that(1)]]
    by (simp add: enc k cl_set_common_def)
  have guess: "along b s (cl_set_common ((cl_common s)\<lparr> cs_kex := Some (Kex_KexDhDone kdd') \<rparr>) s)"
    if "k = Kex_KexDhDone kdd" for b kdd kdd'
    by (rule along_kex) (simp_all add: enc k that cl_set_common_def client_phase_step.stay)
  have next_kex: "\<exists>nk. k' = Kex_NewKeys nk" if "server_key_check D check rekey h kdd buf' = Ok (k', h')"
    for check :: "'h \<Rightarrow> public_key \<Rightarrow> ('h \<times> bool) res" and rekey kdd buf' k' h'
    using that unfolding server_key_check_def Let_def by (auto simp: rbind_eq_Ok split: if_splits)
  show ?thesis
  proof (cases k)
    case (Kex_KexInit ki)
    note flush = flush [unfolded Kex_KexInit]
    show ?thesis
      unfolding client_reply_def Let_def k Kex_KexInit option.case kex.case enc
      by (auto simp: rpost_def rbind_eq_Ok rmap_eq_Ok client_phase_step.init intro: flush split: if_splits)
  next
    case (Kex_KexDhDone kdd)
    note flush = flush [unfolded Kex_KexDhDone] and guess = guess [OF Kex_KexDhDone]
    show ?thesis
      unfolding client_reply_def Let_def k Kex_KexDhDone option.case kex.case
      by (auto simp: rpost_def rbind_eq_Ok rmap_eq_Ok guess dest!: next_kex intro: flush split: if_splits)
  next
    case (Kex_NewKeys nk)
    show ?thesis
      unfolding client_reply_def Let_def k Kex_NewKeys option.case kex.case
      by (auto simp: rpost_def rbind_eq_Ok rmap_eq_Ok along_def one_phase_def client_phase_def enc k Kex_NewKeys
          cl_set_common_def cs_set_encrypted_def encrypted_new_def split: if_splits)
  next
    case (Kex_KexDh kd)
    then show ?thesis by (simp add: client_reply_def k rpost_def still_along)
  qed
qed

lemma reply_along:
  assumes "one_phase s"
  shows "rpost (\<lambda>(h', s'). along b s s') (client_reply D W H h (b # buf) s)"
proof (cases "cs_kex (cl_common s)")
  case (Some k)
  with assms first_kex_along [OF Some] show ?thesis by (simp add: one_phase_def)
next
  case None
  then have r: "client_reply D W H h (b # buf) s = client_read_encrypted D W H h (b # buf) s"
    by (simp add: client_reply_def)
  show ?thesis
  proof (cases "cl_encrypted s")
    case (Some enc)
    then show ?thesis unfolding r by (rule read_encrypted_along)
  next
    case None
    then show ?thesis unfolding r by (simp add: client_read_encrypted_def Let_def rpost_def still_along)
  qed
qed

end

section \<open>Traces\<close>

text \<open>
  The packet in the buffer, as the client will see it, and the runs of the client with the types of
  the packets it has handled; a message of the application is taken between them.
\<close>

definition client_packet_in :: "deps \<Rightarrow> bytes \<Rightarrow> client_session \<Rightarrow> bytes res" where
  "client_packet_in D buffer s = (case cl_encrypted s of
     Some enc \<Rightarrow> fst (decompress_packet (d_flate D) (e_decompress enc) (drop 5 buffer))
   | None \<Rightarrow> Ok (drop 5 buffer))"

inductive client_trace ::
  "deps \<Rightarrow> 'h client_handler \<Rightarrow> 'h \<times> client_session \<Rightarrow> u8 list \<Rightarrow> 'h \<times> client_session \<Rightarrow> bool" for D H hs0 where
  start: "client_trace D H hs0 [] hs0"
| handled: "client_trace D H hs0 bs (h, s) \<Longrightarrow> client_packet_in D buffer s = Ok (b # buf) \<Longrightarrow>
    client_on_packet D W H h buffer s = Ok (Done (h', s')) \<Longrightarrow> client_trace D H hs0 (bs @ [b]) (h', s')"
| skipped: "client_trace D H hs0 bs (h, s) \<Longrightarrow>
    client_on_packet D W H h buffer s = Ok (Continue (h', s')) \<Longrightarrow> client_trace D H hs0 bs (h', s')"
| sent: "client_trace D H hs0 bs (h, s) \<Longrightarrow> client_end_round D W s = Ok (out, s') \<Longrightarrow>
    client_trace D H hs0 bs (h, s')"
| message: "client_trace D H hs0 bs (h, s) \<Longrightarrow>
    client_message_round D W (s\<lparr> cl_receiver := msgs \<rparr>) = Ok (Done (out, s')) \<Longrightarrow>
    client_trace D H hs0 bs (h, s')"

lemma client_on_packet_cases:
  assumes "client_on_packet D W H h buffer s = Ok rd"
  obtains "rd = Break" | s1 where "cl_still s s1" and "rd = Continue (h, s1)"
  | s1 b buf h' s' where "cl_still s s1" and "client_packet_in D buffer s = Ok (b # buf)"
      and "client_reply D W H h (b # buf) s1 = Ok (h', s')" and "rd = Done (h', s')"
proof -
  define dec where "dec = (case cl_encrypted s of
      Some enc \<Rightarrow> (case decompress_packet (d_flate D) (e_decompress enc) (drop 5 buffer) of
         (r, d') \<Rightarrow> (r, cl_set_encrypted (enc\<lparr> e_decompress := d' \<rparr>) s))
    | None \<Rightarrow> (Ok (drop 5 buffer), s))"
  have p: "client_packet_in D buffer s = fst dec" "cl_still s (snd dec)"
    unfolding dec_def client_packet_in_def
    by (auto intro: cl_still_enc split: option.split prod.split)
  show thesis
    using assms that p unfolding client_on_packet_def dec_def [symmetric]
    by (cases dec) (auto simp: rmap_eq_Ok split: if_splits res.splits list.splits)
qed

text \<open>What no packet does, keeps the phase.\<close>

definition same_phase :: "client_session \<Rightarrow> client_session \<Rightarrow> bool" where
  "same_phase s s' \<longleftrightarrow> client_phase s' = client_phase s \<and> (one_phase s \<longrightarrow> one_phase s')"

lemma still_same_phase: "cl_still s s' \<Longrightarrow> same_phase s s'"
  by (simp add: same_phase_def still_phase)

lemma same_phase_trans: "same_phase s t \<Longrightarrow> same_phase t u \<Longrightarrow> same_phase s u"
  by (simp add: same_phase_def)

lemma same_phase_state:
  "cl_encrypted s = Some enc \<Longrightarrow> cl_encrypted s' = Some enc' \<Longrightarrow> cs_kex (cl_common s') = cs_kex (cl_common s) \<Longrightarrow>
   client_state_phase (e_state enc') = client_state_phase (e_state enc) \<Longrightarrow> same_phase s s'"
  by (simp add: same_phase_def one_phase_def client_phase_def)

lemma end_round_same_phase:
  assumes "client_end_round D W s = Ok (out, s')" shows "same_phase s s'"
proof -
  obtain s1 where r: "client_send_all D W s = Ok (out, s1)"
    and s': "s' = cl_with_enc (\<lambda>enc. case e_state enc of
      InitCompression \<Rightarrow> enc\<lparr> e_compress := init_compress (d_flate D) (client_compression enc) (e_compress enc),
        e_state := Authenticated \<rparr>
    | _ \<Rightarrow> enc) s1"
    using assms unfolding client_end_round_def by (auto simp: rmap_eq_Ok)
  have "same_phase s1 s'"
    unfolding s' cl_with_enc_def
    by (auto simp: cl_set_encrypted_def same_phase_def client_phase_def one_phase_def
        split: option.split encrypted_state.split)
  with still_same_phase [OF client_send_all_still [OF r]] show ?thesis by (rule same_phase_trans)
qed

lemma authenticate_same_phase:
  "write_auth_request_if_needed D user m s = Ok (b, s') \<Longrightarrow> same_phase s s'"
  unfolding write_auth_request_if_needed_def Let_def
  by (auto simp: rmap_eq_Ok rbind_eq_Ok same_phase_def client_phase_def one_phase_def cl_set_common_def
      dest!: write_auth_request_still split: option.splits encrypted_state.splits if_splits)

lemma opened_still: "(\<And>ch s'. r = Ok (ch, s') \<Longrightarrow> cl_still s s') \<Longrightarrow> client_opened q r = Ok t \<Longrightarrow> same_phase s t"
  unfolding client_opened_def
  by (auto simp: rmap_eq_Ok intro!: still_same_phase [OF cl_still_trans [OF _ cl_still_rest]])

lemma on_message_same_phase: "client_on_message D m s = Ok s' \<Longrightarrow> same_phase s s'"
  by (cases m) (auto simp: rmap_eq_Ok
      intro: authenticate_same_phase still_same_phase client_op_still [of D] client_op.intros
      elim!: opened_still [rotated])

lemma message_round_same_phase:
  assumes "client_message_round D W s = Ok (Done (out, s'))" shows "same_phase s s'"
proof -
  from assms obtain m later s1 where m: "client_on_message D m (s\<lparr> cl_receiver := later \<rparr>) = Ok s1"
    and e: "client_end_round D W s1 = Ok (out, s')"
    by (auto simp: client_message_round_def rbind_eq_Ok rmap_eq_Ok split: if_splits list.splits)
  have "same_phase s (s\<lparr> cl_receiver := later \<rparr>)" by (rule still_same_phase [OF cl_still_rest]) simp
  from same_phase_trans [OF this same_phase_trans [OF on_message_same_phase [OF m] end_round_same_phase [OF e]]]
  show ?thesis .
qed

context obedient_client
begin

lemma trace_phases:
  "client_trace D H hs0 bs hs \<Longrightarrow> one_phase (snd hs0) \<Longrightarrow>
   one_phase (snd hs) \<and> labelled_run client_phase_step (client_phase (snd hs0)) bs (client_phase (snd hs))"
proof (induction rule: client_trace.induct)
  case start
  then show ?case by (simp add: labelled_run.no_label)
next
  case (handled bs h s buffer b buf W h' s')
  from handled.hyps(3) obtain s1 where p: "cl_still s s1"
    and r: "client_reply D W H h (b # buf) s1 = Ok (h', s')"
    by (rule client_on_packet_cases) (use handled.hyps(2) in auto)
  from handled.IH [OF handled.prems] have "one_phase s1" using still_phase(2) [OF p] by simp
  from rpostD [OF reply_along [OF this] r] this have "one_phase s'"
    and "client_phase_step (client_phase s) b (client_phase s')"
    using still_phase(1) [OF p] by (simp_all add: along_def)
  with handled.IH [OF handled.prems] show ?case by (auto intro: labelled_run.more)
next
  case (skipped bs h s W buffer h' s')
  from skipped.hyps(2) show ?case
    by (rule client_on_packet_cases) (use skipped.IH skipped.prems still_phase in auto)
next
  case (sent bs h s W out s')
  with end_round_same_phase [OF sent.hyps(2)] show ?case by (simp add: same_phase_def)
next
  case (message bs h s W msgs out s')
  have "same_phase s (s\<lparr> cl_receiver := msgs \<rparr>)" by (rule still_same_phase [OF cl_still_rest]) simp
  from same_phase_trans [OF this message_round_same_phase [OF message.hyps(2)]]
  show ?case using message.IH message.prems by (simp add: same_phase_def)
qed

end

lemma well_behaved_obedient_client: "client_well_behaved D H \<Longrightarrow> obedient_client D H"
  unfolding client_well_behaved_def by unfold_locales blast

interpretation default_obedient_client: obedient_client D "client_default_handler (d_codec D)" for D
  by (rule well_behaved_obedient_client [OF client_default_well_behaved])

interpretation default_calls: client_calls "client_default_handler (d_codec D)" "\<lambda>(h, s). cl_still s0 s"
  for D :: deps and s0
  by (rule default_obedient_client.calls.client_calls_axioms)

lemma client_connect_phase:
  assumes "client_well_behaved D H" and "client_connect D W H cfg sshid msgs h = Ok (sent, hs)"
  shows "client_phase (snd hs) = Exchange_Init \<and> one_phase (snd hs)"
proof -
  obtain s0 s1 h1 s2 where n: "client_session_new D W cfg sshid msgs = Ok s0"
    and e: "ch_event H h CE_session_connected s0 = Ok (h1, s1)"
    and a: "client_send_all D W s1 = Ok (sent, s2)" and hs: "hs = (h1, s2)"
    using assms(2) unfolding client_connect_def by (auto simp: rbind_eq_Ok rmap_eq_Ok)
  from n have k: "client_phase s0 = Exchange_Init \<and> one_phase s0"
    unfolding client_session_new_def Let_def by (auto simp: rbind_eq_Ok client_phase_def one_phase_def)
  have "cl_still s0 s1"
    using assms(1) e client_ops_still unfolding client_well_behaved_def by blast
  from cl_still_trans [OF this client_send_all_still [OF a]] k show ?thesis
    by (simp add: hs still_phase)
qed

text \<open>
  C5. The client implements the protocol. Whatever packets a server sends, in any order, and
  whatever the application does with the public operations of the session: the phase of the
  connection goes along the automaton of the protocol, and is reached only by the packets that
  lead to it, in their order. So no client is authenticated that was not told so after the
  service, no service is accepted before the new keys, and no keys are taken into use without the
  answer that the server has signed, whatever else came in between.
\<close>

theorem client_follows_protocol:
  assumes "client_well_behaved D H" and "client_connect D W H cfg sshid msgs h0 = Ok (out, hs0)"
    and "client_trace D H hs0 bs (h, s)"
  shows "labelled_run client_phase_step Exchange_Init bs (client_phase s) \<and>
    subseq (client_way_to (client_phase s)) bs"
proof -
  note c = client_connect_phase [OF assms(1,2)]
  have r: "labelled_run client_phase_step Exchange_Init bs (client_phase s)"
    using obedient_client.trace_phases [OF well_behaved_obedient_client [OF assms(1)] assms(3)] c by simp
  with client_automaton.run_way [OF this] show ?thesis by simp
qed

section \<open>A connection from the beginning\<close>

text \<open>Packets of the server and messages of the application, one after the other, with the types of the packets.\<close>

fun client_script ::
  "deps \<Rightarrow> world \<Rightarrow> 'h client_handler \<Rightarrow> (bytes + client_msg list) list \<Rightarrow> 'h \<times> client_session \<Rightarrow>
   (u8 list \<times> 'h \<times> client_session) option" where
  "client_script D W H [] hs = Some ([], hs)"
| "client_script D W H (Inl p # ps) (h, s) =
     (case (client_packet_in D p s, client_on_packet D W H h p s) of
        (Ok (b # buf), Ok (Done hs')) \<Rightarrow> map_option (\<lambda>(bs, r). (b # bs, r)) (client_script D W H ps hs')
      | _ \<Rightarrow> None)"
| "client_script D W H (Inr msgs # ps) (h, s) =
     (case client_message_round D W (s\<lparr> cl_receiver := msgs \<rparr>) of
        Ok (Done (out, s')) \<Rightarrow> client_script D W H ps (h, s')
      | _ \<Rightarrow> None)"

lemma client_script_trace:
  "client_script D W H ps hs = Some (bs', hs') \<Longrightarrow> client_trace D H hs0 bs hs \<Longrightarrow>
   client_trace D H hs0 (bs @ bs') hs'"
proof (induction ps arbitrary: hs bs bs')
  case (Cons p ps)
  obtain h s where hs: "hs = (h, s)" by (cases hs)
  show ?case
  proof (cases p)
    case (Inl buffer)
    with Cons.prems(1) hs obtain b buf h1 s1 bs1 where p: "client_packet_in D buffer s = Ok (b # buf)"
      and o: "client_on_packet D W H h buffer s = Ok (Done (h1, s1))"
      and r: "client_script D W H ps (h1, s1) = Some (bs1, hs')" and b: "bs' = b # bs1"
      by (auto split: res.split_asm list.split_asm round.split_asm)
    from Cons.IH [OF r client_trace.handled [OF Cons.prems(2) [unfolded hs] p o]] b show ?thesis by simp
  next
    case (Inr msgs)
    with Cons.prems(1) hs obtain out s1 where
      m: "client_message_round D W (s\<lparr> cl_receiver := msgs \<rparr>) = Ok (Done (out, s1))"
      and r: "client_script D W H ps (h, s1) = Some (bs', hs')"
      by (auto split: res.split_asm round.split_asm prod.split_asm)
    show ?thesis by (rule Cons.IH [OF r client_trace.message [OF Cons.prems(2) [unfolded hs] m]])
  qed
qed simp

text \<open>A server that sends a failure before the success, to a client with a password.\<close>

definition demo_login_script :: "(bytes + client_msg list) list" where
  "demo_login_script = List.map (\<lambda>p. Inl (replicate 5 0 @ p)) demo_server_packets @
     [Inr [Msg_Authenticate [97] (Method_Password [112])]] @
     List.map (\<lambda>p. Inl (replicate 5 0 @ p))
       [[MSG_SERVICE_ACCEPT] @ rfc_string (ascii ''ssh-userauth''),
        [MSG_USERAUTH_FAILURE] @ rfc_string (ascii ''password'') @ [0],
        [MSG_USERAUTH_SUCCESS]]"

definition demo_plain_connected :: "(bytes \<times> unit \<times> client_session) res" where
  "demo_plain_connected =
     client_connect demo_deps (demo_world 1) demo_trusting demo_trust_config [83] [] ()"

lemma demo_login_script_outcome:
  "case demo_plain_connected of
     Ok (sent, hs0) \<Rightarrow>
       (case client_script demo_deps (demo_world 1) demo_trusting demo_login_script hs0 of
          Some (bs, h, s) \<Rightarrow> client_phase s = Connection \<and>
            bs = [MSG_KEXINIT, MSG_KEX_ECDH_REPLY, MSG_NEWKEYS, MSG_SERVICE_ACCEPT, MSG_USERAUTH_FAILURE,
              MSG_USERAUTH_SUCCESS]
        | None \<Rightarrow> False)
   | _ \<Rightarrow> False"
  by code_simp

theorem client_follows_protocol_witness:
  "\<exists>sent hs0 s bs. demo_plain_connected = Ok (sent, hs0) \<and>
    client_trace demo_deps demo_trusting hs0 bs ((), s) \<and> length bs = 6 \<and> client_phase s = Connection \<and>
    labelled_run client_phase_step Exchange_Init bs Connection \<and> subseq (client_way_to Connection) bs"
proof -
  from ok_pair [OF demo_login_script_outcome] obtain sent hs0 where c: "demo_plain_connected = Ok (sent, hs0)"
    and o: "case client_script demo_deps (demo_world 1) demo_trusting demo_login_script hs0 of
       Some (bs, h, s) \<Rightarrow> client_phase s = Connection \<and>
         bs = [MSG_KEXINIT, MSG_KEX_ECDH_REPLY, MSG_NEWKEYS, MSG_SERVICE_ACCEPT, MSG_USERAUTH_FAILURE,
           MSG_USERAUTH_SUCCESS]
     | None \<Rightarrow> False" by (elim exE conjE)
  obtain bs s where r: "client_script demo_deps (demo_world 1) demo_trusting demo_login_script hs0 = Some (bs, (), s)"
    and e: "client_phase s = Connection" "length bs = 6"
    using o by (cases "client_script demo_deps (demo_world 1) demo_trusting demo_login_script hs0") auto
  have t: "client_trace demo_deps demo_trusting hs0 bs ((), s)"
    using client_script_trace [OF r client_trace.start] by simp
  from client_follows_protocol [OF demo_trusting_well_behaved c [unfolded demo_plain_connected_def] t] c t e
  show ?thesis by metis
qed

end
