(* ===== verification/Rekeying.thy ===== *)
theory Rekeying
  imports Client Server Kex_Props Deliveries
begin

text \<open>
  New keys for a connection that is encrypted already: what becomes of a key exchange the client
  starts, and of one the server starts.
\<close>

section \<open>What the steps of a key exchange look at\<close>

definition cl_at ::
  "client_session \<Rightarrow> client_config \<Rightarrow> cipher_pair \<Rightarrow> encrypted \<Rightarrow> sshbuffer \<Rightarrow> bool" where
  "cl_at s cfg cp enc wb \<longleftrightarrow>
     (let c = cl_common s in config c = cfg \<and> cs_cipher c = cp \<and> cs_encrypted c = Some enc \<and>
        write_buffer c = wb \<and> cs_kex c = None)"

definition ss_at ::
  "server_session \<Rightarrow> server_config \<Rightarrow> cipher_pair \<Rightarrow> encrypted \<Rightarrow> sshbuffer \<Rightarrow> bool" where
  "ss_at s cfg cp enc wb \<longleftrightarrow>
     (let c = ss_common s in config c = cfg \<and> cs_cipher c = cp \<and> cs_encrypted c = Some enc \<and>
        write_buffer c = wb)"

text \<open>What new keys leave alone, and that the next exchange can come.\<close>

definition renewed :: "encrypted \<Rightarrow> encrypted \<Rightarrow> bool" where
  "renewed enc enc' \<longleftrightarrow> e_session_id enc' = e_session_id enc \<and> e_state enc' = e_state enc \<and>
     channels enc' = channels enc \<and> e_rekey enc' = None \<and> e_exchange enc' \<noteq> None"

lemma exchange_clear_eq:
  "exchange_clear ex = exchange_new\<lparr> client_id := client_id ex, server_id := server_id ex \<rparr>"
  by (cases ex) (simp add: exchange_clear_def exchange_new_def)

lemma rekey_start:
  "initiate_rekey ex sid = (kex_start (client_id ex) (server_id ex) (Some sid))\<lparr> ki_sent := True \<rparr>"
  "received_rekey ex algo sid = (kex_start (client_id ex) (server_id ex) (Some sid))\<lparr> ki_algo := Some algo \<rparr>"
  by (simp_all add: initiate_rekey_def received_rekey_def kex_start_def exchange_clear_eq)

lemma client_write_sent:
  "client_write D W cfg cp (ki\<lparr> ki_sent := b \<rparr>) wb = client_write D W cfg cp ki wb"
  by (simp add: client_write_def)

lemma server_parse_unsent:
  assumes "server_write D W cfg cp ki wb = Ok (kis, wb1)" and "\<not> ki_sent ki"
    and "server_parse D W' cfg cp kis buf wb1 = Ok (Kex_KexDh kd, wb2)"
  shows "server_parse D W cfg cp (ki\<lparr> ki_algo := a \<rparr>) buf wb = Ok (Kex_KexDh kd, wb2)"
  using assms
  by (auto simp: server_parse_def server_write_def rbind_eq_Ok Let_def split: if_split_asm)

lemma flush_idle:
  "e_write enc = [] \<Longrightarrow> enc_flush D now lim cp wb enc = Ok (enc\<lparr> e_write_cursor := 0 \<rparr>, wb,
     rekey_write_limit lim \<le> sb_bytes wb \<or> rekey_time_limit lim \<le> now - last_rekey enc)"
  by (subst enc_flush_def, subst flush_loop.simps) (simp add: Let_def)

text \<open>A key that was checked in the first exchange is not asked about again.\<close>

lemma server_key_check_again:
  "server_key_check D check False h kdd buf = Ok (k, h') \<Longrightarrow>
   server_key_check D check' True hc kdd buf = Ok (k, hc)"
  unfolding server_key_check_def Let_def
  by (auto simp: rbind_eq_Ok split: if_splits)

section \<open>The client's steps\<close>

lemma client_starts:
  assumes "cl_at s cfg cp enc wb" and "e_write enc = []" and "e_rekey enc = None" and "e_exchange enc = Some ex"
    and "rekey_write_limit (cc_limits cfg) \<le> sb_bytes wb \<or> rekey_time_limit (cc_limits cfg) \<le> w_now W - last_rekey enc"
    and "client_write D W cfg cp (kex_start (client_id ex) (server_id ex) (Some (e_session_id enc))) wb = Ok (kic, wb1)"
  shows "\<exists>s1. client_flush D W s = Ok s1 \<and> cl_at s1 cfg cp
    (enc\<lparr> e_write_cursor := 0, e_exchange := None, e_rekey := Some (Kex_KexInit kic) \<rparr>) wb1"
  using assms
  by (simp add: client_flush_def cl_at_def Let_def flush_idle rekey_start client_write_sent cl_set_common_def)

lemma client_flush_rekeying:
  assumes "cl_at s cfg cp enc wb" and "e_write enc = []" and "e_rekey enc \<noteq> None"
  shows "\<exists>s'. client_flush D W s = Ok s' \<and> cl_at s' cfg cp (enc\<lparr> e_write_cursor := 0 \<rparr>) wb"
  using assms by (auto simp: client_flush_def cl_at_def Let_def flush_idle cl_set_common_def)

lemma client_takes_kexinit:
  assumes "cl_at s cfg cp enc wb" and "e_write enc = []" and "e_rekey enc = Some (Kex_KexInit kic)"
    and "index buf 0 = Ok MSG_KEXINIT" and "client_parse D W cfg cp kic buf wb = Ok (kdd, wb')"
  shows "\<exists>s'. client_reply D W H h buf s = Ok (h, s') \<and>
    cl_at s' cfg cp (enc\<lparr> e_rekey := Some (Kex_KexDhDone kdd), e_write_cursor := 0 \<rparr>) wb'"
proof -
  let ?c = "cl_common s"
  let ?s = "cl_set_common (?c\<lparr> cs_encrypted := Some (enc\<lparr> e_rekey := Some (Kex_KexDhDone kdd) \<rparr>),
      write_buffer := wb' \<rparr>) s"
  have at: "cl_at ?s cfg cp (enc\<lparr> e_rekey := Some (Kex_KexDhDone kdd) \<rparr>) wb'"
    using assms(1) by (simp add: cl_at_def Let_def cl_set_common_def)
  from client_flush_rekeying [OF at, of D W] assms(2)
  obtain s' where f: "client_flush D W ?s = Ok s'"
    and "cl_at s' cfg cp (enc\<lparr> e_rekey := Some (Kex_KexDhDone kdd), e_write_cursor := 0 \<rparr>) wb'" by auto
  moreover have "client_reply D W H h buf s = Ok (h, s')"
    using assms(1,3-5) f
    by (simp add: client_reply_def client_read_encrypted_def client_rekey_init_def cl_at_def Let_def)
  ultimately show ?thesis by blast
qed

lemma client_takes_reply:
  assumes "cl_at s cfg cp enc wb" and "e_write enc = []" and "e_rekey enc = Some (Kex_KexDhDone kdd)"
    and "\<not> ignore_guessed (kdd_names kdd)" and "index buf 0 = Ok MSG_KEX_ECDH_REPLY"
    and "server_key_check D (ch_check_server_key H) True h kdd buf = Ok (Kex_NewKeys nk, h)"
    and "cipher_write (d_codec D) (d_sodium D) cp [MSG_NEWKEYS] wb = Ok wb'"
  shows "\<exists>s'. client_reply D W H h buf s = Ok (h, s') \<and>
    cl_at s' cfg cp (enc\<lparr> e_rekey := Some (Kex_NewKeys nk), e_write_cursor := 0 \<rparr>) wb'"
proof -
  let ?c = "cl_common s"
  let ?s = "cl_set_common (?c\<lparr> cs_encrypted := Some (enc\<lparr> e_rekey := Some (Kex_NewKeys nk) \<rparr>),
      write_buffer := wb' \<rparr>) s"
  have at: "cl_at ?s cfg cp (enc\<lparr> e_rekey := Some (Kex_NewKeys nk) \<rparr>) wb'"
    using assms(1) by (simp add: cl_at_def Let_def cl_set_common_def)
  from client_flush_rekeying [OF at, of D W] assms(2)
  obtain s' where f: "client_flush D W ?s = Ok s'"
    and "cl_at s' cfg cp (enc\<lparr> e_rekey := Some (Kex_NewKeys nk), e_write_cursor := 0 \<rparr>) wb'" by auto
  moreover have "client_reply D W H h buf s = Ok (h, s')"
    using assms(1,3-7) f
    by (simp add: client_reply_def client_read_encrypted_def cl_at_def Let_def)
  ultimately show ?thesis by blast
qed

lemma client_takes_newkeys:
  assumes "cl_at s cfg cp enc wb" and "e_rekey enc = Some (Kex_NewKeys nk)"
  shows "\<exists>s' enc' wb'. client_reply D W H h [MSG_NEWKEYS] s = Ok (h, s') \<and>
    cl_at s' cfg (nk_cipher nk) enc' wb' \<and> renewed enc enc'"
  using assms
  by (simp add: client_reply_def client_read_encrypted_def cl_at_def Let_def index_def cs_newkeys_def renewed_def
      cl_set_common_def)

section \<open>The server's steps\<close>

lemma server_takes_kexinit:
  assumes "ss_at s cfg cp enc wb" and "e_rekey enc = None" and "e_exchange enc = Some ex"
    and "index buf 0 = Ok MSG_KEXINIT" and "read_kex (d_codec D) server_select buf (sc_preferred cfg) = Ok n"
    and "server_write D W cfg cp (kex_start (client_id ex) (server_id ex) (Some (e_session_id enc))) wb = Ok (kis, wb1)"
    and "server_parse D W' cfg cp kis buf wb1 = Ok (Kex_KexDh kd, wb2)"
  shows "\<exists>s'. server_reply D W H h buf s = Ok (h, s') \<and>
    ss_at s' cfg cp (enc\<lparr> e_rekey := Some (Kex_KexDh kd), e_exchange := None \<rparr>) wb2"
  using assms(1-5) server_parse_unsent [OF assms(6) _ assms(7)]
  by (simp add: server_reply_def server_read_encrypted_def server_rekey_init_def ss_at_def Let_def
      rekey_start ss_set_common_def kex_start_def)

lemma server_takes_dh:
  assumes "ss_at s cfg cp enc wb" and "e_rekey enc = Some (Kex_KexDh kd)" and "buf = MSG_KEX_ECDH_INIT # rest"
    and "kexdh_parse D W cfg cp kd buf wb = Ok (k, wb')"
  shows "\<exists>s'. server_reply D W H h buf s = Ok (h, s') \<and> ss_at s' cfg cp (enc\<lparr> e_rekey := Some k \<rparr>) wb'"
  using assms
  by (simp add: server_reply_def server_read_encrypted_def ss_at_def Let_def index_def ss_set_common_def)

lemma server_takes_newkeys:
  assumes "ss_at s cfg cp enc wb" and "e_rekey enc = Some (Kex_NewKeys nk)"
  shows "\<exists>s' enc'. server_reply D W H h [MSG_NEWKEYS] s = Ok (h, s') \<and>
    ss_at s' cfg (nk_cipher nk) enc' wb \<and> renewed enc enc'"
  using assms
  by (simp add: server_reply_def server_read_encrypted_def ss_at_def Let_def index_def cs_newkeys_def renewed_def
      ss_set_common_def)

section \<open>What each step writes\<close>

lemma kexinit_written:
  "client_write D W cfg cp ki wb = Ok (kic, wb1) \<Longrightarrow>
   cipher_write (d_codec D) (d_sodium D) cp (client_kex_init (ki_exchange kic)) wb = Ok wb1"
  "server_write D W scfg cp ki wb = Ok (kis, wb1) \<Longrightarrow>
   cipher_write (d_codec D) (d_sodium D) cp (server_kex_init (ki_exchange kis)) wb = Ok wb1"
  by (auto simp: client_write_def server_write_def rbind_eq_Ok)

lemma kexinit_head:
  "client_write D W cfg cp ki wb = Ok (kic, wb1) \<Longrightarrow> index (client_kex_init (ki_exchange kic)) 0 = Ok MSG_KEXINIT"
  "server_write D W scfg cp ki wb = Ok (kis, wb1) \<Longrightarrow> index (server_kex_init (ki_exchange kis)) 0 = Ok MSG_KEXINIT"
  by (auto simp: client_write_def server_write_def rbind_eq_Ok write_kex_def index_def)

lemma dh_written:
  assumes "client_parse D W cfg cp ki buf wb = Ok (kdd, wb')" and "ki_sent ki"
  shows "cipher_write (d_codec D) (d_sodium D) cp ([MSG_KEX_ECDH_INIT] @
    ssh_string (d_codec D) (client_ephemeral (kdd_exchange kdd))) wb = Ok wb'"
  using assms
  by (auto simp: client_parse_def client_dh_def Let_def rbind_eq_Ok slice_from_def split: option.splits)

lemma server_parse_sent:
  "server_parse D W cfg cp ki buf wb = Ok (Kex_KexDh kd, wb') \<Longrightarrow> ki_sent ki \<Longrightarrow>
   wb' = wb \<and> read_kex (d_codec D) server_select buf (sc_preferred cfg) = Ok (kd_names kd)"
  by (auto simp: server_parse_def rbind_eq_Ok Let_def split: if_split_asm)

section \<open>A key exchange the client starts\<close>

text \<open>All steps of an exchange, as far as the functions of \<^verbatim>\<open>kex.rs\<close> go.\<close>

lemma exchange_succeeds:
  fixes D :: deps
  assumes laws: "codec_laws (d_codec D)" "sodium_laws (d_sodium D)" "sha_laws D" "sha_total D"
    and prefs: "good_pref (cc_preferred ccfg)" "good_pref (sc_preferred scfg)"
      "short_kexinit D (cc_preferred ccfg)" "short_kexinit D (sc_preferred scfg)"
    and rand: "rand_ok Wc" "rand_ok Wc'" "rand_ok Ws" "rand_ok Ws'"
    and w: "writable D cp" "writable D sp"
    and neg: "negotiated server_select (sc_preferred scfg) (cc_preferred ccfg) = Ok n"
      "nm_cipher n = CHACHA20POLY1305"
    and key: "find_key (d_keys D) (sc_keys scfg) (nm_key n) < length (sc_keys scfg)"
      "\<forall>key \<in> set (sc_keys scfg). key_signs D key \<and> key_usable D key"
  obtains kic wc1 kis ws1 kdd wc2 kd reply ws3 nks ws4 nkc wc3 where
    "client_write D Wc ccfg cp (kex_start cid sid session) wc = Ok (kic, wc1)"
    and "server_write D Ws scfg sp (kex_start cid sid session) ws = Ok (kis, ws1)"
    and "client_parse D Wc' ccfg cp kic (server_kex_init (ki_exchange kis)) wc1 = Ok (kdd, wc2)"
    and "ki_sent kic" and "\<not> ignore_guessed (kdd_names kdd)" "\<not> ignore_guessed (kd_names kd)"
    and "server_parse D Ws' scfg sp kis (client_kex_init (ki_exchange kic)) ws1 = Ok (Kex_KexDh kd, ws1)"
    and "read_kex (d_codec D) server_select (client_kex_init (ki_exchange kic)) (sc_preferred scfg) = Ok (kd_names kd)"
    and "kexdh_parse D Ws' scfg sp kd ([MSG_KEX_ECDH_INIT] @
      ssh_string (d_codec D) (client_ephemeral (kdd_exchange kdd))) ws1 = Ok (Kex_NewKeys nks, ws4)"
    and "cipher_write (d_codec D) (d_sodium D) sp reply ws1 = Ok ws3"
    and "cipher_write (d_codec D) (d_sodium D) sp [MSG_NEWKEYS] ws3 = Ok ws4"
    and "index reply 0 = Ok MSG_KEX_ECDH_REPLY"
    and "server_key_check D (\<lambda>h k. Ok (h, True)) False () kdd reply = Ok (Kex_NewKeys nkc, ())"
    and "delivers D (nk_cipher nkc) (nk_cipher nks)" and "delivers D (nk_cipher nks) (nk_cipher nkc)"
    and "cipher_write (d_codec D) (d_sodium D) cp [MSG_NEWKEYS] wc2 = Ok wc3"
proof -
  have keys: "\<forall>key \<in> set (sc_keys scfg). key_signs D key"
    "\<forall>key \<in> set (sc_keys scfg). key_usable D key \<and> (\<lambda>h k. Ok (h, True)) () (public_of key) = Ok ((), True)"
    using key(2) by auto
  have cookies: "\<forall>b. w_rand Wc 16 = Ok b \<longrightarrow> length b = 16" "\<forall>b. w_rand Ws 16 = Ok b \<longrightarrow> length b = 16"
    using rand(1,3) unfolding rand_ok_def by (metis res.inject(1))+
  obtain kic wc1 kis ws1 kdd wc2 kd ws2 nks ws4 where
    cw: "client_write D Wc ccfg cp (kex_start cid sid session) wc = Ok (kic, wc1)"
    and sw: "server_write D Ws scfg sp (kex_start cid sid session) ws = Ok (kis, ws1)"
    and cparse: "client_parse D Wc' ccfg cp kic (server_kex_init (ki_exchange kis)) wc1 = Ok (kdd, wc2)"
    and sparse: "server_parse D Ws' scfg sp kis (client_kex_init (ki_exchange kic)) ws1 = Ok (Kex_KexDh kd, ws2)"
    and dh: "kexdh_parse D Ws' scfg sp kd ([MSG_KEX_ECDH_INIT] @
      ssh_string (d_codec D) (client_ephemeral (kdd_exchange kdd))) ws2 = Ok (Kex_NewKeys nks, ws4)"
    by (rule handshake_steps_succeed [OF laws prefs rand w neg key(1) keys(1)])
  have sent: "ki_sent kic" "ki_sent kis"
    using cw sw by (auto simp: client_write_def server_write_def rbind_eq_Ok)
  note sp = server_parse_sent [OF sparse sent(2)]
  obtain wc3 where wc3: "cipher_write (d_codec D) (d_sodium D) cp [MSG_NEWKEYS] wc2 = Ok wc3"
    using w(1) unfolding writable_def by fastforce
  obtain ci si a algo where kdd: "kdd = \<lparr> kdd_exchange = (kex_ids cid sid)\<lparr> client_kex_init := ci,
        server_kex_init := si, client_ephemeral := scalarmult_base (d_sodium D) a \<rparr>,
      kdd_kex = \<lparr> local_secret = Some a, shared_secret = None \<rparr>, kdd_key = 0,
      kdd_session_id = session, kdd_names = algo \<rparr>"
    and kd: "kd = \<lparr> kd_exchange = (kex_ids cid sid)\<lparr> client_kex_init := ci, server_kex_init := si \<rparr>,
      kd_names = algo, kd_key = find_key (d_keys D) (sc_keys scfg) (nm_key algo), kd_session_id = session \<rparr>"
    and ng: "\<not> ignore_guessed algo"
    by (rule handshake_states [OF laws(1) prefs(1,2) cookies cw sw cparse sparse])
  have ng': "\<not> ignore_guessed (kdd_names kdd)" "\<not> ignore_guessed (kd_names kd)" using ng by (simp_all add: kdd kd)
  show thesis
    by (rule answer_accepted [where check = "\<lambda>h k. Ok (h, True)" and h = "()" and h' = "()",
          OF laws(1-3) keys(2) kdd kd ng dh])
      (use cw sw cparse sent(1) ng' sparse sp dh wc3 in \<open>auto intro!: that\<close>)
qed

text \<open>
  C9. A client can renew the keys. When a limit is reached while nothing is queued, the client
  writes a KEXINIT; each side reads what the other writes, and no step fails; at the end each
  decrypts whatever the other encrypts with the new keys, the session identifier, the
  authentication and the channels are those of before, and both are ready for the next exchange.
\<close>

theorem client_rekey_agreement:
  fixes cs :: client_session and ss :: server_session and CH :: "'c client_handler" and H :: "'s handler"
  assumes laws: "codec_laws (d_codec D)" "sodium_laws (d_sodium D)" "sha_laws D" "sha_total D"
    and prefs: "good_pref (cc_preferred ccfg)" "good_pref (sc_preferred scfg)"
      "short_kexinit D (cc_preferred ccfg)" "short_kexinit D (sc_preferred scfg)"
    and rand: "rand_ok Wc" "rand_ok Wc'" "rand_ok Ws" "rand_ok Ws'"
    and w: "writable D cp" "writable D sp"
    and neg: "negotiated server_select (sc_preferred scfg) (cc_preferred ccfg) = Ok n"
      "nm_cipher n = CHACHA20POLY1305"
    and key: "find_key (d_keys D) (sc_keys scfg) (nm_key n) < length (sc_keys scfg)"
      "\<forall>key \<in> set (sc_keys scfg). key_signs D key \<and> key_usable D key"
    and client: "cl_at cs ccfg cp cenc wc" "e_write cenc = []" "e_rekey cenc = None" "e_exchange cenc = Some cex"
      "rekey_write_limit (cc_limits ccfg) \<le> sb_bytes wc \<or> rekey_time_limit (cc_limits ccfg) \<le> w_now Wc - last_rekey cenc"
    and server: "ss_at ss scfg sp senc ws" "e_rekey senc = None" "e_exchange senc = Some sex"
    and same: "client_id cex = client_id sex" "server_id cex = server_id sex" "e_session_id cenc = e_session_id senc"
  shows "\<exists>cinit cs1 sinit ss1 dh cs2 reply ws3 ss2 cs3 ss3 cs4 cenc' senc'.
    client_flush D Wc cs = Ok cs1 \<and>
      cipher_write (d_codec D) (d_sodium D) cp cinit wc = Ok (write_buffer (cl_common cs1)) \<and>
    server_reply D Ws H h cinit ss = Ok (h, ss1) \<and>
      cipher_write (d_codec D) (d_sodium D) sp sinit ws = Ok (write_buffer (ss_common ss1)) \<and>
    client_reply D Wc' CH hc sinit cs1 = Ok (hc, cs2) \<and>
      cipher_write (d_codec D) (d_sodium D) cp dh (write_buffer (cl_common cs1)) = Ok (write_buffer (cl_common cs2)) \<and>
    server_reply D Ws' H h dh ss1 = Ok (h, ss2) \<and>
      cipher_write (d_codec D) (d_sodium D) sp reply (write_buffer (ss_common ss1)) = Ok ws3 \<and>
      cipher_write (d_codec D) (d_sodium D) sp [MSG_NEWKEYS] ws3 = Ok (write_buffer (ss_common ss2)) \<and>
    client_reply D Wc' CH hc reply cs2 = Ok (hc, cs3) \<and>
      cipher_write (d_codec D) (d_sodium D) cp [MSG_NEWKEYS] (write_buffer (cl_common cs2)) =
        Ok (write_buffer (cl_common cs3)) \<and>
    client_reply D Wc' CH hc [MSG_NEWKEYS] cs3 = Ok (hc, cs4) \<and>
    server_reply D Ws' H h [MSG_NEWKEYS] ss2 = Ok (h, ss3) \<and>
    cl_encrypted cs4 = Some cenc' \<and> renewed cenc cenc' \<and>
    ss_encrypted ss3 = Some senc' \<and> renewed senc senc' \<and>
    delivers D (cs_cipher (cl_common cs4)) (cs_cipher (ss_common ss3)) \<and>
    delivers D (cs_cipher (ss_common ss3)) (cs_cipher (cl_common cs4))"
proof -
  let ?C = "d_codec D"
  obtain kic wc1 kis ws1 kdd wc2 kd reply ws3 nks ws4 nkc wc3 where
    cw: "client_write D Wc ccfg cp (kex_start (client_id cex) (server_id cex) (Some (e_session_id cenc))) wc = Ok (kic, wc1)"
    and sw: "server_write D Ws scfg sp (kex_start (client_id cex) (server_id cex) (Some (e_session_id cenc))) ws = Ok (kis, ws1)"
    and cparse: "client_parse D Wc' ccfg cp kic (server_kex_init (ki_exchange kis)) wc1 = Ok (kdd, wc2)"
    and sent: "ki_sent kic" and ng: "\<not> ignore_guessed (kdd_names kdd)"
    and sparse: "server_parse D Ws' scfg sp kis (client_kex_init (ki_exchange kic)) ws1 = Ok (Kex_KexDh kd, ws1)"
    and sread: "read_kex ?C server_select (client_kex_init (ki_exchange kic)) (sc_preferred scfg) = Ok (kd_names kd)"
    and dh: "kexdh_parse D Ws' scfg sp kd ([MSG_KEX_ECDH_INIT] @
      ssh_string ?C (client_ephemeral (kdd_exchange kdd))) ws1 = Ok (Kex_NewKeys nks, ws4)"
    and answer: "cipher_write ?C (d_sodium D) sp reply ws1 = Ok ws3"
      "cipher_write ?C (d_sodium D) sp [MSG_NEWKEYS] ws3 = Ok ws4" "index reply 0 = Ok MSG_KEX_ECDH_REPLY"
    and check: "server_key_check D (\<lambda>h k. Ok (h, True)) False () kdd reply = Ok (Kex_NewKeys nkc, ())"
    and del: "delivers D (nk_cipher nkc) (nk_cipher nks)" "delivers D (nk_cipher nks) (nk_cipher nkc)"
    and wc3: "cipher_write ?C (d_sodium D) cp [MSG_NEWKEYS] wc2 = Ok wc3"
    by (rule exchange_succeeds [OF laws prefs rand w neg key])
  obtain cs1 where c1: "client_flush D Wc cs = Ok cs1" and a1: "cl_at cs1 ccfg cp
      (cenc\<lparr> e_write_cursor := 0, e_exchange := None, e_rekey := Some (Kex_KexInit kic) \<rparr>) wc1"
    using client_starts [OF client cw] by blast
  obtain ss1 where s1: "server_reply D Ws H h (client_kex_init (ki_exchange kic)) ss = Ok (h, ss1)"
    and b1: "ss_at ss1 scfg sp (senc\<lparr> e_rekey := Some (Kex_KexDh kd), e_exchange := None \<rparr>) ws1"
    using server_takes_kexinit [where H = H and h = h, OF server kexinit_head(1) [OF cw] sread sw [unfolded same] sparse]
    by blast
  obtain cs2 where c2: "client_reply D Wc' CH hc (server_kex_init (ki_exchange kis)) cs1 = Ok (hc, cs2)"
    and a2: "cl_at cs2 ccfg cp (cenc\<lparr> e_exchange := None, e_rekey := Some (Kex_KexDhDone kdd),
      e_write_cursor := 0 \<rparr>) wc2"
    using client_takes_kexinit [where H = CH and h = hc, OF a1 _ _ kexinit_head(2) [OF sw] cparse] client(2)
    by auto
  obtain ss2 where s2: "server_reply D Ws' H h ([MSG_KEX_ECDH_INIT] @
      ssh_string ?C (client_ephemeral (kdd_exchange kdd))) ss1 = Ok (h, ss2)"
    and b2: "ss_at ss2 scfg sp (senc\<lparr> e_exchange := None, e_rekey := Some (Kex_NewKeys nks) \<rparr>) ws4"
    using server_takes_dh [where H = H and h = h, OF b1 _ _ dh] by auto
  obtain cs3 where c3: "client_reply D Wc' CH hc reply cs2 = Ok (hc, cs3)"
    and a3: "cl_at cs3 ccfg cp (cenc\<lparr> e_exchange := None, e_rekey := Some (Kex_NewKeys nkc),
      e_write_cursor := 0 \<rparr>) wc3"
    using client_takes_reply [where H = CH and h = hc, OF a2 _ _ ng answer(3) server_key_check_again [OF check] wc3]
      client(2) by auto
  obtain cs4 cenc' wc4 where c4: "client_reply D Wc' CH hc [MSG_NEWKEYS] cs3 = Ok (hc, cs4)"
    and a4: "cl_at cs4 ccfg (nk_cipher nkc) cenc' wc4" "renewed cenc cenc'"
    using client_takes_newkeys [where H = CH and h = hc and D = D and W = Wc', OF a3] by (auto simp: renewed_def)
  obtain ss3 senc' where s3: "server_reply D Ws' H h [MSG_NEWKEYS] ss2 = Ok (h, ss3)"
    and b4: "ss_at ss3 scfg (nk_cipher nks) senc' ws4" "renewed senc senc'"
    using server_takes_newkeys [where H = H and h = h and D = D and W = Ws', OF b2] by (auto simp: renewed_def)
  have wb: "wc1 = write_buffer (cl_common cs1)" "ws1 = write_buffer (ss_common ss1)"
    "wc2 = write_buffer (cl_common cs2)" "ws4 = write_buffer (ss_common ss2)" "wc3 = write_buffer (cl_common cs3)"
    "nk_cipher nkc = cs_cipher (cl_common cs4)" "nk_cipher nks = cs_cipher (ss_common ss3)"
    "cl_encrypted cs4 = Some cenc'" "ss_encrypted ss3 = Some senc'"
    using a1 a2 a3 a4(1) b1 b2 b4(1) by (simp_all add: cl_at_def ss_at_def Let_def)
  note written = kexinit_written(1) [OF cw, unfolded wb(1)] kexinit_written(2) [OF sw, unfolded wb(2)]
    dh_written [OF cparse sent, unfolded wb(1,3)] answer(1) [unfolded wb(2)] answer(2) [unfolded wb(4)]
    wc3 [unfolded wb(3,5)]
  show ?thesis
    by (intro exI conjI)
      (rule c1 s1 c2 s2 c3 c4 s3 written wb(8,9) a4(2) b4(2) del [unfolded wb(6,7)])+
qed

section \<open>A packet that crosses the start of an exchange\<close>

text \<open>
  Data that arrive while the client waits for the server's KEXINIT are handled as ever, and what
  is queued then is sent, under the old keys.
\<close>

lemma client_takes_data:
  assumes "codec_laws (d_codec D)" and "short p"
    and "cl_at s cfg cp enc wb" and "e_rekey enc = Some (Kex_KexInit kic)" and "e_state enc = Authenticated"
    and "channels enc ch = Some c" and "as_u32 (length p) \<le> sender_window_size c"
    and "sender_window_size c - as_u32 (length p) < cc_window_size cfg div 2"
  defines "grant \<equiv> [MSG_CHANNEL_WINDOW_ADJUST] @ u32_be (d_codec D) (recipient_channel c) @
    u32_be (d_codec D) (cc_window_size cfg - (sender_window_size c - as_u32 (length p)))"
  shows "\<exists>s'. client_reply D W (client_default_handler (d_codec D)) h
      ([MSG_CHANNEL_DATA] @ u32_be (d_codec D) ch @ ssh_string (d_codec D) p) s = Ok (h, s') \<and>
    cl_at s' cfg cp (enc\<lparr> e_write := e_write enc @ frame (d_codec D) grant,
      channels := (channels enc)(ch \<mapsto> c\<lparr> sender_window_size := cc_window_size cfg \<rparr>) \<rparr>) wb"
proof -
  let ?C = "d_codec D" and ?H = "client_default_handler (d_codec D)"
  let ?b = "[MSG_CHANNEL_DATA] @ u32_be ?C ch @ ssh_string ?C p"
  have "client_reply D W ?H h ?b s = client_read_authenticated D ?H h ?b s"
    using assms(3-5)
    by (simp add: client_reply_def client_read_encrypted_def client_read_service_state_def cl_at_def Let_def index_def)
  also have "\<dots> = (case client_adjust_window ?C ?H h ch p s of (h1, s1) \<Rightarrow> ch_event ?H h1 (CE_data ch p) s1)"
    by (rule data_packet_event [OF assms(1,2)])
  finally show ?thesis
    using assms(3,6-8)
    by (simp add: client_adjust_window_def adjust_window_size_def cl_at_def Let_def client_default_handler_def
        cl_set_encrypted_def cl_send_def grant_def split: option.split)
qed

lemma client_flush_frame:
  assumes "codec_laws (d_codec D)" and "cl_at s cfg cp enc wb" and "e_rekey enc \<noteq> None"
    and "e_write enc = frame (d_codec D) p" and "e_write_cursor enc = 0" and "e_compress enc = C_None"
    and "length p < 2 ^ 32" and "cipher_write (d_codec D) (d_sodium D) cp p wb = Ok wb'"
  shows "\<exists>s'. client_flush D W s = Ok s' \<and> cl_at s' cfg cp (enc\<lparr> e_write := [] \<rparr>) wb'"
proof -
  have "enc_flush D (w_now W) (cc_limits cfg) cp wb enc = Ok (enc\<lparr> e_write := [] \<rparr>, wb',
      rekey_write_limit (cc_limits cfg) \<le> sb_bytes wb' \<or> rekey_time_limit (cc_limits cfg) \<le> w_now W - last_rekey enc)"
    using flush_sends_queue [OF assms(1), of enc "[p]"] assms(4-8) by simp
  then show ?thesis using assms(2,3) by (auto simp: client_flush_def cl_at_def Let_def cl_set_common_def)
qed

lemma server_refuses_other:
  assumes "ss_at s cfg cp enc wb" and "e_rekey enc = Some (Kex_KexDh kd)" and "\<not> ignore_guessed (kd_names kd)"
    and "b \<noteq> MSG_KEXINIT" and "b \<noteq> MSG_KEX_ECDH_INIT"
  shows "server_reply D W H h (b # rest) s = Panic"
  using assms
  by (simp add: server_reply_def server_read_encrypted_def ss_at_def Let_def index_def kexdh_parse_def)

text \<open>
  C12. A connection that is in use breaks when the client renews the keys. Data of the server that
  are on their way when the client writes its KEXINIT may take the window of a channel below
  half; the client then grants more of it at once. The server, which has read the KEXINIT and
  waits for the next packet of the exchange, panics on the grant.
\<close>

theorem grant_in_rekeying_panics:
  fixes cs :: client_session and ss :: server_session and H :: "'s handler"
  assumes laws: "codec_laws (d_codec D)" "sodium_laws (d_sodium D)" "sha_laws D" "sha_total D"
    and prefs: "good_pref (cc_preferred ccfg)" "good_pref (sc_preferred scfg)"
      "short_kexinit D (cc_preferred ccfg)" "short_kexinit D (sc_preferred scfg)"
    and rand: "rand_ok Wc" "rand_ok Wc'" "rand_ok Ws" "rand_ok Ws'"
    and w: "writable D cp" "writable D sp"
    and neg: "negotiated server_select (sc_preferred scfg) (cc_preferred ccfg) = Ok n"
      "nm_cipher n = CHACHA20POLY1305"
    and key: "find_key (d_keys D) (sc_keys scfg) (nm_key n) < length (sc_keys scfg)"
      "\<forall>key \<in> set (sc_keys scfg). key_signs D key \<and> key_usable D key"
    and client: "cl_at cs ccfg cp cenc wc" "e_write cenc = []" "e_rekey cenc = None" "e_exchange cenc = Some cex"
      "rekey_write_limit (cc_limits ccfg) \<le> sb_bytes wc \<or> rekey_time_limit (cc_limits ccfg) \<le> w_now Wc - last_rekey cenc"
    and server: "ss_at ss scfg sp senc ws" "e_rekey senc = None" "e_exchange senc = Some sex"
    and same: "client_id cex = client_id sex" "server_id cex = server_id sex" "e_session_id cenc = e_session_id senc"
    and channel: "e_state cenc = Authenticated" "e_compress cenc = C_None" "channels cenc ch = Some c"
    and data: "short p" "as_u32 (length p) \<le> sender_window_size c"
      "sender_window_size c - as_u32 (length p) < cc_window_size ccfg div 2"
  shows "\<exists>cinit cs1 ss1 cs2 grant cs3.
    client_flush D Wc cs = Ok cs1 \<and>
      cipher_write (d_codec D) (d_sodium D) cp cinit wc = Ok (write_buffer (cl_common cs1)) \<and>
    client_reply D Wc' (client_default_handler (d_codec D)) hc
      ([MSG_CHANNEL_DATA] @ u32_be (d_codec D) ch @ ssh_string (d_codec D) p) cs1 = Ok (hc, cs2) \<and>
    client_flush D Wc' cs2 = Ok cs3 \<and>
      cipher_write (d_codec D) (d_sodium D) cp grant (write_buffer (cl_common cs2)) =
        Ok (write_buffer (cl_common cs3)) \<and>
    server_reply D Ws H h cinit ss = Ok (h, ss1) \<and>
    server_reply D Ws' H h grant ss1 = Panic"
proof -
  let ?C = "d_codec D"
  let ?ids = "kex_start (client_id cex) (server_id cex) (Some (e_session_id cenc))"
  let ?rest = "u32_be ?C (recipient_channel c) @ u32_be ?C
    (cc_window_size ccfg - (sender_window_size c - as_u32 (length p)))"
  let ?grant = "[MSG_CHANNEL_WINDOW_ADJUST] @ ?rest"
  obtain kic wc1 kis ws1 kd where
    cw: "client_write D Wc ccfg cp ?ids wc = Ok (kic, wc1)" and sw: "server_write D Ws scfg sp ?ids ws = Ok (kis, ws1)"
    and ng: "\<not> ignore_guessed (kd_names kd)"
    and sparse: "server_parse D Ws' scfg sp kis (client_kex_init (ki_exchange kic)) ws1 = Ok (Kex_KexDh kd, ws1)"
    and sread: "read_kex ?C server_select (client_kex_init (ki_exchange kic)) (sc_preferred scfg) = Ok (kd_names kd)"
    by (rule exchange_succeeds [OF laws prefs rand w neg key])
  obtain cs1 where c1: "client_flush D Wc cs = Ok cs1" and a1: "cl_at cs1 ccfg cp
      (cenc\<lparr> e_write_cursor := 0, e_exchange := None, e_rekey := Some (Kex_KexInit kic) \<rparr>) wc1"
    using client_starts [OF client cw] by blast
  obtain cs2 where c2: "client_reply D Wc' (client_default_handler ?C) hc
      ([MSG_CHANNEL_DATA] @ u32_be ?C ch @ ssh_string ?C p) cs1 = Ok (hc, cs2)"
    and a2: "cl_at cs2 ccfg cp (cenc\<lparr> e_write_cursor := 0, e_exchange := None, e_rekey := Some (Kex_KexInit kic),
      e_write := frame ?C ?grant, channels := (channels cenc)(ch \<mapsto> c\<lparr> sender_window_size := cc_window_size ccfg \<rparr>) \<rparr>) wc1"
    using client_takes_data [where W = Wc' and h = hc and kic = kic and ch = ch and c = c, OF laws(1) data(1) a1 _ _ _ data(2,3)]
      channel client(2) by auto
  have len: "length ?grant + 256 < 2 ^ 32" by (simp add: codec_laws.len_u32_be [OF laws(1)])
  then obtain wc2 where w2: "cipher_write ?C (d_sodium D) cp ?grant wc1 = Ok wc2"
    using w(1) unfolding writable_def by blast
  obtain cs3 where c3: "client_flush D Wc' cs2 = Ok cs3" and "write_buffer (cl_common cs3) = wc2"
    using client_flush_frame [where W = Wc' and p = ?grant, OF laws(1) a2 _ _ _ _ _ w2] channel(2) len
    by (auto simp: cl_at_def Let_def)
  moreover have "write_buffer (cl_common cs1) = wc1" "write_buffer (cl_common cs2) = wc1"
    using a1 a2 by (simp_all add: cl_at_def Let_def)
  moreover obtain ss1 where "server_reply D Ws H h (client_kex_init (ki_exchange kic)) ss = Ok (h, ss1)"
    and b1: "ss_at ss1 scfg sp (senc\<lparr> e_rekey := Some (Kex_KexDh kd), e_exchange := None \<rparr>) ws1"
    using server_takes_kexinit [where H = H and h = h, OF server kexinit_head(1) [OF cw] sread sw [unfolded same] sparse]
    by blast
  moreover have "server_reply D Ws' H h ?grant ss1 = Panic"
    using server_refuses_other [OF b1 _ ng, of MSG_CHANNEL_WINDOW_ADJUST D Ws' H h ?rest] by simp
  ultimately show ?thesis
    using c1 c2 w2 kexinit_written(1) [OF cw] by (intro exI conjI) (assumption | simp)+
qed

section \<open>A key exchange the server starts\<close>

lemma server_starts:
  assumes "ss_at s cfg cp enc wb" and "e_write enc = []" and "e_rekey enc = None" and "e_exchange enc = Some ex"
    and "rekey_write_limit (sc_limits cfg) \<le> sb_bytes wb \<or> rekey_time_limit (sc_limits cfg) \<le> w_now W - last_rekey enc"
    and "server_write D W cfg cp (kex_start (client_id ex) (server_id ex) (Some (e_session_id enc))) wb = Ok (kis, wb1)"
  shows "\<exists>s1. server_flush D W s = Ok s1 \<and> ss_at s1 cfg cp
    (enc\<lparr> e_write_cursor := 0, e_exchange := None, e_rekey := Some (Kex_KexInit kis) \<rparr>) wb1"
  using assms
  by (simp add: server_flush_def server_write_def ss_at_def Let_def flush_idle rekey_start ss_set_common_def)

text \<open>
  C11. A server cannot renew the keys. When it starts an exchange, the client that reads its
  KEXINIT ends the connection, although the algorithms can be negotiated: the client has noted
  them before it parses the packet, and the parser refuses a packet after that.
\<close>

theorem server_rekey_refused:
  fixes cs :: client_session and ss :: server_session and CH :: "'c client_handler"
  assumes laws: "codec_laws (d_codec D)"
    and prefs: "good_pref (cc_preferred ccfg)" "good_pref (sc_preferred scfg)" "short_kexinit D (sc_preferred scfg)"
    and env: "rand_ok Ws" "writable D sp"
    and neg: "negotiated server_select (sc_preferred scfg) (cc_preferred ccfg) = Ok n"
    and server: "ss_at ss scfg sp senc ws" "e_write senc = []" "e_rekey senc = None" "e_exchange senc = Some sex"
      "rekey_write_limit (sc_limits scfg) \<le> sb_bytes ws \<or> rekey_time_limit (sc_limits scfg) \<le> w_now Ws - last_rekey senc"
    and client: "cl_at cs ccfg cp cenc wc" "e_rekey cenc = None" "e_exchange cenc = Some cex"
  shows "\<exists>ss1 sinit. server_flush D Ws ss = Ok ss1 \<and>
    cipher_write (d_codec D) (d_sodium D) sp sinit ws = Ok (write_buffer (ss_common ss1)) \<and>
    client_reply D Wc CH hc sinit cs = Err (Thrussh E_Kex)"
proof -
  let ?start = "kex_start (client_id sex) (server_id sex) (Some (e_session_id senc))"
  obtain si ws1 cookie where c: "w_rand Ws 16 = Ok cookie" "length cookie = 16"
    "write_kex (d_codec D) (sc_preferred scfg) (w_rand Ws 16) [] = Ok si"
    "cipher_write (d_codec D) (d_sodium D) sp si ws = Ok ws1"
    by (rule write_step [OF env(2,1) prefs(3)])
  define kis where "kis = ?start\<lparr> ki_exchange := (ki_exchange ?start)\<lparr> server_kex_init := si \<rparr>, ki_sent := True \<rparr>"
  have sw: "server_write D Ws scfg sp ?start ws = Ok (kis, ws1)" and si: "server_kex_init (ki_exchange kis) = si"
    by (simp_all add: server_write_def c(3,4) kis_def)
  obtain ss1 where f: "server_flush D Ws ss = Ok ss1" and wb: "ws1 = write_buffer (ss_common ss1)"
    using server_starts [OF server sw] by (auto simp: ss_at_def Let_def)
  have "read_kex (d_codec D) client_select si (cc_preferred ccfg) = Ok n"
    using codec_laws.read_kex_written [OF laws c(3) [unfolded c(1)] c(2) prefs(2), of client_select "cc_preferred ccfg"]
      neg negotiated_agree [OF prefs(1,2)] by simp
  moreover have "index si 0 = Ok MSG_KEXINIT" using kexinit_head(2) [OF sw] unfolding si .
  ultimately have "client_reply D Wc CH hc si cs = Err (Thrussh E_Kex)"
    using client
    by (simp add: client_reply_def client_read_encrypted_def client_rekey_init_def client_parse_def
        received_rekey_def cl_at_def Let_def)
  then show ?thesis using f c(4) unfolding wb by blast
qed

section \<open>A concrete connection\<close>

definition demo_renewable :: encrypted where
  "demo_renewable = encrypted_new 0 Authenticated demo_new_keys"

definition demo_old_limits :: limits where
  "demo_old_limits = \<lparr> rekey_write_limit = 0, rekey_read_limit = 0, rekey_time_limit = 0 \<rparr>"

definition demo_renewing_client :: client_session where
  "demo_renewing_client = \<lparr> cl_common = \<lparr> auth_user = [], config = demo_client_config\<lparr> cc_limits := demo_old_limits \<rparr>,
     cs_encrypted = Some demo_renewable, cs_auth_method = None, write_buffer = sshbuffer_new, cs_kex = None,
     cs_cipher = CLEAR_PAIR, cs_wants_reply = False, disconnected = False \<rparr>,
     cl_receiver = [], cl_handle_alive = True, cl_replies = [], cl_channels = Map.empty,
     cl_sent = [], cl_target_window_size = 20 \<rparr>"

definition demo_renewing_server :: server_session where
  "demo_renewing_server = \<lparr> ss_common = \<lparr> auth_user = [], config = demo_server_config\<lparr> sc_limits := demo_old_limits \<rparr>,
     cs_encrypted = Some demo_renewable, cs_auth_method = None, write_buffer = sshbuffer_new, cs_kex = None,
     cs_cipher = CLEAR_PAIR, cs_wants_reply = False, disconnected = False \<rparr>,
     ss_target_window_size = 20 \<rparr>"

lemma demo_renewing:
  "cl_at demo_renewing_client (demo_client_config\<lparr> cc_limits := demo_old_limits \<rparr>) CLEAR_PAIR demo_renewable sshbuffer_new"
  "ss_at demo_renewing_server (demo_server_config\<lparr> sc_limits := demo_old_limits \<rparr>) CLEAR_PAIR demo_renewable sshbuffer_new"
  "e_write demo_renewable = []" "e_rekey demo_renewable = None"
  "e_exchange demo_renewable = Some (nk_exchange demo_new_keys)"
  by (simp_all add: cl_at_def ss_at_def Let_def demo_renewing_client_def demo_renewing_server_def
      demo_renewable_def encrypted_new_def)

abbreviation demo_ccfg :: client_config where
  "demo_ccfg \<equiv> demo_client_config\<lparr> cc_limits := demo_old_limits \<rparr>"

abbreviation demo_scfg :: server_config where
  "demo_scfg \<equiv> demo_server_config\<lparr> sc_limits := demo_old_limits \<rparr>"

lemma demo_renewing_env:
  obtains n where "negotiated server_select (sc_preferred demo_scfg) (cc_preferred demo_ccfg) = Ok n"
    "nm_cipher n = CHACHA20POLY1305"
    "find_key (d_keys demo_deps) (sc_keys demo_scfg) (nm_key n) < length (sc_keys demo_scfg)"
    "\<forall>key \<in> set (sc_keys demo_scfg). key_signs demo_deps key \<and> key_usable demo_deps key"
  by (rule demo_environment) (use that in \<open>simp add: demo_handshake_facts\<close>)

lemma demo_renewing_pref:
  "good_pref (cc_preferred demo_ccfg)" "good_pref (sc_preferred demo_scfg)"
  "short_kexinit demo_deps (cc_preferred demo_ccfg)" "short_kexinit demo_deps (sc_preferred demo_scfg)"
  by (simp_all add: demo_handshake_facts)

lemma demo_over_limit:
  "rekey_write_limit (cc_limits demo_ccfg) \<le> sb_bytes sshbuffer_new \<or> P"
  by (simp add: demo_old_limits_def)

theorem client_rekey_agreement_witness:
  "\<exists>cs1 cs3 cs4 ss2 ss3 cenc'. client_flush demo_deps (demo_world 1) demo_renewing_client = Ok cs1 \<and>
    client_reply demo_deps (demo_world 3) (client_default_handler rfc_codec) () [MSG_NEWKEYS] cs3 = Ok ((), cs4) \<and>
    server_reply demo_deps (demo_world 5) (default_handler rfc_codec) () [MSG_NEWKEYS] ss2 = Ok ((), ss3) \<and>
    cl_encrypted cs4 = Some cenc' \<and> renewed demo_renewable cenc' \<and>
    delivers demo_deps (cs_cipher (cl_common cs4)) (cs_cipher (ss_common ss3)) \<and>
    delivers demo_deps (cs_cipher (ss_common ss3)) (cs_cipher (cl_common cs4))"
proof -
  obtain n where n: "negotiated server_select (sc_preferred demo_scfg) (cc_preferred demo_ccfg) = Ok n"
    "nm_cipher n = CHACHA20POLY1305"
    "find_key (d_keys demo_deps) (sc_keys demo_scfg) (nm_key n) < length (sc_keys demo_scfg)"
    "\<forall>key \<in> set (sc_keys demo_scfg). key_signs demo_deps key \<and> key_usable demo_deps key"
    by (rule demo_renewing_env)
  note run = client_rekey_agreement [where Wc = "demo_world 1" and Wc' = "demo_world 3" and Ws = "demo_world 2" and
      Ws' = "demo_world 5" and CH = "client_default_handler rfc_codec" and H = "default_handler rfc_codec" and
      h = "()" and hc = "()", OF demo_deps_laws demo_sha demo_renewing_pref demo_rand demo_rand demo_rand demo_rand
      demo_writable demo_writable n demo_renewing(1,3-5) demo_over_limit demo_renewing(2,4,5) refl refl refl]
  then show ?thesis by (elim exE conjE) (intro exI conjI; assumption)
qed

text \<open>The same client with an open channel, of whose window little is left.\<close>

definition demo_busy :: encrypted where
  "demo_busy = demo_renewable\<lparr> channels := [2 \<mapsto> demo_channel\<lparr> sender_window_size := 5 \<rparr>] \<rparr>"

theorem grant_in_rekeying_panics_witness:
  "\<exists>cinit cs1 ss1 cs2 grant cs3.
    client_flush demo_deps (demo_world 1) (cl_set_encrypted demo_busy demo_renewing_client) = Ok cs1 \<and>
    client_reply demo_deps (demo_world 3) (client_default_handler (d_codec demo_deps)) ()
      ([MSG_CHANNEL_DATA] @ u32_be (d_codec demo_deps) 2 @ ssh_string (d_codec demo_deps) [1, 2]) cs1 = Ok ((), cs2) \<and>
    client_flush demo_deps (demo_world 3) cs2 = Ok cs3 \<and>
    server_reply demo_deps (demo_world 2) (default_handler rfc_codec) () cinit demo_renewing_server = Ok ((), ss1) \<and>
    server_reply demo_deps (demo_world 5) (default_handler rfc_codec) () grant ss1 = Panic"
proof -
  obtain n where n: "negotiated server_select (sc_preferred demo_scfg) (cc_preferred demo_ccfg) = Ok n"
    "nm_cipher n = CHACHA20POLY1305"
    "find_key (d_keys demo_deps) (sc_keys demo_scfg) (nm_key n) < length (sc_keys demo_scfg)"
    "\<forall>key \<in> set (sc_keys demo_scfg). key_signs demo_deps key \<and> key_usable demo_deps key"
    by (rule demo_renewing_env)
  have c: "cl_at (cl_set_encrypted demo_busy demo_renewing_client) demo_ccfg CLEAR_PAIR demo_busy sshbuffer_new"
    "e_write demo_busy = []" "e_rekey demo_busy = None" "e_exchange demo_busy = Some (nk_exchange demo_new_keys)"
    using demo_renewing by (simp_all add: cl_at_def Let_def cl_set_encrypted_def demo_busy_def)
  have ch: "e_session_id demo_busy = e_session_id demo_renewable" "e_state demo_busy = Authenticated"
    "e_compress demo_busy = C_None" "channels demo_busy 2 = Some (demo_channel\<lparr> sender_window_size := 5 \<rparr>)"
    by (simp_all add: demo_busy_def demo_renewable_def encrypted_new_def)
  have d: "short ([1, 2] :: bytes)"
    "as_u32 (length ([1, 2] :: bytes)) \<le> sender_window_size (demo_channel\<lparr> sender_window_size := 5 \<rparr>)"
    "sender_window_size (demo_channel\<lparr> sender_window_size := 5 \<rparr>) - as_u32 (length ([1, 2] :: bytes)) <
      cc_window_size demo_ccfg div 2"
    by (simp_all add: demo_client_config_def client_config_default_def)
  note run = grant_in_rekeying_panics [where Wc = "demo_world 1" and Wc' = "demo_world 3" and Ws = "demo_world 2" and
      Ws' = "demo_world 5" and H = "default_handler rfc_codec" and h = "()" and hc = "()",
      OF demo_deps_laws demo_sha demo_renewing_pref demo_rand demo_rand demo_rand demo_rand
      demo_writable demo_writable n c demo_over_limit demo_renewing(2,4,5) refl refl ch d]
  then show ?thesis by (elim exE conjE) (intro exI conjI; assumption)
qed

theorem server_rekey_refused_witness:
  "\<exists>ss1 sinit. server_flush demo_deps (demo_world 2) demo_renewing_server = Ok ss1 \<and>
    cipher_write (d_codec demo_deps) (d_sodium demo_deps) CLEAR_PAIR sinit sshbuffer_new =
      Ok (write_buffer (ss_common ss1)) \<and>
    client_reply demo_deps (demo_world 3) (client_default_handler rfc_codec) () sinit demo_renewing_client =
      Err (Thrussh E_Kex)"
proof -
  obtain n where n: "negotiated server_select demo_names demo_names = Ok n" by (rule demo_environment)
  show ?thesis
    by (rule server_rekey_refused [where n = n, OF demo_deps_laws(1) _ _ _ demo_rand demo_writable _
          demo_renewing(2-5) _ demo_renewing(1,4,5)])
      (simp_all add: demo_handshake_facts n [simplified] demo_old_limits_def)
qed

end
