(* ===== verification/Compressed.thy ===== *)
theory Compressed
  imports Rekeying Login
begin

text \<open>
  A connection that compresses: what one side queues, through compression, encryption, the wire,
  decryption and decompression, to the other side; and what happens to it when the keys are
  renewed. The library \<^verbatim>\<open>flate2\<close> is a parameter, of which its documentation is assumed.
\<close>

section \<open>What the library promises\<close>

text \<open>
  \<open>expands d inp out d'\<close>: the decompressor in state \<open>d\<close>, given all of \<open>inp\<close>, has \<open>out\<close> to give and
  is in state \<open>d'\<close> then. \<open>sync c d\<close>: a decompressor in state \<open>d\<close> has seen all that the compressor in
  state \<open>c\<close> has written. A call of the compressor with a flush that leaves some of the output
  unused has written something for a nonempty input, and everything the decompressor needs. A call
  of the decompressor gives a part of what there is; it reports a lack of room or input, if there
  was room, only when nothing is left.
\<close>

definition deflate_law ::
  "flate \<Rightarrow> (nat \<Rightarrow> nat \<Rightarrow> bool) \<Rightarrow> (nat \<Rightarrow> bytes \<Rightarrow> bytes \<Rightarrow> nat \<Rightarrow> bool) \<Rightarrow> bool" where
  "deflate_law Z sync expands \<longleftrightarrow>
     sync (deflate_new Z) (inflate_new Z) \<and>
     (\<forall>c d. sync c d \<longrightarrow> sync (deflate_reset Z c) (inflate_reset Z d)) \<and>
     (\<forall>c d inp n. sync c d \<and> inp \<noteq> [] \<and> z_status (deflate Z c inp n) = Ok Z_Ok \<and>
        length (z_written (deflate Z c inp n)) < n \<longrightarrow>
        z_written (deflate Z c inp n) \<noteq> [] \<and>
        (\<exists>d'. expands d (z_written (deflate Z c inp n)) inp d' \<and> sync (z_state (deflate Z c inp n)) d'))"

definition inflate_law :: "flate \<Rightarrow> (nat \<Rightarrow> bytes \<Rightarrow> bytes \<Rightarrow> nat \<Rightarrow> bool) \<Rightarrow> bool" where
  "inflate_law Z expands \<longleftrightarrow>
     (\<forall>d inp out d' n. expands d inp out d' \<longrightarrow>
        (let r = inflate Z d inp n in
         z_consumed r \<le> length inp \<and> length (z_written r) \<le> n \<and>
         (\<exists>out'. out = z_written r @ out' \<and> expands (z_state r) (drop (z_consumed r) inp) out' d') \<and>
         (z_status r = Ok Z_Ok \<and> (0 < z_consumed r \<or> z_written r \<noteq> []) \<or>
          z_status r = Ok Z_BufError \<and> (0 < n \<longrightarrow> out = [] \<and> z_state r = d'))))"

lemma inflate_call:
  assumes "inflate_law Z expands" and "expands d inp out d'" and "r = inflate Z d inp n" and "0 < n"
  obtains out' where "z_status r = Ok Z_Ok" "z_consumed r \<le> length inp" "length (z_written r) \<le> n"
      "out = z_written r @ out'" "expands (z_state r) (drop (z_consumed r) inp) out' d'"
      "0 < z_consumed r \<or> z_written r \<noteq> []"
    | "z_status r = Ok Z_BufError" "out = []" "z_written r = []" "z_state r = d'"
  using assms unfolding inflate_law_def Let_def by (metis append_is_Nil_conv)

section \<open>One packet\<close>

text \<open>The decompressing loop collects everything, whatever the size of the output is at first.\<close>

lemma decompress_loop_all:
  assumes "inflate_law Z expands"
    and "expands st (drop n_in input) out' d'" and "n_in \<le> length input" and "length out < sz"
  shows "decompress_loop Z input st n_in out sz = Some (Ok (out @ out'), d')"
  using assms(2-)
proof (induction "length (drop n_in input) + length out'" arbitrary: st n_in out out' sz rule: less_induct)
  case less
  let ?r = "inflate Z st (drop n_in input) (sz - length out)"
  have room: "0 < sz - length out" using less.prems(3) by simp
  note round = decompress_loop.simps [of Z input st n_in out sz]
  show ?case
  proof (rule inflate_call [OF assms(1) less.prems(1) refl room])
    fix out2
    assume more: "z_status ?r = Ok Z_Ok" "z_consumed ?r \<le> length (drop n_in input)"
      "length (z_written ?r) \<le> sz - length out" "out' = z_written ?r @ out2"
      "expands (z_state ?r) (drop (z_consumed ?r) (drop n_in input)) out2 d'" "0 < z_consumed ?r \<or> z_written ?r \<noteq> []"
    have le: "n_in + z_consumed ?r \<le> length input" using more(2) less.prems(2) by simp
    have lt: "length (out @ z_written ?r) < sz * 2" using more(3) less.prems(3) by simp
    have "length (drop (n_in + z_consumed ?r) input) + length out2 < length (drop n_in input) + length out'"
      using more(2,4,6) by (cases "z_written ?r") auto
    moreover have "expands (z_state ?r) (drop (n_in + z_consumed ?r) input) out2 d'"
      using more(5) by (simp add: add.commute)
    ultimately have "decompress_loop Z input (z_state ?r) (n_in + z_consumed ?r) (out @ z_written ?r) (sz * 2) =
        Some (Ok ((out @ z_written ?r) @ out2), d')"
      using le lt by (rule less.hyps)
    then show ?thesis using round less.prems(2,3) more(1,4) by (simp add: Let_def)
  next
    assume "z_status ?r = Ok Z_BufError" "out' = []" "z_written ?r = []" "z_state ?r = d'"
    then show ?thesis using round less.prems(2,3) by (simp add: Let_def)
  qed
qed

fun in_step :: "(nat \<Rightarrow> nat \<Rightarrow> bool) \<Rightarrow> compress \<Rightarrow> decompress \<Rightarrow> bool" where
  "in_step sync C_None D_None = True"
| "in_step sync (C_Zlib c) (D_Zlib d) = sync c d"
| "in_step sync c d = False"

text \<open>That the compressor needs less than the ten bytes the code has in reserve for every packet.\<close>

fun leaves_room :: "flate \<Rightarrow> compress \<Rightarrow> bytes list \<Rightarrow> bool" where
  "leaves_room Z C_None ps = True"
| "leaves_room Z (C_Zlib c) [] = True"
| "leaves_room Z (C_Zlib c) (p # ps) =
     (p \<noteq> [] \<and> z_status (deflate Z c p (length p + 10)) = Ok Z_Ok \<and>
      length (z_written (deflate Z c p (length p + 10))) < length p + 10 \<and>
      leaves_room Z (C_Zlib (z_state (deflate Z c p (length p + 10)))) ps)"

lemma compressed_packet:
  assumes "deflate_law Z sync expands" and "inflate_law Z expands"
    and "in_step sync c d" and "leaves_room Z c (p # ps)"
  obtains q c' d' where "compress_packet Z c p = (Ok q, c')" and "decompress_packet Z d q = (Ok p, d')"
    and "in_step sync c' d'" and "leaves_room Z c' ps" and "length q \<le> length p + 10"
proof (cases c)
  case C_None
  with assms(3,4) show thesis
    by (cases d) (auto intro!: that simp: compress_packet_def decompress_packet_def)
next
  case (C_Zlib st)
  with assms(3) obtain sd where d: "d = D_Zlib sd" and s: "sync st sd" by (cases d) auto
  let ?r = "deflate Z st p (length p + 10)"
  have r: "p \<noteq> []" "z_status ?r = Ok Z_Ok" "length (z_written ?r) < length p + 10"
    "leaves_room Z (C_Zlib (z_state ?r)) ps"
    using assms(4) C_Zlib by auto
  with assms(1) s obtain d' where ne: "z_written ?r \<noteq> []" and e: "expands sd (z_written ?r) p d'"
    and s': "sync (z_state ?r) d'"
    unfolding deflate_law_def by blast
  have "compress_packet Z c p = (Ok (z_written ?r), C_Zlib (z_state ?r))"
    using r(2,3) C_Zlib by (simp add: compress_packet_def compress_loop.simps Let_def)
  moreover have "decompress_packet Z d (z_written ?r) = (Ok p, D_Zlib d')"
    using decompress_loop_all [OF assms(2), of sd 0 "z_written ?r" p d' "[]"] e ne d
    by (simp add: decompress_packet_def)
  ultimately show thesis by (rule that) (use s' r in auto)
qed

section \<open>A queue of packets\<close>

text \<open>The packets read, as the decompressor leaves them, one after the other.\<close>

fun decompress_all :: "flate \<Rightarrow> decompress \<Rightarrow> bytes list \<Rightarrow> (bytes list \<times> decompress) res" where
  "decompress_all Z d [] = Ok ([], d)"
| "decompress_all Z d (q # qs) =
     (case decompress_packet Z d q of (r, d') \<Rightarrow>
        rbind r (\<lambda>p. rmap (\<lambda>(ps, d''). (p # ps, d'')) (decompress_all Z d' qs)))"

lemma compressed_packets:
  assumes "deflate_law Z sync expands" and "inflate_law Z expands"
    and "in_step sync c d" and "leaves_room Z c ps"
  shows "\<exists>qs c' d'. compress_all Z c ps = Ok (qs, c') \<and> decompress_all Z d qs = Ok (ps, d') \<and>
    in_step sync c' d' \<and> list_all2 (\<lambda>q p. length q \<le> length p + 10) qs ps"
  using assms(3,4)
proof (induction ps arbitrary: c d)
  case Nil
  then show ?case by auto
next
  case (Cons p ps)
  obtain q c1 d1 where q: "compress_packet Z c p = (Ok q, c1)" "decompress_packet Z d q = (Ok p, d1)"
    "in_step sync c1 d1" "leaves_room Z c1 ps" "length q \<le> length p + 10"
    by (rule compressed_packet [OF assms(1,2) Cons.prems])
  from Cons.IH [OF q(3,4)] obtain qs c' d' where "compress_all Z c1 ps = Ok (qs, c')"
    "decompress_all Z d1 qs = Ok (ps, d')" "in_step sync c' d'" "list_all2 (\<lambda>q p. length q \<le> length p + 10) qs ps"
    by blast
  with q show ?case by (intro exI [of _ "q # qs"]) auto
qed


text \<open>The stand-in of the library copies: it satisfies the laws.\<close>

lemma demo_flate_laws:
  "deflate_law (d_flate demo_deps) (\<lambda>c d. True) (\<lambda>d inp out d'. out = inp \<and> d' = d)"
  "inflate_law (d_flate demo_deps) (\<lambda>d inp out d'. out = inp \<and> d' = d)"
  by (auto simp: deflate_law_def inflate_law_def demo_deps_def Let_def min_def)

lemma demo_clear_delivers: "delivers demo_deps CLEAR_PAIR CLEAR_PAIR"
  using clear_packet_cipher [OF demo_deps_laws(1), of "d_sodium demo_deps"]
  by (intro packet_cipher_delivers) (simp add: CLEAR_PAIR_def)

definition demo_zipping :: encrypted where
  "demo_zipping = demo_enc\<lparr> e_write := frames (d_codec demo_deps) [[94, 1], [97]], e_compress := C_Zlib 0 \<rparr>"


section \<open>Where compression starts\<close>

lemma init_in_step:
  assumes "deflate_law Z sync expands" and "in_step sync c d"
  shows "in_step sync (init_compress Z k c) (init_decompress Z k d)"
  using assms by (cases k; cases c; cases d) (auto simp: deflate_law_def)

text \<open>The client's end of a round in which it learned that it is in.\<close>

lemma client_turns_to_compression:
  assumes "cl_at s cfg cp enc wb" and "e_write enc = []" and "e_rekey enc = None" and "e_state enc = InitCompression"
    and "\<not> (rekey_write_limit (cc_limits cfg) \<le> sb_bytes wb \<or> rekey_time_limit (cc_limits cfg) \<le> w_now W - last_rekey enc)"
  shows "\<exists>sent s'. client_end_round D W s = Ok (sent, s') \<and> cl_encrypted s' = Some (enc\<lparr> e_write_cursor := 0,
    e_compress := init_compress (d_flate D) (client_compression enc) (e_compress enc), e_state := Authenticated \<rparr>)"
  using assms
  by (simp add: client_end_round_def client_send_all_def client_flush_def flush_idle cl_at_def Let_def
      cl_set_common_def cl_with_enc_def cl_set_encrypted_def)

text \<open>
  C26. Both sides start to compress at the same packets. After the server has accepted a password,
  it decompresses what comes; the client that reads of its success decompresses what comes, and
  compresses from the next round on; and the server compresses once it has read the client's next
  packet. If the two agreed on the algorithms, each compressor is in step with the decompressor at
  the other end.
\<close>

theorem compression_starts_in_step:
  fixes cs :: client_session and ss :: server_session and CH :: "'c client_handler" and H :: "'s handler"
  assumes laws: "codec_laws (d_codec D)" "deflate_law (d_flate D) sync expands"
    and strings: "sound_string user" "sound_string password"
    and server: "ss_at ss scfg sp senc ws" "e_rekey senc = None" "e_state senc = WaitingAuthRequest sar"
      "h_auth_password H h user password = Ok (h', Auth_Accept)"
    and client: "cl_at cs ccfg cp cenc wc" "cl_handle_alive cs" "e_rekey cenc = None"
      "e_state cenc = WaitingAuthRequest car" "e_write cenc = []"
      "\<not> (rekey_write_limit (cc_limits ccfg) \<le> sb_bytes wc \<or> rekey_time_limit (cc_limits ccfg) \<le> w_now Wc - last_rekey cenc)"
    and same: "server_compression senc = server_compression cenc" "client_compression senc = client_compression cenc"
    and before: "in_step sync (e_compress senc) (e_decompress cenc)" "in_step sync (e_compress cenc) (e_decompress senc)"
    and "next": "b \<noteq> MSG_KEXINIT"
  shows "\<exists>ss1 senc1 cs1 sent cs2 cenc2 ss2 senc2.
    server_reply D W H h (password_request (d_codec D) 1 user password) ss = Ok (h', ss1) \<and>
      ss_encrypted ss1 = Some senc1 \<and> e_write senc1 = e_write senc @ frame (d_codec D) [MSG_USERAUTH_SUCCESS] \<and>
    client_reply D Wc CH hc [MSG_USERAUTH_SUCCESS] cs = Ok (hc, cs1) \<and>
    client_end_round D Wc cs1 = Ok (sent, cs2) \<and>
      cl_encrypted cs2 = Some cenc2 \<and> e_state cenc2 = Authenticated \<and>
      in_step sync (e_compress cenc2) (e_decompress senc1) \<and>
    server_reply D W' H h' (b # rest) ss1 = server_read_authenticated D W' H h' (b # rest) ss2 \<and>
      ss_encrypted ss2 = Some senc2 \<and> in_step sync (e_compress senc2) (e_decompress cenc2)"
proof -
  let ?C = "d_codec D" and ?Z = "d_flate D"
  define senc1 where "senc1 = (enc_accept ?C senc)\<lparr> e_decompress :=
    init_decompress ?Z (client_compression senc) (e_decompress senc) \<rparr>"
  define cenc1 where "cenc1 = cenc\<lparr> e_state := InitCompression,
    e_decompress := init_decompress ?Z (server_compression cenc) (e_decompress cenc) \<rparr>"
  have accept: "enc_accept ?C senc = senc\<lparr> e_write := e_write senc @ frame ?C [MSG_USERAUTH_SUCCESS],
      e_state := InitCompression \<rparr>"
    by (simp add: enc_accept_def server_auth_request_success_def)
  have auth: "server_read_auth_request D H h (password_request ?C 1 user password) (u0, senc) =
      Ok (h', user, enc_accept ?C senc)" for u0
    using codec_laws.password_request_run [OF laws(1) refl _ _ _ _ server(3,4)] strings by simp
  have head: "index (password_request ?C 1 user password) 0 = Ok MSG_USERAUTH_REQUEST"
    by (simp add: password_request_def userauth_request_def index_def)
  define ss1 where "ss1 = ss_set_common ((ss_common ss)\<lparr> auth_user := user, cs_encrypted := Some senc1 \<rparr>) ss"
  have s1: "server_reply D W H h (password_request ?C 1 user password) ss = Ok (h', ss1)"
    using server(1-3) auth head
    by (simp add: server_reply_def server_read_encrypted_def server_read_service_def ss_at_def Let_def ss1_def
        senc1_def accept)
  have e1: "ss_encrypted ss1 = Some senc1" by (simp add: ss1_def ss_set_common_def)
  define ss2 where "ss2 = ss_set_encrypted (senc1\<lparr> e_compress := init_compress ?Z (server_compression senc1) (e_compress senc1),
      e_state := Authenticated \<rparr>) ss1"
  have "e_rekey senc1 = None" "e_state senc1 = InitCompression" using server(2) by (simp_all add: senc1_def accept)
  with e1 "next" have s2: "server_reply D W' H h' (b # rest) ss1 = server_read_authenticated D W' H h' (b # rest) ss2"
    by (simp add: server_reply_def server_read_encrypted_def server_read_service_def Let_def index_def ss2_def)
  define cs1 where "cs1 = cl_set_encrypted cenc1 (cs\<lparr> cl_replies := cl_replies cs @ [Reply_AuthSuccess] \<rparr>)"
  have c1: "client_reply D Wc CH hc [MSG_USERAUTH_SUCCESS] cs = Ok (hc, cs1)"
    using client(1,3,4) client_reads_success [OF client(2), of D CH hc car cenc]
    by (simp add: client_reply_def client_read_encrypted_def client_read_service_state_def cl_at_def Let_def
        index_def cs1_def cenc1_def)
  have "cl_at cs1 ccfg cp cenc1 wc" using client(1) by (simp add: cl_at_def Let_def cs1_def cl_set_encrypted_def)
  then obtain sent cs2 where c2: "client_end_round D Wc cs1 = Ok (sent, cs2)" "cl_encrypted cs2 = Some (cenc1\<lparr> e_write_cursor := 0,
      e_compress := init_compress ?Z (client_compression cenc1) (e_compress cenc1), e_state := Authenticated \<rparr>)"
    using client_turns_to_compression [of cs1 ccfg cp cenc1 wc Wc D] client(3,5,6) by (auto simp: cenc1_def)
  have "ss_encrypted ss2 = Some (senc1\<lparr> e_compress := init_compress ?Z (server_compression senc1) (e_compress senc1),
      e_state := Authenticated \<rparr>)" by (simp add: ss2_def ss_set_encrypted_def)
  moreover have "e_write senc1 = e_write senc @ frame ?C [MSG_USERAUTH_SUCCESS]" by (simp add: senc1_def accept)
  moreover have "in_step sync (init_compress ?Z (client_compression cenc1) (e_compress cenc1)) (e_decompress senc1)"
    using init_in_step [OF laws(2) before(2)] same(2) by (simp add: senc1_def cenc1_def)
  moreover have "in_step sync (init_compress ?Z (server_compression senc1) (e_compress senc1)) (e_decompress cenc1)"
    using init_in_step [OF laws(2) before(1)] same(1) by (simp add: senc1_def cenc1_def accept)
  ultimately show ?thesis using s1 e1 c1 c2 s2 by (intro exI conjI) (assumption | simp)+
qed

definition demo_zip_waiting :: encrypted where
  "demo_zip_waiting = demo_waiting\<lparr> server_compression := Compression_Zlib, client_compression := Compression_Zlib \<rparr>"

definition demo_waiting_client :: client_session where
  "demo_waiting_client = cl_set_common ((cl_common demo_renewing_client)\<lparr> config := demo_client_config,
     cs_encrypted := Some demo_zip_waiting \<rparr>) demo_renewing_client"

theorem compression_starts_in_step_witness:
  "\<exists>ss1 senc1 cs1 sent cs2 cenc2.
    server_reply demo_deps (demo_world 2) demo_app () (password_request rfc_codec 1 [97] [7])
      (ss_set_encrypted demo_zip_waiting demo_renewing_server) = Ok ((), ss1) \<and>
      ss_encrypted ss1 = Some senc1 \<and>
    client_reply demo_deps (demo_world 1) demo_ch () [MSG_USERAUTH_SUCCESS] demo_waiting_client = Ok ((), cs1) \<and>
    client_end_round demo_deps (demo_world 1) cs1 = Ok (sent, cs2) \<and> cl_encrypted cs2 = Some cenc2 \<and>
    e_state cenc2 = Authenticated \<and> in_step (\<lambda>c d. True) (e_compress cenc2) (e_decompress senc1)"
proof -
  have s: "ss_at (ss_set_encrypted demo_zip_waiting demo_renewing_server) demo_scfg CLEAR_PAIR demo_zip_waiting sshbuffer_new"
    using demo_renewing(2) by (simp add: ss_at_def Let_def ss_set_encrypted_def)
  have c: "cl_at demo_waiting_client demo_client_config CLEAR_PAIR demo_zip_waiting sshbuffer_new"
    "cl_handle_alive demo_waiting_client"
    by (simp_all add: cl_at_def Let_def demo_waiting_client_def cl_set_common_def demo_renewing_client_def)
  have e: "e_rekey demo_zip_waiting = None" "e_write demo_zip_waiting = []"
    "e_compress demo_zip_waiting = C_None" "e_decompress demo_zip_waiting = D_None" "last_rekey demo_zip_waiting = 0"
    "e_state demo_zip_waiting = e_state demo_waiting"
    by (simp_all add: demo_zip_waiting_def demo_waiting_def encrypted_new_def)
  have a: "h_auth_password demo_app () [97] [7] = Ok ((), Auth_Accept)" by (simp add: demo_app_def)
  have l: "\<not> (rekey_write_limit (cc_limits demo_client_config) \<le> sb_bytes sshbuffer_new \<or>
      rekey_time_limit (cc_limits demo_client_config) \<le> w_now (demo_world 1) - last_rekey demo_zip_waiting)"
    by (simp add: e demo_client_config_def client_config_default_def limits_default_def sshbuffer_new_def demo_world_def)
  have "MSG_IGNORE \<noteq> MSG_KEXINIT" "sound_string [97]" "sound_string [7]" by simp_all
  from compression_starts_in_step [where W = "demo_world 2" and W' = "demo_world 2" and Wc = "demo_world 1" and
      CH = demo_ch and hc = "()" and sync = "\<lambda>c d. True" and rest = "[]",
      OF demo_deps_laws(1) demo_flate_laws(1) this(2,3) s e(1) _ a c e(1) _ e(2) l refl refl _ _ this(1)]
  show ?thesis unfolding e(3,4,6) demo_waiting_state(1) d_codec_demo by simp blast
qed

section \<open>New keys for a connection that compresses\<close>


text \<open>A library that refuses what starts like a KEXINIT.\<close>

definition strict_deps :: deps where
  "strict_deps = demo_deps\<lparr> d_flate := (d_flate demo_deps)\<lparr> inflate := (\<lambda>s i n.
     if index i 0 = Ok MSG_KEXINIT
     then \<lparr> z_status = Err Other_Error, z_consumed = 0, z_written = [], z_state = s \<rparr>
     else inflate (d_flate demo_deps) s i n) \<rparr> \<rparr>"


end
