(* ===== verification/Client_Handle.thy ===== *)
theory Client_Handle
  imports Client Ssh_Read
begin

text \<open>
  The application's ends of a client session: \<^verbatim>\<open>Handle\<close> and \<^verbatim>\<open>Channel\<close> of
  \<^verbatim>\<open>src/src/client/mod.rs\<close>. They exchange messages with the session over queues. \<open>alive\<close> says
  whether the session still exists: sending to it fails otherwise. What is received is the list
  of the messages to come, until the other side is gone.
\<close>

text \<open>\<^verbatim>\<open>sender.send(msg).await.map_err(|_| Error::SendError)?\<close>\<close>

definition send_msg :: "bool \<Rightarrow> client_msg \<Rightarrow> client_msg res" where
  "send_msg alive m = (if alive then Ok m else Err (Thrussh E_SendError))"

section \<open>Authentication\<close>

text \<open>The waiting loop: whether the session reports success, and the replies that are left.\<close>

fun await_auth :: "client_reply list \<Rightarrow> bool \<times> client_reply list" where
  "await_auth [] = (False, [])"
| "await_auth (r # rs) =
     (case r of
        Reply_AuthSuccess \<Rightarrow> (True, rs)
      | Reply_AuthFailure \<Rightarrow> (False, rs)
      | _ \<Rightarrow> await_auth rs)"

definition authenticate_password ::
  "bool \<Rightarrow> bytes \<Rightarrow> bytes \<Rightarrow> client_reply list \<Rightarrow> (client_msg list \<times> bool \<times> client_reply list) res" where
  "authenticate_password alive user password replies =
     rmap (\<lambda>m. ([m], await_auth replies))
       (send_msg alive (Msg_Authenticate user (Method_Password password)))"

definition authenticate_publickey ::
  "bool \<Rightarrow> bytes \<Rightarrow> key_pair \<Rightarrow> client_reply list \<Rightarrow> (client_msg list \<times> bool \<times> client_reply list) res" where
  "authenticate_publickey alive user key replies =
     rmap (\<lambda>m. ([m], await_auth replies))
       (send_msg alive (Msg_Authenticate user (Method_PublicKey key)))"

text \<open>
  \<^verbatim>\<open>authenticate_future\<close>: \<open>sign\<close> is \<^verbatim>\<open>Signer::auth_publickey_sign\<close> of the application, with its
  state. The result is the state, whether the client was accepted, what was sent, and the
  replies that are left.
\<close>

fun await_future ::
  "('s \<Rightarrow> public_key \<Rightarrow> bytes \<Rightarrow> 's \<times> bytes res) \<Rightarrow> bool \<Rightarrow> 's \<Rightarrow> client_msg list \<Rightarrow>
   client_reply list \<Rightarrow> ('s \<times> bool \<times> client_msg list \<times> client_reply list) res" where
  "await_future sign alive st sent [] = Ok (st, False, sent, [])"
| "await_future sign alive st sent (r # rs) =
     (case r of
        Reply_AuthSuccess \<Rightarrow> Ok (st, True, sent, rs)
      | Reply_AuthFailure \<Rightarrow> Ok (st, False, sent, rs)
      | Reply_SignRequest key data \<Rightarrow>
          (case sign st key data of
             (st', answer) \<Rightarrow>
               rbind answer (\<lambda>data'.
               rbind (send_msg alive (Msg_Signed data')) (\<lambda>m.
               await_future sign alive st' (sent @ [m]) rs)))
      | Reply_ChannelOpenFailure \<Rightarrow> await_future sign alive st sent rs)"

definition authenticate_future ::
  "('s \<Rightarrow> public_key \<Rightarrow> bytes \<Rightarrow> 's \<times> bytes res) \<Rightarrow> bool \<Rightarrow> bytes \<Rightarrow> public_key \<Rightarrow> 's \<Rightarrow>
   client_reply list \<Rightarrow> ('s \<times> bool \<times> client_msg list \<times> client_reply list) res" where
  "authenticate_future sign alive user key st replies =
     rbind (send_msg alive (Msg_Authenticate user (Method_FuturePublicKey key))) (\<lambda>m.
     await_future sign alive st [m] replies)"

section \<open>Opening channels\<close>

text \<open>\<open>q\<close> is the queue made for the channel, \<open>msgs\<close> what is going to arrive in it.\<close>

fun wait_channel_confirmation ::
  "queue \<Rightarrow> open_channel_msg list \<Rightarrow> (client_channel \<times> open_channel_msg list) res" where
  "wait_channel_confirmation q [] = Err (Thrussh E_Disconnect)"
| "wait_channel_confirmation q (m # msgs) =
     (case m of
        OCM_Open ch max_packet_size window_size \<Rightarrow>
          Ok (\<lparr> chan_id = ch, chan_queue = q, chan_max_packet_size = max_packet_size,
                chan_window_size = window_size \<rparr>, msgs)
      | OCM_Msg _ \<Rightarrow> wait_channel_confirmation q msgs)"

definition handle_open ::
  "bool \<Rightarrow> client_msg \<Rightarrow> queue \<Rightarrow> open_channel_msg list \<Rightarrow>
   (client_msg \<times> client_channel \<times> open_channel_msg list) res" where
  "handle_open alive m q msgs =
     rbind (send_msg alive m) (\<lambda>m.
     rmap (\<lambda>r. (m, r)) (wait_channel_confirmation q msgs))"

definition handle_channel_open_session ::
  "bool \<Rightarrow> queue \<Rightarrow> open_channel_msg list \<Rightarrow>
   (client_msg \<times> client_channel \<times> open_channel_msg list) res" where
  "handle_channel_open_session alive q msgs = handle_open alive (Msg_ChannelOpenSession q) q msgs"

definition handle_channel_open_x11 ::
  "bool \<Rightarrow> bytes \<Rightarrow> u32 \<Rightarrow> queue \<Rightarrow> open_channel_msg list \<Rightarrow>
   (client_msg \<times> client_channel \<times> open_channel_msg list) res" where
  "handle_channel_open_x11 alive originator_address originator_port q msgs =
     handle_open alive (Msg_ChannelOpenX11 originator_address originator_port q) q msgs"

definition handle_channel_open_direct_tcpip ::
  "bool \<Rightarrow> bytes \<Rightarrow> u32 \<Rightarrow> bytes \<Rightarrow> u32 \<Rightarrow> queue \<Rightarrow> open_channel_msg list \<Rightarrow>
   (client_msg \<times> client_channel \<times> open_channel_msg list) res" where
  "handle_channel_open_direct_tcpip alive host_to_connect port_to_connect originator_address
      originator_port q msgs =
     handle_open alive (Msg_ChannelOpenDirectTcpIp host_to_connect port_to_connect
       originator_address originator_port q) q msgs"

definition handle_disconnect ::
  "bool \<Rightarrow> disconnect_reason \<Rightarrow> bytes \<Rightarrow> bytes \<Rightarrow> client_msg res" where
  "handle_disconnect alive reason description language_tag =
     send_msg alive (Msg_Disconnect reason description language_tag)"

section \<open>Requests on a channel\<close>

definition writable_packet_size :: "client_channel \<Rightarrow> nat" where
  "writable_packet_size c = as_usize (min (chan_max_packet_size c) (chan_window_size c))"

definition chan_request_pty ::
  "bool \<Rightarrow> client_channel \<Rightarrow> bool \<Rightarrow> bytes \<Rightarrow> u32 \<Rightarrow> u32 \<Rightarrow> u32 \<Rightarrow> u32 \<Rightarrow> (pty \<times> u32) list \<Rightarrow>
   client_msg res" where
  "chan_request_pty alive c want_reply term_name col_width row_height pix_width pix_height modes =
     send_msg alive (Msg_RequestPty (chan_id c) want_reply term_name col_width row_height
       pix_width pix_height modes)"

definition chan_request_shell :: "bool \<Rightarrow> client_channel \<Rightarrow> bool \<Rightarrow> client_msg res" where
  "chan_request_shell alive c want_reply = send_msg alive (Msg_RequestShell (chan_id c) want_reply)"

definition chan_exec :: "bool \<Rightarrow> client_channel \<Rightarrow> bool \<Rightarrow> bytes \<Rightarrow> client_msg res" where
  "chan_exec alive c want_reply command = send_msg alive (Msg_Exec (chan_id c) want_reply command)"

definition chan_signal :: "bool \<Rightarrow> client_channel \<Rightarrow> sig \<Rightarrow> client_msg res" where
  "chan_signal alive c sg = send_msg alive (Msg_Signal (chan_id c) sg)"

definition chan_request_subsystem :: "bool \<Rightarrow> client_channel \<Rightarrow> bool \<Rightarrow> bytes \<Rightarrow> client_msg res" where
  "chan_request_subsystem alive c want_reply name =
     send_msg alive (Msg_RequestSubsystem (chan_id c) want_reply name)"

definition chan_tcpip_forward :: "bool \<Rightarrow> bool \<Rightarrow> bytes \<Rightarrow> u32 \<Rightarrow> client_msg res" where
  "chan_tcpip_forward alive want_reply address port =
     send_msg alive (Msg_TcpIpForward want_reply address port)"

definition chan_cancel_tcpip_forward :: "bool \<Rightarrow> bool \<Rightarrow> bytes \<Rightarrow> u32 \<Rightarrow> client_msg res" where
  "chan_cancel_tcpip_forward alive want_reply address port =
     send_msg alive (Msg_CancelTcpIpForward want_reply address port)"

definition chan_request_x11 ::
  "bool \<Rightarrow> client_channel \<Rightarrow> bool \<Rightarrow> bool \<Rightarrow> bytes \<Rightarrow> bytes \<Rightarrow> u32 \<Rightarrow> client_msg res" where
  "chan_request_x11 alive c want_reply single_connection protocol cookie screen =
     send_msg alive (Msg_RequestX11 (chan_id c) want_reply single_connection protocol cookie screen)"

definition chan_set_env :: "bool \<Rightarrow> client_channel \<Rightarrow> bool \<Rightarrow> bytes \<Rightarrow> bytes \<Rightarrow> client_msg res" where
  "chan_set_env alive c want_reply name val =
     send_msg alive (Msg_SetEnv (chan_id c) want_reply name val)"

definition chan_window_change ::
  "bool \<Rightarrow> client_channel \<Rightarrow> u32 \<Rightarrow> u32 \<Rightarrow> u32 \<Rightarrow> u32 \<Rightarrow> client_msg res" where
  "chan_window_change alive c col_width row_height pix_width pix_height =
     send_msg alive (Msg_WindowChange (chan_id c) col_width row_height pix_width pix_height)"

definition chan_eof :: "bool \<Rightarrow> client_channel \<Rightarrow> client_msg res" where
  "chan_eof alive c = send_msg alive (Msg_Eof (chan_id c))"

section \<open>Sending data\<close>

definition data_msg :: "channel_id \<Rightarrow> u32 option \<Rightarrow> bytes \<Rightarrow> client_msg" where
  "data_msg ch ext data =
     (case ext of Some e \<Rightarrow> Msg_ExtendedData ch data e | None \<Rightarrow> Msg_Data ch data)"

text \<open>Waiting for the window: the new size, or nothing when the session has dropped the channel.\<close>

fun await_window :: "open_channel_msg list \<Rightarrow> u32 option \<times> open_channel_msg list" where
  "await_window [] = (None, [])"
| "await_window (m # msgs) =
     (case m of
        OCM_Msg (CM_WindowAdjusted new_size) \<Rightarrow> (Some new_size, msgs)
      | _ \<Rightarrow> await_window msgs)"

text \<open>
  \<^verbatim>\<open>send_data\<close>: \<open>data\<close> is the reader as chunks, \<open>msgs\<close> what arrives in the channel's queue. The
  window is decreased by what was read, which is never more. The loop need not end, so not
  returning is \<open>None\<close>; otherwise the result is what was sent, the channel and the messages left.
\<close>

partial_function (option) send_data ::
  "bool \<Rightarrow> u32 option \<Rightarrow> client_channel \<Rightarrow> bytes list \<Rightarrow> open_channel_msg list \<Rightarrow> client_msg list \<Rightarrow>
   (client_msg list \<times> client_channel \<times> open_channel_msg list) res option" where
  "send_data alive ext c data msgs sent =
     (let sendable = writable_packet_size c in
      case async_read data sendable of
        (d, data') \<Rightarrow>
          let c1 = c\<lparr> chan_window_size := chan_window_size c - as_u32 (length d) \<rparr>;
              sent1 = sent @ [data_msg (chan_id c) ext d]
          in if \<not> alive then Some (Err (Thrussh E_SendError))
             else if 0 < sendable \<and> d = [] then Some (Ok (sent1, c1, msgs))
             else if 0 < chan_window_size c1 then send_data alive ext c1 data' msgs sent1
             else case await_window msgs of
                    (Some new_size, msgs') \<Rightarrow>
                      send_data alive ext (c1\<lparr> chan_window_size := new_size \<rparr>) data' msgs' sent1
                  | (None, msgs') \<Rightarrow> send_data alive ext c1 data' msgs' sent1)"

declare send_data.simps [code]

section \<open>Waiting for messages\<close>

text \<open>\<^verbatim>\<open>wait\<close>: the next message of the channel; a new window is added with an overflow check.\<close>

fun chan_wait ::
  "client_channel \<Rightarrow> open_channel_msg list \<Rightarrow>
   (channel_msg option \<times> client_channel \<times> open_channel_msg list) res" where
  "chan_wait c [] = Ok (None, c, [])"
| "chan_wait c (m # msgs) =
     (case m of
        OCM_Msg (CM_WindowAdjusted new_size) \<Rightarrow>
          if 2 ^ 32 \<le> as_usize (chan_window_size c) + as_usize new_size then Panic
          else Ok (Some (CM_WindowAdjusted new_size),
                   c\<lparr> chan_window_size := chan_window_size c + new_size \<rparr>, msgs)
      | OCM_Msg cm \<Rightarrow> Ok (Some cm, c, msgs)
      | OCM_Open _ _ _ \<Rightarrow> chan_wait c msgs)"

end
