(* ===== verification/Tunnel.thy ===== *)
theory Tunnel
  imports Client_Handle
begin

text \<open>
  The remote tunnel of \<^verbatim>\<open>src/src/client/tunnel.rs\<close>: three tasks between a channel and a TCP
  connection. Each is a function of the messages that are going to arrive; a task whose receiver
  is gone is a flag. The TCP connection is a list of chunks to read and the bytes written.
\<close>

record remote_tunnel =
  rt_channel :: client_channel
  rt_window_size :: u32
  rt_max_packet_size :: u32

definition remote_tunnel_new :: "client_channel \<Rightarrow> remote_tunnel" where
  "remote_tunnel_new c =
     \<lparr> rt_channel = c, rt_window_size = chan_window_size c,
       rt_max_packet_size = chan_max_packet_size c \<rparr>"

section \<open>Distributing the messages of the channel\<close>

text \<open>
  \<^verbatim>\<open>receive_msg_loop\<close>: the messages passed to the task that writes to the TCP connection and to
  the task that sends to the channel. Any other message is a panic.
\<close>

fun receive_msg_loop ::
  "bool \<Rightarrow> bool \<Rightarrow> open_channel_msg list \<Rightarrow> open_channel_msg list \<Rightarrow> open_channel_msg list \<Rightarrow>
   (open_channel_msg list \<times> open_channel_msg list) res" where
  "receive_msg_loop tcp_alive ssh_alive [] tcp ssh = Ok (tcp, ssh)"
| "receive_msg_loop tcp_alive ssh_alive (m # msgs) tcp ssh =
     (case m of
        OCM_Msg (CM_Data data) \<Rightarrow>
          if tcp_alive then receive_msg_loop tcp_alive ssh_alive msgs (tcp @ [m]) ssh
          else Err (Thrussh E_SendError)
      | OCM_Msg CM_Eof \<Rightarrow>
          if tcp_alive \<and> ssh_alive
          then receive_msg_loop tcp_alive ssh_alive msgs (tcp @ [m]) (ssh @ [m])
          else Err (Thrussh E_SendError)
      | OCM_Msg (CM_WindowAdjusted new_size) \<Rightarrow>
          if ssh_alive then receive_msg_loop tcp_alive ssh_alive msgs tcp (ssh @ [m])
          else Err (Thrussh E_SendError)
      | _ \<Rightarrow> Panic)"

section \<open>From the channel to the TCP connection\<close>

text \<open>\<^verbatim>\<open>send_to_tcp_loop\<close>: everything that is written to the connection.\<close>

fun send_to_tcp_loop :: "open_channel_msg list \<Rightarrow> bytes \<Rightarrow> bytes res" where
  "send_to_tcp_loop [] written = Ok written"
| "send_to_tcp_loop (m # msgs) written =
     (case m of
        OCM_Msg (CM_Data data) \<Rightarrow> send_to_tcp_loop msgs (written @ data)
      | OCM_Msg CM_Eof \<Rightarrow> Ok written
      | _ \<Rightarrow> Panic)"

section \<open>From the TCP connection to the channel\<close>

text \<open>The inner wait: a new window, nothing when the sender is gone, and a panic on anything else.\<close>

fun tunnel_window :: "open_channel_msg list \<Rightarrow> (u32 option \<times> open_channel_msg list) res" where
  "tunnel_window [] = Ok (None, [])"
| "tunnel_window (m # msgs) =
     (case m of
        OCM_Msg (CM_WindowAdjusted new_size) \<Rightarrow> Ok (Some new_size, msgs)
      | _ \<Rightarrow> Panic)"

text \<open>
  \<^verbatim>\<open>send_to_ssh_loop\<close>: the messages sent to the session. \<open>max_packet_size - 64\<close> is subtracted
  with an overflow check. A read of nothing is taken for the end of the connection. Every round
  but the last reads at least one byte, so \<open>chunk_size\<close> bounds the rounds.
\<close>

function send_to_ssh_loop ::
  "bool \<Rightarrow> channel_id \<Rightarrow> bytes list \<Rightarrow> open_channel_msg list \<Rightarrow> u32 \<Rightarrow> u32 \<Rightarrow> client_msg list \<Rightarrow>
   client_msg list res" where
  "send_to_ssh_loop alive ch data msgs window_size max_packet_size sent =
     (if max_packet_size < 64 then Panic
      else
        let sendable = as_usize (min window_size (max_packet_size - 64)) in
        case async_read data sendable of
          (d, data') \<Rightarrow>
            let window1 = window_size - as_u32 (length d) in
            if \<not> alive then Err (Thrussh E_SendError)
            else if d = [] then Ok (sent @ [Msg_Eof ch])
            else
              let sent1 = sent @ [Msg_Data ch d] in
              if 0 < window1 then
                send_to_ssh_loop alive ch data' msgs window1 max_packet_size sent1
              else case tunnel_window msgs of
                     Ok (w, msgs') \<Rightarrow>
                       send_to_ssh_loop alive ch data' msgs' (case w of Some n \<Rightarrow> n | None \<Rightarrow> window1)
                         max_packet_size sent1
                   | Err e \<Rightarrow> Err e
                   | Panic \<Rightarrow> Panic
                   | Diverge \<Rightarrow> Diverge)"
  by pat_completeness auto
termination
  by (relation "measure (\<lambda>(alive, ch, data, msgs, w, m, sent). chunk_size data)")
    (auto dest!: async_read_size [OF sym])

declare send_to_ssh_loop.simps [simp del]

text \<open>
  \<^verbatim>\<open>run\<close>: the tasks on what arrives over the channel and over the connection, while none of them
  loses its partner: the bytes written to the connection, and the messages to the session.
\<close>

definition remote_tunnel_run ::
  "remote_tunnel \<Rightarrow> open_channel_msg list \<Rightarrow> bytes list \<Rightarrow> (bytes \<times> client_msg list) res" where
  "remote_tunnel_run t msgs data =
     rbind (receive_msg_loop True True msgs [] []) (\<lambda>(tcp, ssh).
     rbind (send_to_tcp_loop tcp []) (\<lambda>written.
     rmap (\<lambda>sent. (written, sent))
       (send_to_ssh_loop True (chan_id (rt_channel t)) data ssh (rt_window_size t)
          (rt_max_packet_size t) [])))"

section \<open>The handler of the tunnel\<close>

text \<open>
  \<^verbatim>\<open>TunnelClient\<close>: it accepts every server, remembers that it is connected, and opens a tunnel
  for every forwarded channel. The handler's state: whether it has a sender, the tunnels started,
  and the number of the next queue.
\<close>

record tunnel_client =
  tc_sender :: bool
  tc_tunnels :: "remote_tunnel list"
  tc_next_queue :: queue

definition tunnel_client_new :: tunnel_client where
  "tunnel_client_new = \<lparr> tc_sender = False, tc_tunnels = [], tc_next_queue = 0 \<rparr>"

fun tunnel_event ::
  "codec \<Rightarrow> tunnel_client \<Rightarrow> client_event \<Rightarrow> client_session \<Rightarrow> (tunnel_client \<times> client_session) res" where
  "tunnel_event C h CE_session_connected s = Ok (h\<lparr> tc_sender := True \<rparr>, s)"
| "tunnel_event C h (CE_channel_open_forwarded_tcpip_client ch a b c d window_size max_packet_size) s =
     (if tc_sender h then
        (case create_forwarded_tcpip_channel C ch (tc_next_queue h) window_size max_packet_size s of
           Ok (c', s') \<Rightarrow> Ok (h\<lparr> tc_tunnels := tc_tunnels h @ [remote_tunnel_new c'],
                                 tc_next_queue := tc_next_queue h + 1 \<rparr>, s')
         | Err e \<Rightarrow> Panic
         | Panic \<Rightarrow> Panic
         | Diverge \<Rightarrow> Diverge)
      else Panic)"
| "tunnel_event C h e s = client_default_event C h e s"

definition tunnel_handler :: "codec \<Rightarrow> tunnel_client client_handler" where
  "tunnel_handler C = \<lparr>
     ch_check_server_key = (\<lambda>h key. Ok (h, True)),
     ch_adjust_window = (\<lambda>h ch window. (h, window)),
     ch_event = tunnel_event C \<rparr>"

end
