(* ===== verification/Transfers.thy ===== *)
theory Transfers
  imports Client_Handle Tunnel
begin

text \<open>
  How an application's data get from a reader into the messages to the session: \<^verbatim>\<open>send_data\<close> of
  a channel, and the tasks of a tunnel. When they deliver everything, and when they do not.
\<close>

section \<open>The window a channel is granted\<close>

fun grant :: "open_channel_msg \<Rightarrow> nat" where
  "grant (OCM_Msg (CM_WindowAdjusted n)) = as_usize n"
| "grant m = 0"

abbreviation granted :: "open_channel_msg list \<Rightarrow> nat" where
  "granted msgs \<equiv> sum_list (map grant msgs)"

lemma await_window_granted:
  "await_window msgs = (Some n, msgs') \<Longrightarrow> granted msgs = as_usize n + granted msgs' \<and> length msgs' < length msgs"
  "await_window msgs = (None, msgs') \<Longrightarrow> granted msgs = 0 \<and> msgs' = []"
  by (induction msgs) (auto split: open_channel_msg.splits channel_msg.splits)

text \<open>The window that is left after a read is not larger than what was read allows.\<close>

lemma window_left:
  assumes "length d \<le> as_usize (w :: u32)"
  shows "as_usize (w - as_u32 (length d)) = as_usize w - length d"
proof -
  have "length d < 2 ^ 32" using assms unsigned_less [of w, where ?'a = nat] by simp
  then have "as_usize (as_u32 (length d)) = length d" by (rule as_usize_as_u32)
  with assms show ?thesis by (simp add: unat_sub word_le_nat_alt)
qed

lemma writable_le: "writable_packet_size c \<le> as_usize (chan_window_size c)"
  "writable_packet_size c \<le> as_usize (chan_max_packet_size c)"
  by (simp_all add: writable_packet_size_def min_def word_le_nat_alt)

lemma writable_pos:
  "chan_max_packet_size c \<noteq> 0 \<Longrightarrow> 0 < writable_packet_size c \<longleftrightarrow> 0 < chan_window_size c"
  by (auto simp: writable_packet_size_def min_def unat_gt_0 word_gt_0)

section \<open>Sending over a channel\<close>

text \<open>One round of the loop, as equations.\<close>

lemma send_data_round:
  assumes "async_read data (writable_packet_size c) = (d, data')"
  defines "c1 \<equiv> c\<lparr> chan_window_size := chan_window_size c - as_u32 (length d) \<rparr>"
  shows "0 < writable_packet_size c \<and> d = [] \<Longrightarrow> send_data True ext c data msgs sent =
      Some (Ok (sent @ [data_msg (chan_id c) ext d], c1, msgs))"
    and "\<not> (0 < writable_packet_size c \<and> d = []) \<Longrightarrow> 0 < chan_window_size c1 \<Longrightarrow>
      send_data True ext c data msgs sent =
      send_data True ext c1 data' msgs (sent @ [data_msg (chan_id c) ext d])"
    and "\<not> (0 < writable_packet_size c \<and> d = []) \<Longrightarrow> \<not> 0 < chan_window_size c1 \<Longrightarrow>
      await_window msgs = (Some n, msgs') \<Longrightarrow> send_data True ext c data msgs sent =
      send_data True ext (c1\<lparr> chan_window_size := n \<rparr>) data' msgs' (sent @ [data_msg (chan_id c) ext d])"
  unfolding c1_def by (subst send_data.simps, force simp: Let_def assms(1))+

definition all_sent ::
  "u32 option \<Rightarrow> client_channel \<Rightarrow> bytes list \<Rightarrow> client_msg list \<Rightarrow> client_msg list \<Rightarrow> bool" where
  "all_sent ext c data sent sent' \<longleftrightarrow> (\<exists>ps. sent' = sent @ map (data_msg (chan_id c) ext) ps \<and>
     concat ps = concat data \<and> (\<forall>p \<in> set ps. length p \<le> as_usize (chan_max_packet_size c)))"

lemma all_sent_step:
  assumes "async_read data (writable_packet_size c) = (d, data')"
    and "all_sent ext c' data' (sent @ [data_msg (chan_id c) ext d]) sent'"
    and "chan_id c' = chan_id c" and "chan_max_packet_size c' = chan_max_packet_size c"
  shows "all_sent ext c data sent sent'"
proof -
  from assms(2-4) obtain ps where "sent' = sent @ map (data_msg (chan_id c) ext) (d # ps)"
    "concat ps = concat data'" "\<forall>p \<in> set ps. length p \<le> as_usize (chan_max_packet_size c)"
    by (auto simp: all_sent_def)
  moreover have "length d \<le> as_usize (chan_max_packet_size c)"
    using async_read_length [OF assms(1)] writable_le(2) le_trans by blast
  ultimately show ?thesis
    unfolding all_sent_def using async_read_concat [OF assms(1)] by (intro exI [of _ "d # ps"]) auto
qed

lemma all_sent_end:
  assumes "async_read data (writable_packet_size c) = ([], data')" and "concat data = []"
  shows "all_sent ext c data sent (sent @ [data_msg (chan_id c) ext []])"
  unfolding all_sent_def using assms by (intro exI [of _ "[[]]"]) auto

text \<open>With enough window the loop ends, and everything was sent.\<close>

lemma send_data_ends:
  assumes "\<forall>x \<in> set data. x \<noteq> []" and "chan_max_packet_size c \<noteq> 0"
    and "length (concat data) < as_usize (chan_window_size c) + granted msgs"
  shows "\<exists>sent' c' msgs'. send_data True ext c data msgs sent = Some (Ok (sent', c', msgs')) \<and>
    all_sent ext c data sent sent'"
  using assms
proof (induction "chunk_size data + length msgs" arbitrary: data c msgs sent rule: less_induct)
  case less
  obtain d data' where r: "async_read data (writable_packet_size c) = (d, data')" by fastforce
  let ?w = "chan_window_size c - as_u32 (length d)"
  let ?c1 = "c\<lparr> chan_window_size := ?w \<rparr>"
  have ld: "length d \<le> as_usize (chan_window_size c)"
    using async_read_length [OF r] writable_le(1) le_trans by blast
  have w: "as_usize ?w = as_usize (chan_window_size c) - length d" by (rule window_left [OF ld])
  have ne: "\<forall>x \<in> set data'. x \<noteq> []"
    using r less.prems(1) by (cases data) (auto split: if_splits)
  have len: "length (concat data) = length d + length (concat data')"
    using async_read_concat [OF r] by (metis length_append)
  note size = async_read_size [OF r]
  show ?case
  proof (cases "0 < writable_packet_size c \<and> d = []")
    case True
    then have "data = []" using async_read_nonempty(2) [OF r less.prems(1)] by blast
    moreover have "send_data True ext c data msgs sent =
        Some (Ok (sent @ [data_msg (chan_id c) ext []], c, msgs))"
      using send_data_round(1) [OF r] True by simp
    ultimately show ?thesis using True r all_sent_end [of data c data' ext sent] by auto
  next
    case False
    show ?thesis
    proof (cases "0 < ?w")
      case True
      then have "0 < chan_window_size c" using w by (auto simp: word_gt_0 unat_eq_0)
      with False writable_pos [OF less.prems(2)] have "d \<noteq> []" by blast
      then have "\<exists>sent' c' msgs'. send_data True ext ?c1 data' msgs (sent @ [data_msg (chan_id c) ext d]) =
          Some (Ok (sent', c', msgs')) \<and> all_sent ext ?c1 data' (sent @ [data_msg (chan_id c) ext d]) sent'"
        using less.prems len w size ne by (intro less.hyps) auto
      then obtain sent' c' msgs' where "send_data True ext ?c1 data' msgs (sent @ [data_msg (chan_id c) ext d]) =
          Some (Ok (sent', c', msgs'))" "all_sent ext c data sent sent'"
        using all_sent_step [OF r, of ext ?c1 sent] by auto
      then show ?thesis using send_data_round(2) [OF r False, of ext msgs sent] True by auto
    next
      case w0: False
      then have "as_usize (chan_window_size c) = length d" using w ld by (simp add: word_gt_0)
      then have g: "0 < granted msgs" using less.prems(3) len by simp
      obtain x msgs' where a: "await_window msgs = (x, msgs')" by fastforce
      have "x \<noteq> None" using await_window_granted(2) [of msgs msgs'] a g by (metis less_irrefl)
      then obtain n where x: "x = Some n" by blast
      note gr = await_window_granted(1) [OF a [unfolded x]]
      let ?c2 = "?c1\<lparr> chan_window_size := n \<rparr>"
      have "\<exists>sent' c' msgs''. send_data True ext ?c2 data' msgs' (sent @ [data_msg (chan_id c) ext d]) =
          Some (Ok (sent', c', msgs'')) \<and> all_sent ext ?c2 data' (sent @ [data_msg (chan_id c) ext d]) sent'"
        using less.prems len size ne gr \<open>as_usize (chan_window_size c) = length d\<close> by (intro less.hyps) auto
      then obtain sent' c' msgs'' where "send_data True ext ?c2 data' msgs' (sent @ [data_msg (chan_id c) ext d]) =
          Some (Ok (sent', c', msgs''))" "all_sent ext c data sent sent'"
        using all_sent_step [OF r, of ext ?c2 sent] by auto
      then show ?thesis using send_data_round(3) [OF r False _ a [unfolded x], of ext sent] w0 by auto
    qed
  qed
qed

text \<open>With less it never does.\<close>

lemma send_data_enough:
  assumes "send_data alive ext c data msgs sent = Some r"
  shows "alive \<longrightarrow> (\<forall>x \<in> set data. x \<noteq> []) \<longrightarrow>
    length (concat data) < as_usize (chan_window_size c) + granted msgs"
  using assms
proof (rule send_data.raw_induct [rotated])
  fix f :: "bool \<Rightarrow> u32 option \<Rightarrow> client_channel \<Rightarrow> bytes list \<Rightarrow> open_channel_msg list \<Rightarrow> client_msg list \<Rightarrow>
      (client_msg list \<times> client_channel \<times> open_channel_msg list) res option"
    and alive ext c data msgs sent r
  assume IH: "\<And>alive ext c data msgs sent r. f alive ext c data msgs sent = Some r \<Longrightarrow>
      alive \<longrightarrow> (\<forall>x \<in> set data. x \<noteq> []) \<longrightarrow>
      length (concat data) < as_usize (chan_window_size c) + granted msgs"
  obtain d data' where r: "async_read data (writable_packet_size c) = (d, data')" by fastforce
  obtain x msgs' where a: "await_window msgs = (x, msgs')" by fastforce
  let ?w = "chan_window_size c - as_u32 (length d)"
  let ?c1 = "c\<lparr> chan_window_size := ?w \<rparr>" and ?sent1 = "sent @ [data_msg (chan_id c) ext d]"
  have ld: "length d \<le> as_usize (chan_window_size c)"
    using async_read_length [OF r] writable_le(1) le_trans by blast
  note w = window_left [OF ld]
  assume run: "(let sendable = writable_packet_size c
      in case async_read data sendable of (d, data') \<Rightarrow>
        let c1 = c\<lparr> chan_window_size := chan_window_size c - as_u32 (length d) \<rparr>;
            sent1 = sent @ [data_msg (chan_id c) ext d]
        in if \<not> alive then Some (Err (Thrussh E_SendError))
           else if 0 < sendable \<and> d = [] then Some (Ok (sent1, c1, msgs))
           else if 0 < chan_window_size c1 then f alive ext c1 data' msgs sent1
           else (case await_window msgs of
                  (None, msgs') \<Rightarrow> f alive ext c1 data' msgs' sent1
                | (Some new_size, msgs') \<Rightarrow> f alive ext (c1\<lparr> chan_window_size := new_size \<rparr>) data' msgs' sent1)) = Some r"
  show "alive \<longrightarrow> (\<forall>x \<in> set data. x \<noteq> []) \<longrightarrow>
      length (concat data) < as_usize (chan_window_size c) + granted msgs"
  proof (intro impI)
    assume alive: alive and ne: "\<forall>x \<in> set data. x \<noteq> []"
    have ne': "\<forall>x \<in> set data'. x \<noteq> []" using r ne by (cases data) (auto split: if_splits)
    have len: "length (concat data) = length d + length (concat data')"
      using async_read_concat [OF r] by (metis length_append)
    show "length (concat data) < as_usize (chan_window_size c) + granted msgs"
    proof (cases "0 < writable_packet_size c \<and> d = []")
      case True
      then have "data = []" using async_read_nonempty(2) [OF r ne] by blast
      with True writable_le(1) [of c] show ?thesis by simp
    next
      case False
      note run = run [unfolded r prod.case Let_def a]
      show ?thesis
      proof (cases "0 < ?w")
        case True
        with run alive False have "f True ext ?c1 data' msgs ?sent1 = Some r" by auto
        from IH [OF this] show ?thesis using w ld ne' len by simp
      next
        case w0: False
        then have wd: "as_usize (chan_window_size c) = length d" using w ld by (simp add: word_gt_0)
        show ?thesis
        proof (cases x)
          case None
          with run alive False w0 have "f True ext ?c1 data' msgs' ?sent1 = Some r" by auto
          from IH [OF this] await_window_granted(2) [OF a [unfolded None]] w ne' len show ?thesis by simp
        next
          case (Some n)
          with run alive False w0
          have "f True ext (?c1\<lparr> chan_window_size := n \<rparr>) data' msgs' ?sent1 = Some r" by auto
          from IH [OF this] await_window_granted(1) [OF a [unfolded Some]] wd ne' len show ?thesis by simp
        qed
      qed
    qed
  qed
qed

text \<open>
  C22. When \<^verbatim>\<open>send_data\<close> returns: the reader gives nonempty chunks, and the channel's packets may
  hold something. Then \<^verbatim>\<open>send_data\<close> of a live session ends exactly if the data are shorter than the
  window together with all that the peer grants while it runs. If it ends, it has sent all of the
  data, in order, in packets of at most the maximum size. Otherwise - also if the data fill the
  window exactly and the channel is closed - it loops for ever.
\<close>

theorem send_data_returns:
  assumes "\<forall>x \<in> set data. x \<noteq> []" and "chan_max_packet_size c \<noteq> 0"
  shows "case send_data True ext c data msgs [] of
      None \<Rightarrow> as_usize (chan_window_size c) + granted msgs \<le> length (concat data)
    | Some r \<Rightarrow> length (concat data) < as_usize (chan_window_size c) + granted msgs \<and>
        (\<exists>ps c' msgs'. r = Ok (map (data_msg (chan_id c) ext) ps, c', msgs') \<and> concat ps = concat data \<and>
          (\<forall>p \<in> set ps. length p \<le> as_usize (chan_max_packet_size c)))"
proof (cases "send_data True ext c data msgs []")
  case None
  then show ?thesis using send_data_ends [OF assms, of msgs ext "[]"] by fastforce
next
  case (Some r)
  have "length (concat data) < as_usize (chan_window_size c) + granted msgs"
    using send_data_enough [OF Some] assms(1) by blast
  then show ?thesis using Some send_data_ends [OF assms, of msgs ext "[]"] by (force simp: all_sent_def)
qed

definition demo_sender :: client_channel where
  "demo_sender = \<lparr> chan_id = 2, chan_queue = 0, chan_max_packet_size = 4, chan_window_size = 3 \<rparr>"

lemma send_data_returns_witness:
  "(\<exists>r. send_data True None demo_sender [[1, 2], [3, 4, 5]]
      [OCM_Msg CM_Eof, OCM_Msg (CM_WindowAdjusted 3)] [] = Some r) \<and>
   send_data True None demo_sender [[1, 2, 3]] [OCM_Msg CM_Eof] [] = None"
proof
  show "\<exists>r. send_data True None demo_sender [[1, 2], [3, 4, 5]]
      [OCM_Msg CM_Eof, OCM_Msg (CM_WindowAdjusted 3)] [] = Some r"
    using send_data_returns [where data = "[[1, 2], [3, 4, 5]]" and c = demo_sender and ext = None
      and msgs = "[OCM_Msg CM_Eof, OCM_Msg (CM_WindowAdjusted 3)]"]
    by (simp add: demo_sender_def split: option.splits)
  show "send_data True None demo_sender [[1, 2, 3]] [OCM_Msg CM_Eof] [] = None"
    using send_data_returns [where data = "[[1, 2, 3]]" and c = demo_sender and ext = None
      and msgs = "[OCM_Msg CM_Eof]"]
    by (simp add: demo_sender_def split: option.splits)
qed

section \<open>The tasks of a tunnel\<close>

text \<open>The messages a tunnel expects, and what it makes of them.\<close>

fun tunnel_msg :: "open_channel_msg \<Rightarrow> bool" where
  "tunnel_msg (OCM_Msg (CM_Data d)) = True"
| "tunnel_msg (OCM_Msg CM_Eof) = True"
| "tunnel_msg (OCM_Msg (CM_WindowAdjusted n)) = (n \<noteq> 0)"
| "tunnel_msg m = False"

fun for_tcp :: "open_channel_msg \<Rightarrow> bool" where
  "for_tcp (OCM_Msg (CM_WindowAdjusted n)) = False"
| "for_tcp m = True"

fun for_ssh :: "open_channel_msg \<Rightarrow> bool" where
  "for_ssh (OCM_Msg (CM_Data d)) = False"
| "for_ssh m = True"

fun msg_data :: "open_channel_msg \<Rightarrow> bytes" where
  "msg_data (OCM_Msg (CM_Data d)) = d"
| "msg_data m = []"

abbreviation until_eof :: "open_channel_msg list \<Rightarrow> open_channel_msg list" where
  "until_eof msgs \<equiv> takeWhile (\<lambda>m. m \<noteq> OCM_Msg CM_Eof) msgs"

lemma receive_msg_loop_distributes:
  "\<forall>m \<in> set msgs. tunnel_msg m \<Longrightarrow>
   receive_msg_loop True True msgs tcp ssh = Ok (tcp @ filter for_tcp msgs, ssh @ filter for_ssh msgs)"
  by (induction msgs arbitrary: tcp ssh) (auto elim!: tunnel_msg.elims(2))

lemma send_to_tcp_loop_writes:
  "\<forall>m \<in> set msgs. tunnel_msg m \<Longrightarrow> send_to_tcp_loop (filter for_tcp msgs) written =
   Ok (written @ concat (map msg_data (until_eof msgs)))"
  by (induction msgs arbitrary: written) (auto elim!: tunnel_msg.elims(2))

lemma granted_for_ssh:
  "\<forall>m \<in> set msgs. tunnel_msg m \<Longrightarrow> granted (until_eof (filter for_ssh msgs)) = granted (until_eof msgs)"
  by (induction msgs) (auto elim!: tunnel_msg.elims(2))

text \<open>
  The task that sends to the channel, when the peer has ended its own direction at some point: it
  sends everything while the window lasts, and a wait for more window meets the peer's end.
\<close>

lemma send_to_ssh_loop_eof:
  assumes "\<forall>x \<in> set data. x \<noteq> []" and "64 < max_packet_size" and "0 < w"
    and "\<forall>m \<in> set msgs. tunnel_msg m \<and> for_ssh m" and "OCM_Msg CM_Eof \<in> set msgs"
  shows "\<exists>ps. concat ps = concat data \<and> send_to_ssh_loop True ch data msgs w max_packet_size sent =
    (if length (concat data) < as_usize w + granted (until_eof msgs)
     then Ok (sent @ map (Msg_Data ch) ps @ [Msg_Eof ch]) else Panic)"
  using assms
proof (induction "chunk_size data" arbitrary: data msgs w sent rule: less_induct)
  case less
  define cap where "cap = as_usize (min w (max_packet_size - 64))"
  obtain d data' where r: "async_read data cap = (d, data')" by fastforce
  have "max_packet_size - 64 \<noteq> 0" using less.prems(2) by auto
  then have cap: "0 < cap" "cap \<le> as_usize w"
    using less.prems(3) by (auto simp: cap_def min_def unat_gt_0 word_gt_0 word_le_nat_alt)
  note ne = async_read_nonempty [OF r less.prems(1) cap(1)]
  note round = send_to_ssh_loop.simps [of True ch data msgs w max_packet_size sent]
  have nlt: "\<not> max_packet_size < 64" using less.prems(2) by auto
  have ld: "length d \<le> as_usize w" using async_read_length [OF r] cap by simp
  note wl = window_left [OF ld]
  have len: "length (concat data) = length d + length (concat data')"
    using async_read_concat [OF r] by (metis length_append)
  show ?case
  proof (cases "d = []")
    case True
    with ne(2) have "data = []" by blast
    then show ?thesis using round nlt r True less.prems(3)
      by (intro exI [of _ "[]"]) (auto simp: cap_def [symmetric] word_gt_0 unat_gt_0)
  next
    case False
    then have size: "chunk_size data' < chunk_size data" using async_read_size [OF r] by auto
    show ?thesis
    proof (cases "0 < w - as_u32 (length d)")
      case True
      from less.hyps [OF size ne(1) less.prems(2) True less.prems(4,5), of "sent @ [Msg_Data ch d]"]
      obtain ps where "concat ps = concat data'"
        "send_to_ssh_loop True ch data' msgs (w - as_u32 (length d)) max_packet_size (sent @ [Msg_Data ch d]) =
          (if length (concat data') < as_usize (w - as_u32 (length d)) + granted (until_eof msgs)
           then Ok ((sent @ [Msg_Data ch d]) @ map (Msg_Data ch) ps @ [Msg_Eof ch]) else Panic)" by blast
      then show ?thesis using round nlt r False True wl len ld async_read_concat [OF r]
        by (intro exI [of _ "d # ps"]) (auto simp: cap_def [symmetric])
    next
      case w0: False
      then have wd: "as_usize w = length d" using wl ld by (simp add: word_gt_0)
      obtain m ms where m: "msgs = m # ms" using less.prems(5) by (cases msgs) auto
      show ?thesis
      proof (cases "m = OCM_Msg CM_Eof")
        case True
        then show ?thesis using round nlt r False w0 m wd len
          by (intro exI [of _ "[concat data]"]) (auto simp: cap_def [symmetric])
      next
        case nm: False
        with less.prems(4) m obtain n where n: "m = OCM_Msg (CM_WindowAdjusted n)" "n \<noteq> 0"
          by (cases m rule: tunnel_msg.cases) auto
        with less.hyps [OF size ne(1) less.prems(2), of n ms "sent @ [Msg_Data ch d]"] less.prems(4,5) m
        obtain ps where "concat ps = concat data'"
          "send_to_ssh_loop True ch data' ms n max_packet_size (sent @ [Msg_Data ch d]) =
            (if length (concat data') < as_usize n + granted (until_eof ms)
             then Ok ((sent @ [Msg_Data ch d]) @ map (Msg_Data ch) ps @ [Msg_Eof ch]) else Panic)"
          by (auto simp: word_gt_0)
        then show ?thesis using round nlt r False w0 m n wd len async_read_concat [OF r]
          by (intro exI [of _ "d # ps"]) (auto simp: cap_def [symmetric])
      qed
    qed
  qed
qed


definition demo_tunnel :: remote_tunnel where
  "demo_tunnel = remote_tunnel_new
     \<lparr> chan_id = 2, chan_queue = 0, chan_max_packet_size = 100, chan_window_size = 3 \<rparr>"


end
