(* ===== verification/Server_Handle.thy ===== *)
theory Server_Handle
  imports Server_Session
begin

text \<open>
  The \<^verbatim>\<open>Handle\<close> of a server session (\<^verbatim>\<open>src/src/server/session.rs\<close>), with which the tasks of the
  application post messages. \<open>alive\<close> says whether the session still exists: the message sent, or
  what the caller gets back.
\<close>

type_synonym server_msg = "channel_id \<times> channel_msg"

definition server_handle_data :: "bool \<Rightarrow> channel_id \<Rightarrow> bytes \<Rightarrow> bytes + server_msg" where
  "server_handle_data alive ch data = (if alive then Inr (ch, CM_Data data) else Inl data)"

definition server_handle_extended_data ::
  "bool \<Rightarrow> channel_id \<Rightarrow> u32 \<Rightarrow> bytes \<Rightarrow> bytes + server_msg" where
  "server_handle_extended_data alive ch ext data =
     (if alive then Inr (ch, CM_ExtendedData data ext) else Inl data)"

definition server_handle_eof :: "bool \<Rightarrow> channel_id \<Rightarrow> unit + server_msg" where
  "server_handle_eof alive ch = (if alive then Inr (ch, CM_Eof) else Inl ())"

definition server_handle_xon_xoff_request :: "bool \<Rightarrow> channel_id \<Rightarrow> bool \<Rightarrow> unit + server_msg" where
  "server_handle_xon_xoff_request alive ch client_can_do =
     (if alive then Inr (ch, CM_XonXoff client_can_do) else Inl ())"

definition server_handle_exit_status_request ::
  "bool \<Rightarrow> channel_id \<Rightarrow> u32 \<Rightarrow> unit + server_msg" where
  "server_handle_exit_status_request alive ch exit_status =
     (if alive then Inr (ch, CM_ExitStatus exit_status) else Inl ())"

definition server_handle_exit_signal_request ::
  "bool \<Rightarrow> channel_id \<Rightarrow> sig \<Rightarrow> bool \<Rightarrow> bytes \<Rightarrow> bytes \<Rightarrow> unit + server_msg" where
  "server_handle_exit_signal_request alive ch signal_name core_dumped error_message lang_tag =
     (if alive then Inr (ch, CM_ExitSignal signal_name core_dumped error_message lang_tag)
      else Inl ())"

end
