(* ===== verification/Spec2Isabelle.thy ===== *)
theory Spec2Isabelle
  imports Msg Packet_Props Ssh_Read_Props Negotiation_Props Session_Props Kex_Props Server_Auth_Props Server_Phases Server_Loop Client_Loop Auth_Dialogue Channel_Dialogue
    Requests Deliveries Flow_Control Login Client_Trust Client_Phases Rekeying Compressed Transfers Server_Handle
begin

text \<open>
  A verification development for the Rust crate \<^verbatim>\<open>thrussh\<close> (\<^verbatim>\<open>src/src/\<close>), an SSH library with a
  client and a server.

  \<^bold>\<open>The program.\<close> A connection is a loop (\<^verbatim>\<open>run_stream\<close> of \<^verbatim>\<open>server/mod.rs\<close>, \<^verbatim>\<open>Session::run\<close> of
  \<^verbatim>\<open>client/mod.rs\<close>) that reads a packet or takes a message of the application, lets a function
  \<^verbatim>\<open>reply\<close> change the session, and flushes what was queued. After the identification line
  (\<^verbatim>\<open>ssh_read.rs\<close>) both sides exchange KEXINIT packets (\<^verbatim>\<open>negotiation.rs\<close>) and run a key exchange
  (\<^verbatim>\<open>kex.rs\<close>, \<^verbatim>\<open>server/kex.rs\<close>, \<^verbatim>\<open>client/kex.rs\<close>), whose state is one of \<^verbatim>\<open>Kex\<close> in \<^verbatim>\<open>session.rs\<close>. From then on
  packets are sealed (\<^verbatim>\<open>cipher/\<close>, \<^verbatim>\<open>sshbuffer.rs\<close>) and may be compressed (\<^verbatim>\<open>compression.rs\<close>); the
  state is \<^verbatim>\<open>Encrypted\<close>, whose \<^verbatim>\<open>EncryptedState\<close> leads through the service request and the
  authentication (\<^verbatim>\<open>auth.rs\<close>) to the channels with their flow control (\<^verbatim>\<open>session.rs\<close>,
  \<^verbatim>\<open>server/encrypted.rs\<close>, \<^verbatim>\<open>client/encrypted.rs\<close>). The application is a \<^verbatim>\<open>Handler\<close>; its tasks reach the
  session through a \<^verbatim>\<open>Handle\<close>, a \<^verbatim>\<open>Channel\<close> or a tunnel (\<^verbatim>\<open>client/tunnel.rs\<close>).

  \<^bold>\<open>Conventions.\<close> A struct is a record, an enum a datatype, \<^verbatim>\<open>u32\<close> and \<^verbatim>\<open>u8\<close> are words, \<^verbatim>\<open>usize\<close> is a
  natural number. A call has an outcome \<open>'a res\<close>: a value, an error, a panic, or no return.
  Overflow is a panic where the code adds or subtracts without a wrapping operation, as in a
  checked build. Byte buffers are lists, an offset is a position in a list. Asynchronous calls are
  functions of what is received, queues are lists of what is going to arrive; a handler is a record
  of functions on a state of its own. Where the code can run forever, not returning is a value:
  \<open>send_loop\<close>, \<open>compress_loop\<close>, \<open>decompress_loop\<close>, \<open>free_channel_id\<close>, \<open>send_data\<close> and \<open>event_loop\<close> are
  partial functions, and no fuel is used anywhere; all other loops are shown to terminate.

  \<^bold>\<open>Parameters.\<close> \<open>deps\<close> holds what is not in the repository: the encoding of numbers and strings
  (\<open>codec\<close>, with the laws \<open>codec_laws\<close> of RFC 4251, provided by \<open>rfc_codec\<close>), libsodium (\<open>sodium_laws\<close>),
  the key library, SHA-256 and flate2 (\<open>deflate_law\<close>, \<open>inflate_law\<close>). \<open>world\<close> holds random bytes and
  the time. Every property that rests on such laws has a witness on concrete functions.

  \<^bold>\<open>The model\<close>, in the order of the code:
  \<^item> \<open>Prelude\<close>, \<open>Lib_Types\<close>, \<open>Msg\<close>: errors, outcomes, limits, signals, channels (\<^verbatim>\<open>lib.rs\<close>, \<^verbatim>\<open>msg.rs\<close>).
  \<^item> \<open>Codec\<close>, \<open>Keys_Lib\<close>: the wire encoding and the shapes of keys (\<^verbatim>\<open>key.rs\<close>).
  \<^item> \<open>Cipher\<close>: \<^verbatim>\<open>sshbuffer.rs\<close> and \<^verbatim>\<open>cipher/\<close>. \<open>Compression\<close>: \<^verbatim>\<open>compression.rs\<close>. \<open>Ssh_Read\<close>: \<^verbatim>\<open>ssh_read.rs\<close>.
  \<^item> \<open>Negotiation\<close>, \<open>Kex\<close>, \<open>Server_Kex\<close>, \<open>Client_Kex\<close>: the key exchange of both roles.
  \<^item> \<open>Session\<close>: \<^verbatim>\<open>session.rs\<close>. \<open>Auth\<close>, \<open>Pty\<close>: \<^verbatim>\<open>auth.rs\<close>, \<^verbatim>\<open>pty.rs\<close>.
  \<^item> \<open>Server_Session\<close>, \<open>Server_Channels\<close>, \<open>Server_Auth\<close>, \<open>Server\<close>, \<open>Server_Handle\<close>: \<^verbatim>\<open>server/\<close>, up to one
    round of the loop (\<open>server_read_round\<close>, \<open>server_message_round\<close>).
  \<^item> \<open>Client_Session\<close>, \<open>Client_Auth\<close>, \<open>Client_Channels\<close>, \<open>Client\<close>, \<open>Client_Handle\<close>, \<open>Tunnel\<close>: \<^verbatim>\<open>client/\<close>,
    likewise (\<open>client_read_round\<close>, \<open>client_message_round\<close>).
  \<^item> \<open>Event_Loop\<close>, \<open>Server_Loop\<close>, \<open>Client_Loop\<close>: the loops around these rounds, from the identification
    line to the result (\<open>server_run_stream\<close>, \<open>client_session_run\<close>). The branch that \<^verbatim>\<open>select!\<close> takes in
    each turn is an input, a stream of any branches; one that is not enabled is replaced by the read.

  \<^bold>\<open>The properties\<close>, each marked by its number where it stands:
  \<^item> Packets: \<open>Packet_Cipher\<close> states what a sealing and an opening cipher owe each other and proves
    it for the two there are; \<open>Packet_Props\<close> has the round trip, forgeries and padding.
  \<^item> Who is trusted: \<open>Server_Auth_Props\<close> (a server lets in whom its application accepts) and
    \<open>Client_Trust\<close> (a client talks to whom its application accepts), over all runs, against an
    application that may use every public operation; the contracts are \<open>server_app\<close> and \<open>client_app\<close>,
    and \<open>client_calls\<close> for what both \<open>Client_Trust\<close> and \<open>Client_Phases\<close> need of the calls.
  \<^item> The protocol: \<open>Server_Phases\<close> and \<open>Client_Phases\<close>, an automaton of the phases of a connection for
    each side, and that every run of the side is a run of it; \<open>Automaton\<close> has what the two share.
    \<open>turn_invariant\<close> is what lifts properties of runs to the loops, in \<open>Server_Loop\<close> and
    \<open>Client_Loop\<close>, which also show how a connection ends, or does not.
  \<^item> The key exchange: \<open>Negotiation_Props\<close>, \<open>Kex_Props\<close> (the first one) and \<open>Rekeying\<close> (the later ones):
    both sides agree, and where an exchange breaks the connection.
  \<^item> Authentication: \<open>Auth_Dialogue\<close> (the server's answers) and \<open>Login\<close> (both sides).
  \<^item> Channels: \<open>Session_Props\<close> (one end), \<open>Flow_Control\<close> (both ends and the network between them),
    \<open>Channel_Dialogue\<close>, \<open>Requests\<close> (client to server), \<open>Deliveries\<close> (server to client), \<open>Transfers\<close>
    (from the application's reader to the session).
  \<^item> \<open>Compressed\<close>: compression, from the queue of one side to the other side.
  \<^item> \<open>Ssh_Read_Props\<close>: the identification line.

  \<^bold>\<open>Not modelled.\<close> That a branch of \<^verbatim>\<open>select!\<close> that is not taken is cancelled in the middle of a packet,
  the timeout on reading the identification line, waiting before a rejection, and failing writes. Listening,
  connecting and the task of a session (tokio); \<^verbatim>\<open>client/proxy.rs\<close>, which passes reads and writes on;
  the examples; the variant of \<^verbatim>\<open>compression.rs\<close> without \<^verbatim>\<open>flate2\<close>; the logging; and the test modules.
\<close>

end
